(* ===== verification/Rust_Prelude.thy ===== *)
theory Rust_Prelude
  imports Main "HOL-Library.Word" "HOL-Library.Multiset"
begin

text \<open>
  Shared vocabulary of the development: the machine integers of the source, the result type of
  its fallible functions, the standard library's saturating arithmetic, and the generic lemmas on
  lists and words that the component theories use.

  Conventions: a Rust \<^verbatim>\<open>String\<close> or \<^verbatim>\<open>&str\<close> is a \<^typ>\<open>string\<close> that
  holds its UTF-8 bytes (a \<^typ>\<open>char\<close> is one byte, so \<^const>\<open>length\<close> is
  \<^verbatim>\<open>str::len\<close>); a \<^verbatim>\<open>Result<T, E>\<close> is a value of \<open>'e + 't\<close>
  with \<^const>\<open>Inl\<close> for \<^verbatim>\<open>Err\<close>.
\<close>

unbundle bit_operations_syntax

section \<open>Types\<close>

type_synonym u8 = "8 word"
type_synonym u16 = "16 word"
type_synonym u32 = "32 word"
type_synonym u64 = "64 word"
type_synonym bytes = "8 word list"
type_synonym ('t, 'e) result = "'e + 't"

named_theorems result_simps \<open>unfolding the combinators on results\<close>

section \<open>Results\<close>

definition ok_or :: "'e \<Rightarrow> 't option \<Rightarrow> ('t, 'e) result" where
  "ok_or e x = (case x of None \<Rightarrow> Inl e | Some v \<Rightarrow> Inr v)"

definition map_err :: "('e \<Rightarrow> 'f) \<Rightarrow> ('t, 'e) result \<Rightarrow> ('t, 'f) result" where
  "map_err f r = (case r of Inl e \<Rightarrow> Inl (f e) | Inr v \<Rightarrow> Inr v)"

definition and_then :: "('t, 'e) result \<Rightarrow> ('t \<Rightarrow> ('u, 'e) result) \<Rightarrow> ('u, 'e) result" where
  "and_then r f = (case r of Inl e \<Rightarrow> Inl e | Inr v \<Rightarrow> f v)"

definition result_ok :: "('t, 'e) result \<Rightarrow> 't option" where
  "result_ok r = (case r of Inl e \<Rightarrow> None | Inr v \<Rightarrow> Some v)"

definition is_ok :: "('t, 'e) result \<Rightarrow> bool" where
  "is_ok r = (case r of Inl e \<Rightarrow> False | Inr v \<Rightarrow> True)"

section \<open>Saturating and bounded arithmetic\<close>

definition saturating_sub :: "'a::len word \<Rightarrow> 'a word \<Rightarrow> 'a word" where
  "saturating_sub a b = (if a < b then 0 else a - b)"

text \<open>\<^verbatim>\<open>Vec::with_capacity\<close> panics when the elements would take more than \<^verbatim>\<open>isize::MAX\<close> bytes, on a
  64-bit target, and aborts when the allocator refuses the request. \<open>alloc_ok\<close> is the allocator's answer to a
  number of bytes; how much memory there is is not known to the program.\<close>

record vec_alloc =
  elem_size :: nat
  alloc_ok :: "nat \<Rightarrow> bool"

definition vec_capacity_ok :: "vec_alloc \<Rightarrow> nat \<Rightarrow> bool" where
  "vec_capacity_ok A n \<longleftrightarrow> elem_size A * n < 2 ^ 63 \<and> alloc_ok A (elem_size A * n)"

definition saturating_add :: "'a::len word \<Rightarrow> 'a word \<Rightarrow> 'a word" where
  "saturating_add a b = (if unat a + unat b < 2 ^ LENGTH('a) then a + b else - 1)"

section \<open>Lemmas on results\<close>

lemma ok_or_simps [simp, result_simps]:
  "ok_or e None = Inl e" "ok_or e (Some v) = Inr v"
  by (simp_all add: ok_or_def)

lemma map_err_simps [simp, result_simps]:
  "map_err f (Inl e) = Inl (f e)" "map_err f (Inr v) = Inr v"
  by (simp_all add: map_err_def)

lemma and_then_simps [simp, result_simps]:
  "and_then (Inl e) f = Inl e" "and_then (Inr v) f = f v"
  by (simp_all add: and_then_def)

lemma result_ok_simps [simp, result_simps]:
  "result_ok (Inl e) = None" "result_ok (Inr v) = Some v"
  by (simp_all add: result_ok_def)

lemma is_ok_simps [simp, result_simps]:
  "is_ok (Inl e) = False" "is_ok (Inr v) = True"
  by (simp_all add: is_ok_def)

lemma and_then_Inr_iff:
  "and_then r f = Inr y \<longleftrightarrow> (\<exists>x. r = Inr x \<and> f x = Inr y)"
  by (cases r) auto

lemma and_then_Inl_iff:
  "and_then r f = Inl e \<longleftrightarrow> r = Inl e \<or> (\<exists>x. r = Inr x \<and> f x = Inl e)"
  by (cases r) auto

lemma map_err_Inl_iff [simp]: "map_err f r = Inl e \<longleftrightarrow> (\<exists>d. r = Inl d \<and> e = f d)"
  by (cases r) auto

lemma map_err_Inr_iff [simp]: "map_err f r = Inr y \<longleftrightarrow> r = Inr y"
  by (cases r) auto

lemma ok_or_Inr_iff [simp]: "ok_or e x = Inr y \<longleftrightarrow> x = Some y"
  by (cases x) auto

lemma is_ok_iff: "is_ok r \<longleftrightarrow> (\<exists>v. r = Inr v)"
  by (cases r) auto

section \<open>Lemmas on words\<close>

lemma unat_word_of_nat: "n < 2 ^ LENGTH('a) \<Longrightarrow> unat (word_of_nat n :: 'a::len word) = n"
  by (simp add: unsigned_of_nat take_bit_nat_eq_self)

lemma unat_word_of_nat_8 [simp]: "n < 256 \<Longrightarrow> unat (word_of_nat n :: u8) = n"
  by (rule unat_word_of_nat) simp

lemma unat_u8_less [simp]: "unat (x :: u8) < 256"
  using unsigned_less [of x, where ?'a = nat] by simp

lemma unat_saturating_sub: "unat (saturating_sub a b) = unat a - unat b"
  by (simp add: saturating_sub_def word_less_nat_alt unat_sub word_le_nat_alt)

lemma unat_saturating_add:
  "unat (saturating_add a b :: 'a::len word) = min (unat a + unat b) (2 ^ LENGTH('a) - 1)"
proof (cases "unat a + unat b < 2 ^ LENGTH('a)")
  case True
  then show ?thesis by (simp add: saturating_add_def unat_word_ariths)
next
  case False
  then show ?thesis by (simp add: saturating_add_def unsigned_minus_1_eq_mask mask_eq_exp_minus_1)
qed

lemma saturating_sub_le: "saturating_sub a b \<le> a"
  by (simp add: word_le_nat_alt unat_saturating_sub)

lemma filter_unique_key:
  "distinct (map f xs) \<Longrightarrow> x \<in> set xs \<Longrightarrow> filter (\<lambda>y. f y = f x) xs = [x]"
  by (induction xs) (auto simp: filter_empty_conv, metis image_eqI)

end
