(* ===== verification/Rust_Str.thy ===== *)
theory Rust_Str
  imports Rust_Prelude "HOL-Library.Char_ord"
begin

text \<open>
  The standard library's string functions the source uses, over the UTF-8 bytes of the string:
  \<^verbatim>\<open>split(char)\<close> on an ASCII separator, \<^verbatim>\<open>trim\<close> and
  \<^verbatim>\<open>split_whitespace\<close> with the Unicode White_Space characters as their byte sequences,
  \<^verbatim>\<open>parse\<close> for the unsigned integers, and decimal \<^verbatim>\<open>to_string\<close>.
  UTF-8 is self-synchronising, so matching whole byte sequences agrees with the character-wise
  library functions on every valid string.
\<close>

section \<open>Splitting on a separator\<close>

fun split_char :: "char \<Rightarrow> string \<Rightarrow> string list" where
  "split_char c [] = [[]]"
| "split_char c (x # xs) =
     (if x = c then [] # split_char c xs
      else (case split_char c xs of [] \<Rightarrow> [[x]] | w # ws \<Rightarrow> (x # w) # ws))"

section \<open>White space\<close>

text \<open>The UTF-8 encodings of the characters with the Unicode property White_Space.\<close>

definition ws_seqs :: "string list" where
  "ws_seqs =
     [[CHR 0x09], [CHR 0x0A], [CHR 0x0B], [CHR 0x0C], [CHR 0x0D], [CHR 0x20],
      [CHR 0xC2, CHR 0x85], [CHR 0xC2, CHR 0xA0],
      [CHR 0xE1, CHR 0x9A, CHR 0x80],
      [CHR 0xE2, CHR 0x80, CHR 0x80], [CHR 0xE2, CHR 0x80, CHR 0x81],
      [CHR 0xE2, CHR 0x80, CHR 0x82], [CHR 0xE2, CHR 0x80, CHR 0x83],
      [CHR 0xE2, CHR 0x80, CHR 0x84], [CHR 0xE2, CHR 0x80, CHR 0x85],
      [CHR 0xE2, CHR 0x80, CHR 0x86], [CHR 0xE2, CHR 0x80, CHR 0x87],
      [CHR 0xE2, CHR 0x80, CHR 0x88], [CHR 0xE2, CHR 0x80, CHR 0x89],
      [CHR 0xE2, CHR 0x80, CHR 0x8A],
      [CHR 0xE2, CHR 0x80, CHR 0xA8], [CHR 0xE2, CHR 0x80, CHR 0xA9],
      [CHR 0xE2, CHR 0x80, CHR 0xAF], [CHR 0xE2, CHR 0x81, CHR 0x9F],
      [CHR 0xE3, CHR 0x80, CHR 0x80]]"

text \<open>The length of the white-space character at the front of a string, 0 when there is none.\<close>

definition ws_len :: "string \<Rightarrow> nat" where
  "ws_len s = (case List.find (\<lambda>w. take (length w) s = w) ws_seqs of
     None \<Rightarrow> 0 | Some w \<Rightarrow> length w)"

definition ws_len_end :: "string \<Rightarrow> nat" where
  "ws_len_end s = (case List.find (\<lambda>w. drop (length s - length w) s = w) ws_seqs of
     None \<Rightarrow> 0 | Some w \<Rightarrow> length w)"

text \<open>Stripping one character at a time: the length bounds the number of characters.\<close>

primrec trim_start_n :: "nat \<Rightarrow> string \<Rightarrow> string" where
  "trim_start_n 0 s = s"
| "trim_start_n (Suc n) s = (if ws_len s = 0 then s else trim_start_n n (drop (ws_len s) s))"

primrec trim_end_n :: "nat \<Rightarrow> string \<Rightarrow> string" where
  "trim_end_n 0 s = s"
| "trim_end_n (Suc n) s =
     (if ws_len_end s = 0 then s else trim_end_n n (take (length s - ws_len_end s) s))"

definition trim :: "string \<Rightarrow> string" where
  "trim s = (let t = trim_start_n (length s) s in trim_end_n (length t) t)"

text \<open>\<open>skip\<close> counts the remaining bytes of the white-space character just met.\<close>

fun split_ws_loop :: "nat \<Rightarrow> string \<Rightarrow> string \<Rightarrow> string list" where
  "split_ws_loop skip acc [] = (if acc = [] then [] else [rev acc])"
| "split_ws_loop (Suc skip) acc (x # xs) = split_ws_loop skip acc xs"
| "split_ws_loop 0 acc (x # xs) =
     (case ws_len (x # xs) of
        0 \<Rightarrow> split_ws_loop 0 (x # acc) xs
      | Suc n \<Rightarrow> (if acc = [] then split_ws_loop n [] xs else rev acc # split_ws_loop n [] xs))"

definition split_whitespace :: "string \<Rightarrow> string list" where
  "split_whitespace s = split_ws_loop 0 [] s"

section \<open>Unsigned integers as text\<close>

datatype int_error = Empty | InvalidDigit | PosOverflow

definition show_int_error :: "int_error \<Rightarrow> string" where
  "show_int_error e = (case e of
     Empty \<Rightarrow> ''cannot parse integer from empty string''
   | InvalidDigit \<Rightarrow> ''invalid digit found in string''
   | PosOverflow \<Rightarrow> ''number too large to fit in target type'')"

definition digit_val :: "char \<Rightarrow> nat option" where
  "digit_val c = (let n = (of_char c :: nat) in if 48 \<le> n \<and> n \<le> 57 then Some (n - 48) else None)"

text \<open>\<open>mx\<close> is the largest value of the target type.\<close>

fun parse_digits :: "nat \<Rightarrow> nat \<Rightarrow> string \<Rightarrow> (nat, int_error) result" where
  "parse_digits mx acc [] = Inr acc"
| "parse_digits mx acc (c # cs) =
     (case digit_val c of
        None \<Rightarrow> Inl InvalidDigit
      | Some d \<Rightarrow>
          if mx < acc * 10 then Inl PosOverflow
          else if mx < acc * 10 + d then Inl PosOverflow
          else parse_digits mx (acc * 10 + d) cs)"

definition parse_uint :: "nat \<Rightarrow> string \<Rightarrow> (nat, int_error) result" where
  "parse_uint mx s =
     (case s of
        [] \<Rightarrow> Inl Empty
      | c # cs \<Rightarrow>
          if c = CHR ''+'' then (if cs = [] then Inl InvalidDigit else parse_digits mx 0 cs)
          else parse_digits mx 0 s)"

definition parse_u64 :: "string \<Rightarrow> (u64, int_error) result" where
  "parse_u64 s = map_sum id word_of_nat (parse_uint (2 ^ 64 - 1) s)"

definition parse_u32 :: "string \<Rightarrow> (u32, int_error) result" where
  "parse_u32 s = map_sum id word_of_nat (parse_uint (2 ^ 32 - 1) s)"

definition digit_char :: "nat \<Rightarrow> char" where
  "digit_char d = char_of (48 + d)"

fun show_nat :: "nat \<Rightarrow> string" where
  "show_nat n = (if n < 10 then [digit_char n] else show_nat (n div 10) @ [digit_char (n mod 10)])"

declare show_nat.simps [simp del]

section \<open>Lemmas\<close>

lemma split_char_nonempty [simp]: "split_char c s \<noteq> []"
  by (cases s) (auto split: list.splits)

lemma split_char_no_sep: "c \<notin> set s \<Longrightarrow> split_char c s = [s]"
  by (induction s) auto

lemma split_char_append_sep: "c \<notin> set s \<Longrightarrow> split_char c (s @ c # t) = s # split_char c t"
  by (induction s) (auto split: list.splits)

lemma hd_split_char: "hd (split_char c s) = takeWhile (\<lambda>x. x \<noteq> c) s"
  by (induction s) (auto split: list.splits)

lemma split_char_parts: "w \<in> set (split_char c s) \<Longrightarrow> c \<notin> set w"
proof (induction s arbitrary: w)
  case (Cons x s)
  show ?case
  proof (cases "x = c")
    case False
    obtain v vs where "split_char c s = v # vs" by (meson list.exhaust split_char_nonempty)
    with Cons False show ?thesis by auto
  qed (use Cons in auto)
qed simp

lemma digit_val_digit_char [simp]: "d < 10 \<Longrightarrow> digit_val (digit_char d) = Some d"
  by (simp add: digit_val_def digit_char_def Let_def)

lemma digit_char_neq_plus: "d < 10 \<Longrightarrow> digit_char d \<noteq> CHR ''+''"
  using digit_val_digit_char [of d] by (auto simp: digit_val_def Let_def split: if_splits)

lemma parse_digits_append:
  "parse_digits mx acc (xs @ ys) = and_then (parse_digits mx acc xs) (\<lambda>a. parse_digits mx a ys)"
  by (induction xs arbitrary: acc) (auto split: option.splits)

lemma show_nat_not_Nil [simp]: "show_nat n \<noteq> []"
  by (subst show_nat.simps) simp

lemma parse_digits_show_nat: "n \<le> mx \<Longrightarrow> parse_digits mx 0 (show_nat n) = Inr n"
proof (induction n rule: show_nat.induct)
  case (1 n)
  show ?case
  proof (cases "n < 10")
    case True
    with "1.prems" show ?thesis by (simp add: show_nat.simps [of n])
  next
    case False
    have "n div 10 * 10 \<le> mx" "n div 10 \<le> mx" using "1.prems" by (simp_all add: le_trans)
    with False 1 show ?thesis
      by (simp add: show_nat.simps [of n] parse_digits_append)
  qed
qed

lemma show_nat_digits: "c \<in> set (show_nat n) \<Longrightarrow> \<exists>d<10. c = digit_char d"
proof (induction n rule: show_nat.induct)
  case (1 n)
  show ?case
  proof (cases "n < 10")
    case True
    with "1.prems" show ?thesis by (auto simp: show_nat.simps [of n])
  next
    case False
    with 1 show ?thesis
      by (auto simp: show_nat.simps [of n] intro: exI [of _ "n mod 10"])
  qed
qed

lemma hd_show_nat: "hd (show_nat n) \<noteq> CHR ''+''"
  using show_nat_digits [of "hd (show_nat n)" n] digit_char_neq_plus by (metis hd_in_set show_nat_not_Nil)

lemma parse_uint_show_nat: "n \<le> mx \<Longrightarrow> parse_uint mx (show_nat n) = Inr n"
  using hd_show_nat [of n] parse_digits_show_nat [of n mx]
  by (auto simp: parse_uint_def split: list.splits)

lemma inj_show_nat: "inj show_nat"
proof (rule injI)
  fix m n :: nat
  assume "show_nat m = show_nat n"
  then have "parse_uint (max m n) (show_nat m) = parse_uint (max m n) (show_nat n)" by simp
  then show "m = n" by (simp add: parse_uint_show_nat)
qed

lemma parse_digits_bound: "parse_digits mx acc s = Inr n \<Longrightarrow> acc \<le> mx \<Longrightarrow> n \<le> mx"
  by (induction s arbitrary: acc) (auto split: option.splits if_splits)

lemma parse_uint_bound: "parse_uint mx s = Inr n \<Longrightarrow> n \<le> mx"
  by (auto simp: parse_uint_def simp del: parse_digits.simps dest: parse_digits_bound
      split: list.splits if_splits)

text \<open>Visible ASCII: no byte of a white-space character is one of these.\<close>

definition graphic :: "char \<Rightarrow> bool" where
  "graphic c \<longleftrightarrow> 32 < (of_char c :: nat) \<and> (of_char c :: nat) < 127"

lemma ws_seqs_ends: "w \<in> set ws_seqs \<Longrightarrow> w \<noteq> [] \<and> \<not> graphic (hd w) \<and> \<not> graphic (last w)"
  by (auto simp: ws_seqs_def graphic_def)

lemma ws_len_graphic:
  assumes "graphic (hd s)"
  shows "ws_len s = 0"
proof -
  have "take (length w) s \<noteq> w" if "w \<in> set ws_seqs" for w
  proof
    assume "take (length w) s = w"
    moreover from ws_seqs_ends [OF that] have "0 < length w" by simp
    ultimately have "hd w = hd s" by (metis hd_take)
    with assms ws_seqs_ends [OF that] show False by simp
  qed
  then have "List.find (\<lambda>w. take (length w) s = w) ws_seqs = None"
    by (auto simp: find_None_iff)
  then show ?thesis by (simp add: ws_len_def)
qed

lemma ws_len_end_graphic:
  assumes "graphic (last s)"
  shows "ws_len_end s = 0"
proof -
  have "drop (length s - length w) s \<noteq> w" if "w \<in> set ws_seqs" for w
  proof
    assume eq: "drop (length s - length w) s = w"
    from ws_seqs_ends [OF that] have "w \<noteq> []" by simp
    with eq have "length s - length w < length s" by (metis drop_all linorder_not_less)
    with eq have "last w = last s" by (metis last_drop)
    with assms ws_seqs_ends [OF that] show False by simp
  qed
  then have "List.find (\<lambda>w. drop (length s - length w) s = w) ws_seqs = None"
    by (auto simp: find_None_iff)
  then show ?thesis by (simp add: ws_len_end_def)
qed

lemma trim_start_graphic: "graphic (hd s) \<Longrightarrow> trim_start_n n s = s"
  by (cases n) (simp_all add: ws_len_graphic)

lemma trim_end_graphic: "graphic (last s) \<Longrightarrow> trim_end_n n s = s"
  by (cases n) (simp_all add: ws_len_end_graphic)

lemma trim_graphic: "graphic (hd s) \<Longrightarrow> graphic (last s) \<Longrightarrow> trim s = s"
  by (simp add: trim_def trim_start_graphic trim_end_graphic)

lemma graphic_digit_char: "d < 10 \<Longrightarrow> graphic (digit_char d)"
  by (simp add: graphic_def digit_char_def)

lemma trim_show_nat [simp]: "trim (show_nat n) = show_nat n"
proof (rule trim_graphic)
  show "graphic (hd (show_nat n))" "graphic (last (show_nat n))"
    using show_nat_digits graphic_digit_char hd_in_set last_in_set show_nat_not_Nil by metis+
qed

end
