(* ===== verification/Hex_Utils.thy ===== *)
theory Hex_Utils
  imports Rust_Str
begin

text \<open>
  \<^verbatim>\<open>src/hex_utils.rs\<close>: decoding and encoding hexadecimal, and parsing a compressed
  public key. \<^verbatim>\<open>PublicKey::from_slice\<close> of the secp256k1 package is a parameter.
  The lemmas show that decoding inverts encoding, that it accepts exactly the even-length strings
  of hexadecimal digits, and which inputs the public-key parser hands to the curve library.
\<close>

section \<open>Definitions\<close>

definition as_bytes :: "string \<Rightarrow> bytes" where
  "as_bytes s = map of_char s"

text \<open>The \<^verbatim>\<open>match\<close> on one byte: the value or-ed into \<^verbatim>\<open>b\<close>.\<close>

definition hex_value :: "u8 \<Rightarrow> u8 option" where
  "hex_value c =
     (if 0x41 \<le> c \<and> c \<le> 0x46 then Some (c - 0x41 + 10)
      else if 0x61 \<le> c \<and> c \<le> 0x66 then Some (c - 0x61 + 10)
      else if 0x30 \<le> c \<and> c \<le> 0x39 then Some (c - 0x30)
      else None)"

fun to_vec_loop :: "nat \<Rightarrow> u8 \<Rightarrow> bytes \<Rightarrow> bytes \<Rightarrow> bytes option" where
  "to_vec_loop idx b out [] = Some out"
| "to_vec_loop idx b out (c # cs) =
     (case hex_value c of
        None \<Rightarrow> None
      | Some v \<Rightarrow>
          (let b = push_bit 4 b OR v
           in if odd idx then to_vec_loop (Suc idx) 0 (out @ [b]) cs
              else to_vec_loop (Suc idx) b out cs))"

definition to_vec :: "string \<Rightarrow> bytes option" where
  "to_vec hex = (if odd (length hex) then None else to_vec_loop 0 0 [] (as_bytes hex))"

text \<open>The two digits that the format \<^verbatim>\<open>{:02x}\<close> writes for a byte.\<close>

definition hex_digit :: "nat \<Rightarrow> char" where
  "hex_digit n = char_of (if n < 10 then 48 + n else 87 + n)"

definition hex_byte :: "u8 \<Rightarrow> string" where
  "hex_byte v = [hex_digit (unat v div 16), hex_digit (unat v mod 16)]"

definition hex_str :: "bytes \<Rightarrow> string" where
  "hex_str bs = concat (map hex_byte bs)"

definition to_compressed_pubkey :: "(bytes \<Rightarrow> 'pk option) \<Rightarrow> string \<Rightarrow> 'pk option" where
  "to_compressed_pubkey from_slice hex =
     (if length hex \<noteq> 33 * 2 then None
      else (case to_vec (take (33 * 2) hex) of None \<Rightarrow> None | Some d \<Rightarrow> from_slice d))"

section \<open>Lemmas\<close>

definition is_hex_char :: "char \<Rightarrow> bool" where
  "is_hex_char c = (let n = (of_char c :: nat) in
     48 \<le> n \<and> n \<le> 57 \<or> 65 \<le> n \<and> n \<le> 70 \<or> 97 \<le> n \<and> n \<le> 102)"

definition lower_hex :: "char \<Rightarrow> char" where
  "lower_hex c = (let n = (of_char c :: nat) in if 65 \<le> n \<and> n \<le> 70 then char_of (n + 32) else c)"

lemma unat_of_char: "unat (of_char c :: u8) = of_char c"
  using unat_word_of_nat_8 [OF nat_of_char_less_256 [of c]] by (simp only: of_nat_of_char)

lemma hex_value_cases:
  fixes x :: u8
  shows "65 \<le> unat x \<Longrightarrow> unat x \<le> 70 \<Longrightarrow> unat (x - 0x41 + 10) = unat x - 55"
    and "97 \<le> unat x \<Longrightarrow> unat x \<le> 102 \<Longrightarrow> unat (x - 0x61 + 10) = unat x - 87"
    and "48 \<le> unat x \<Longrightarrow> unat x \<le> 57 \<Longrightarrow> unat (x - 0x30) = unat x - 48"
  by unat_arith+

lemma hex_value_None: "hex_value (of_char c) = None \<longleftrightarrow> \<not> is_hex_char c"
  by (auto simp: hex_value_def is_hex_char_def Let_def word_le_nat_alt unat_of_char)

lemma hex_value_Some:
  assumes "hex_value (of_char c) = Some v"
  shows "unat v < 16 \<and> lower_hex c = hex_digit (unat v)"
proof -
  define n where "n = (of_char c :: nat)"
  note cs = hex_value_cases [of "of_char c", unfolded unat_of_char, folded n_def]
  have c: "c = char_of n" by (simp add: n_def)
  have "65 \<le> n \<and> n \<le> 70 \<and> unat v = n - 55 \<or> 97 \<le> n \<and> n \<le> 102 \<and> unat v = n - 87 \<or>
      48 \<le> n \<and> n \<le> 57 \<and> unat v = n - 48"
    using assms cs
    by (auto simp: hex_value_def word_le_nat_alt unat_of_char simp flip: n_def split: if_splits)
  then show ?thesis
    unfolding lower_hex_def hex_digit_def Let_def n_def [symmetric] by (auto simp: c)
qed

lemma unat_push_bit_OR:
  assumes "unat h < 16" "unat l < 16"
  shows "unat (push_bit 4 h OR l :: u8) = 16 * unat h + unat l"
proof -
  have "unat (l mod 16) = unat l" using assms(2) by (simp add: unat_mod)
  then have "l mod 16 = l" by (simp only: word_unat_eq_iff)
  then have l: "l = take_bit 4 l" by (simp add: take_bit_eq_mod)
  have "push_bit 4 h AND l = 0"
    by (subst l) (auto simp: bit_eq_iff bit_simps)
  then have "push_bit 4 h OR l = 16 * h + l"
    using disjunctive_add_eq_or [of "push_bit 4 h" l] by (simp add: push_bit_eq_mult mult.commute)
  then show ?thesis using assms by (simp add: unat_word_ariths)
qed

lemma hex_byte_join:
  "unat h < 16 \<Longrightarrow> unat l < 16 \<Longrightarrow>
    hex_byte (push_bit 4 h OR l) = [hex_digit (unat h), hex_digit (unat l)]"
  by (simp add: hex_byte_def unat_push_bit_OR)

lemma hex_digit_inj: "m < 16 \<Longrightarrow> n < 16 \<Longrightarrow> hex_digit m = hex_digit n \<longleftrightarrow> m = n"
  by (auto simp: hex_digit_def split: if_splits)

lemma hex_byte_inj: "hex_byte a = hex_byte b \<longleftrightarrow> a = b"
proof
  assume "hex_byte a = hex_byte b"
  then have "unat a div 16 = unat b div 16" "unat a mod 16 = unat b mod 16"
    by (auto simp: hex_byte_def hex_digit_inj less_mult_imp_div_less)
  then have "unat a = unat b" by (metis div_mult_mod_eq)
  then show "a = b" by (simp only: word_unat_eq_iff)
qed simp

lemma length_hex_byte [simp]: "length (hex_byte v) = 2"
  by (simp add: hex_byte_def)

lemma length_hex_str: "length (hex_str bs) = 2 * length bs"
  by (induction bs) (simp_all add: hex_str_def)

lemma hex_str_Cons_iff:
  "hex_str bs = hex_byte b @ s \<longleftrightarrow> (\<exists>bs'. bs = b # bs' \<and> hex_str bs' = s)"
proof (cases bs)
  case Nil
  then show ?thesis by (simp add: hex_str_def hex_byte_def)
next
  case (Cons b' bs')
  then show ?thesis by (auto simp: hex_str_def hex_byte_inj)
qed

lemma to_vec_loop_pair:
  "even idx \<Longrightarrow> to_vec_loop idx 0 out (c # d # cs) =
    (case hex_value c of None \<Rightarrow> None | Some h \<Rightarrow>
      (case hex_value d of None \<Rightarrow> None | Some l \<Rightarrow>
         to_vec_loop (idx + 2) 0 (out @ [push_bit 4 h OR l]) cs))"
  by (simp add: Let_def split: option.splits)

lemma to_vec_loop_iff:
  "even idx \<Longrightarrow> even (length s) \<Longrightarrow>
    to_vec_loop idx 0 out (as_bytes s) = Some r \<longleftrightarrow>
    (\<exists>bs. r = out @ bs \<and> (\<forall>c\<in>set s. is_hex_char c) \<and> hex_str bs = map lower_hex s)"
proof (induction s arbitrary: idx out r rule: induct_list012)
  case 1
  then show ?case by (auto simp: as_bytes_def hex_str_def hex_byte_def)
next
  case (2 x)
  then show ?case by simp
next
  case (3 x y zs)
  show ?case
  proof (cases "is_hex_char x \<and> is_hex_char y")
    case False
    then show ?thesis
      using 3(3) hex_value_None [of x] hex_value_None [of y]
      by (auto simp: as_bytes_def to_vec_loop_pair simp del: to_vec_loop.simps split: option.splits)
  next
    case True
    then obtain h l where h: "hex_value (of_char x) = Some h" and l: "hex_value (of_char y) = Some l"
      using hex_value_None by fastforce
    note hs = hex_value_Some [OF h] and ls = hex_value_Some [OF l]
    have step: "to_vec_loop idx 0 out (as_bytes (x # y # zs)) =
        to_vec_loop (idx + 2) 0 (out @ [push_bit 4 h OR l]) (as_bytes zs)"
      using 3(3) h l by (simp add: as_bytes_def to_vec_loop_pair del: to_vec_loop.simps)
    have split: "hex_str bs = lower_hex x # lower_hex y # map lower_hex zs \<longleftrightarrow>
        (\<exists>bs'. bs = (push_bit 4 h OR l) # bs' \<and> hex_str bs' = map lower_hex zs)" for bs
      
      using hs ls hex_str_Cons_iff [of bs "push_bit 4 h OR l" "map lower_hex zs"]
      by (simp add: hex_byte_join)
    show ?thesis
      unfolding step using 3 True by (auto simp: split)
  qed
qed


lemma to_vec_iff:
  "to_vec s = Some bs \<longleftrightarrow>
    even (length s) \<and> (\<forall>c\<in>set s. is_hex_char c) \<and> hex_str bs = map lower_hex s"
  using to_vec_loop_iff [of 0 s "[]" bs] by (auto simp: to_vec_def)

lemma hex_digit_hex: "n < 16 \<Longrightarrow> is_hex_char (hex_digit n) \<and> lower_hex (hex_digit n) = hex_digit n"
  by (auto simp: is_hex_char_def lower_hex_def hex_digit_def Let_def)

lemma hex_byte_hex: "c \<in> set (hex_byte v) \<Longrightarrow> is_hex_char c \<and> lower_hex c = c"
  using hex_digit_hex by (auto simp: hex_byte_def less_mult_imp_div_less)

lemma hex_str_hex: "c \<in> set (hex_str bs) \<Longrightarrow> is_hex_char c \<and> lower_hex c = c"
  using hex_byte_hex by (auto simp: hex_str_def)


section \<open>Properties\<close>

text \<open>C40: decoding inverts encoding: for every byte string, \<open>to_vec\<close> of its
  \<open>hex_str\<close> is the byte string itself.\<close>

theorem to_vec_hex_str: "to_vec (hex_str bs) = Some bs"
proof -
  have "map lower_hex (hex_str bs) = hex_str bs"
    using hex_str_hex by (intro map_idI) blast
  then show ?thesis using hex_str_hex by (auto simp: to_vec_iff length_hex_str)
qed

text \<open>\<open>to_vec\<close> accepts exactly the strings of even length made of hexadecimal digits of
  either case, and the bytes it returns are those whose lower-case encoding is the input in lower
  case; everything else is \<open>None\<close>.\<close>

theorem to_vec_characterised:
  "to_vec s = Some bs \<longleftrightarrow>
    even (length s) \<and> list_all is_hex_char s \<and> hex_str bs = map lower_hex s"
  by (simp add: to_vec_iff list_all_iff)

text \<open>\<open>to_compressed_pubkey\<close> hands the curve library exactly the 33 decoded bytes of a
  66-digit string: on the encoding of a byte string it is the library's answer for 33 bytes and
  \<open>None\<close> for every other length.\<close>

theorem to_compressed_pubkey_hex_str:
  "to_compressed_pubkey from_slice (hex_str bs) = (if length bs = 33 then from_slice bs else None)"
proof -
  have "to_vec (hex_str bs) = Some bs"
    using to_vec_iff [of "hex_str bs" bs] hex_str_hex
    by (auto simp: length_hex_str intro!: map_idI [symmetric])
  then show ?thesis by (auto simp: to_compressed_pubkey_def length_hex_str)
qed

end
