(* ===== verification/Hash_Map.thy ===== *)
theory Hash_Map
  imports Rust_Prelude "HOL-Library.AList"
begin

text \<open>
  The standard library's \<^verbatim>\<open>HashMap\<close> as the source uses it. A map is an association
  list with distinct keys; the order of the list stands for the iteration order, which the
  standard library leaves open, so a fact proved for every well-formed list holds for every
  iteration order. The locale \<open>hash_map\<close> is the contract the components rely on; its
  interpretation discharges the laws for the list operations.
\<close>

type_synonym ('k, 'v) hmap = "('k \<times> 'v) list"

section \<open>Operations\<close>

definition hm_new :: "('k, 'v) hmap" where
  "hm_new = []"

definition hm_get :: "('k, 'v) hmap \<Rightarrow> 'k \<Rightarrow> 'v option" where
  "hm_get m k = map_of m k"

definition hm_insert :: "'k \<Rightarrow> 'v \<Rightarrow> ('k, 'v) hmap \<Rightarrow> ('k, 'v) hmap" where
  "hm_insert k v m = AList.update k v m"

definition hm_remove :: "'k \<Rightarrow> ('k, 'v) hmap \<Rightarrow> ('k, 'v) hmap" where
  "hm_remove k m = AList.delete k m"

definition hm_retain :: "('k \<Rightarrow> 'v \<Rightarrow> bool) \<Rightarrow> ('k, 'v) hmap \<Rightarrow> ('k, 'v) hmap" where
  "hm_retain P m = filter (\<lambda>(k, v). P k v) m"

text \<open>A loop over \<^verbatim>\<open>iter_mut\<close> that rewrites the values in place.\<close>

definition hm_map :: "('k \<Rightarrow> 'v \<Rightarrow> 'v) \<Rightarrow> ('k, 'v) hmap \<Rightarrow> ('k, 'v) hmap" where
  "hm_map f m = map (\<lambda>(k, v). (k, f k v)) m"

text \<open>\<^verbatim>\<open>if let Some(x) = map.get_mut(&k)\<close> and a write through \<^verbatim>\<open>x\<close>.\<close>

definition hm_modify :: "'k \<Rightarrow> ('v \<Rightarrow> 'v) \<Rightarrow> ('k, 'v) hmap \<Rightarrow> ('k, 'v) hmap" where
  "hm_modify k f m = (case hm_get m k of None \<Rightarrow> m | Some v \<Rightarrow> hm_insert k (f v) m)"

definition hm_wf :: "('k, 'v) hmap \<Rightarrow> bool" where
  "hm_wf m = distinct (map fst m)"

section \<open>The contract\<close>

locale hash_map =
  fixes new :: "'m"
    and get :: "'m \<Rightarrow> 'k \<Rightarrow> 'v option"
    and insert :: "'k \<Rightarrow> 'v \<Rightarrow> 'm \<Rightarrow> 'm"
    and remove :: "'k \<Rightarrow> 'm \<Rightarrow> 'm"
    and retain :: "('k \<Rightarrow> 'v \<Rightarrow> bool) \<Rightarrow> 'm \<Rightarrow> 'm"
    and size_of :: "'m \<Rightarrow> nat"
    and wf :: "'m \<Rightarrow> bool"
  assumes get_new: "get new k = None"
    and get_insert: "get (insert k v m) k' = (if k' = k then Some v else get m k')"
    and get_remove: "get (remove k m) k' = (if k' = k then None else get m k')"
    and get_retain: "wf m \<Longrightarrow> get (retain P m) k =
          (case get m k of None \<Rightarrow> None | Some v \<Rightarrow> if P k v then Some v else None)"
    and wf_new: "wf new"
    and wf_insert: "wf m \<Longrightarrow> wf (insert k v m)"
    and wf_remove: "wf m \<Longrightarrow> wf (remove k m)"
    and wf_retain: "wf m \<Longrightarrow> wf (retain P m)"
    and dom_finite: "finite (dom (get m))"
    and size_dom: "wf m \<Longrightarrow> size_of m = card (dom (get m))"
begin

lemma wf_fold_remove: "wf m \<Longrightarrow> wf (fold remove ks m)"
  by (induction ks arbitrary: m) (auto intro: wf_remove)

lemma get_fold_remove: "get (fold remove ks m) k = (if k \<in> set ks then None else get m k)"
  by (induction ks arbitrary: m) (auto simp: get_remove)

lemma dom_insert: "dom (get (insert k v m)) = Set.insert k (dom (get m))"
  by (auto simp: dom_def get_insert)

lemma dom_remove: "dom (get (remove k m)) = dom (get m) - {k}"
  by (auto simp: dom_def get_remove)

lemma dom_fold_remove: "dom (get (fold remove ks m)) = dom (get m) - set ks"
  by (auto simp: dom_def get_fold_remove)

lemma dom_retain: "wf m \<Longrightarrow> dom (get (retain P m)) \<subseteq> dom (get m)"
  by (auto simp: dom_def get_retain split: option.splits)

lemma size_insert_le: "wf m \<Longrightarrow> size_of (insert k v m) \<le> Suc (size_of m)"
  by (simp add: size_dom wf_insert dom_insert card_insert_if dom_finite)

lemma size_insert_old: "wf m \<Longrightarrow> get m k = Some w \<Longrightarrow> size_of (insert k v m) = size_of m"
  by (simp add: size_dom wf_insert dom_insert card_insert_if dom_finite domI)

lemma size_insert_new: "wf m \<Longrightarrow> get m k = None \<Longrightarrow> size_of (insert k v m) = Suc (size_of m)"
  by (simp add: size_dom wf_insert dom_insert card_insert_if dom_finite domIff)

lemma smaller_misses_key: "wf m \<Longrightarrow> wf n \<Longrightarrow> size_of m < size_of n \<Longrightarrow> \<exists>k. get n k \<noteq> None \<and> get m k = None"
  using card_mono [of "dom (get m)" "dom (get n)"] by (fastforce simp: size_dom dom_finite)

lemma size_remove_le: "wf m \<Longrightarrow> size_of (remove k m) \<le> size_of m"
  by (simp add: size_dom wf_remove dom_remove card_Diff1_le dom_finite)

lemma size_retain_le: "wf m \<Longrightarrow> size_of (retain P m) \<le> size_of m"
  by (simp add: size_dom wf_retain card_mono dom_finite dom_retain)

lemma size_fold_remove:
  "wf m \<Longrightarrow> distinct ks \<Longrightarrow> set ks \<subseteq> dom (get m) \<Longrightarrow>
    size_of (fold remove ks m) = size_of m - length ks"
  by (simp add: size_dom wf_fold_remove dom_fold_remove card_Diff_subset distinct_card)

end

section \<open>The list operations meet the contract\<close>

lemma hm_get_retain:
  assumes "hm_wf m"
  shows "hm_get (hm_retain P m) k =
    (case hm_get m k of None \<Rightarrow> None | Some v \<Rightarrow> if P k v then Some v else None)"
  using assms
proof (induction m)
  case Nil
  then show ?case by (simp add: hm_get_def hm_retain_def)
next
  case (Cons kv m)
  obtain k0 v0 where kv: "kv = (k0, v0)" by (cases kv)
  from Cons.prems have nin: "map_of m k0 = None"
    by (auto simp: hm_wf_def kv map_of_eq_None_iff)
  from Cons have IH: "map_of (filter (\<lambda>(k, v). P k v) m) k =
      (case map_of m k of None \<Rightarrow> None | Some v \<Rightarrow> if P k v then Some v else None)"
    by (simp add: hm_get_def hm_retain_def hm_wf_def)
  show ?case
    using IH nin by (auto simp: hm_get_def hm_retain_def kv)
qed

lemma hm_wf_filter: "hm_wf m \<Longrightarrow> hm_wf (filter P m)"
  by (simp add: hm_wf_def distinct_map_filter)

lemma hm_dom: "dom (hm_get m) = fst ` set m"
  unfolding hm_get_def by (simp add: dom_map_of_conv_image_fst)

interpretation hm: hash_map hm_new hm_get hm_insert hm_remove hm_retain length hm_wf
proof
  fix m :: "('k, 'v) hmap" and k k' :: 'k and v :: 'v and P
  show "hm_get hm_new k = (None :: 'v option)"
    by (simp add: hm_get_def hm_new_def)
  show "hm_get (hm_insert k v m) k' = (if k' = k then Some v else hm_get m k')"
    by (simp add: hm_get_def hm_insert_def update_conv)
  show "hm_get (hm_remove k m) k' = (if k' = k then None else hm_get m k')"
    by (simp add: hm_get_def hm_remove_def delete_conv)
  show "hm_wf m \<Longrightarrow> hm_get (hm_retain P m) k =
      (case hm_get m k of None \<Rightarrow> None | Some v \<Rightarrow> if P k v then Some v else None)"
    by (rule hm_get_retain)
  show "hm_wf (hm_new :: ('k, 'v) hmap)"
    by (simp add: hm_wf_def hm_new_def)
  show "hm_wf m \<Longrightarrow> hm_wf (hm_insert k v m)"
    by (simp add: hm_wf_def hm_insert_def distinct_update)
  show "hm_wf m \<Longrightarrow> hm_wf (hm_remove k m)"
    by (simp add: hm_wf_def hm_remove_def distinct_delete)
  show "hm_wf m \<Longrightarrow> hm_wf (hm_retain P m)"
    by (simp add: hm_retain_def hm_wf_filter)
  show "finite (dom (hm_get m))"
    by (simp add: hm_dom)
  show "hm_wf m \<Longrightarrow> length m = card (dom (hm_get m))"
    using distinct_card [of "map fst m"] by (simp add: hm_dom hm_wf_def)
qed

section \<open>Rewriting values in place\<close>

lemma hm_get_map [simp]: "hm_get (hm_map f m) k = map_option (f k) (hm_get m k)"
  by (induction m) (auto simp: hm_get_def hm_map_def)

lemma hm_wf_map [simp]: "hm_wf (hm_map f m) = hm_wf m"
  by (simp add: hm_wf_def hm_map_def comp_def case_prod_beta)

lemma hm_get_modify:
  "hm_get (hm_modify k f m) k' = (if k' = k then map_option f (hm_get m k) else hm_get m k')"
  by (simp add: hm_modify_def hm.get_insert split: option.splits)

lemma hm_wf_modify [simp]: "hm_wf m \<Longrightarrow> hm_wf (hm_modify k f m)"
  by (simp add: hm_modify_def hm.wf_insert split: option.splits)

lemma hm_get_Some_in: "hm_wf m \<Longrightarrow> hm_get m k = Some v \<longleftrightarrow> (k, v) \<in> set m"
  by (simp add: hm_get_def hm_wf_def)

lemmas hm_specs [simp] =
  hm.get_new hm.get_insert hm.get_remove hm.wf_new hm.wf_insert hm.wf_remove hm.wf_retain
  hm_get_modify

end
