(* ===== verification/Probe_Tracker.thy ===== *)
theory Probe_Tracker
  imports Hash_Map
begin

text \<open>
  \<^verbatim>\<open>src/probing/tracker.rs\<close>: the rendezvous between the probing task, which waits for the
  result of a probe, and the event handler, which learns it. A \<^verbatim>\<open>oneshot\<close> channel is
  known by a number; what the tracker does to the sending halves it owns is a list of events
  (\<open>Sent\<close>, or \<open>TxDropped\<close> when a sender goes out of scope unused). An \<^verbatim>\<open>Instant\<close> is a
  number of nanoseconds, and every reading of the clock is an argument.

  Shown: the tracker refines a one-slot-per-hash specification; in every interleaving of
  registrations, completions and timeouts the three maps stay disjoint and every channel handed
  out is pending or resolved exactly once; pruning bounds the tombstones and evicts the oldest.
\<close>

type_synonym payment_hash = bytes
type_synonym instant = nat
type_synonym chan = nat

section \<open>The tracker\<close>

definition TIMED_OUT_PROBE_TTL :: nat where
  "TIMED_OUT_PROBE_TTL = 15 * 60 * 10 ^ 9"

definition MAX_TIMED_OUT_PROBES :: nat where
  "MAX_TIMED_OUT_PROBES = 4096"

datatype probe_outcome = OutcomeSuccess | OutcomeFailed

datatype chan_event = Sent chan probe_outcome | TxDropped chan

record probe_tracker =
  pending_probes :: "(payment_hash, chan) hmap"
  completed_probes :: "(payment_hash, probe_outcome) hmap"
  timed_out_probes :: "(payment_hash, instant) hmap"

definition tracker_new :: probe_tracker where
  "tracker_new = \<lparr>pending_probes = hm_new, completed_probes = hm_new, timed_out_probes = hm_new\<rparr>"

definition prune_map :: "instant \<Rightarrow> (payment_hash, instant) hmap \<Rightarrow> (payment_hash, instant) hmap" where
  "prune_map now m0 =
     (let m = hm_retain (\<lambda>_ timed_out_at. now - timed_out_at \<le> TIMED_OUT_PROBE_TTL) m0
      in if length m \<le> MAX_TIMED_OUT_PROBES then m
         else (let remove_count = length m - MAX_TIMED_OUT_PROBES;
                   by_age = sort_key snd m
               in fold (\<lambda>(payment_hash, _). hm_remove payment_hash) (take remove_count by_age) m))"

definition prune_timed_out_probes :: "instant \<Rightarrow> probe_tracker \<Rightarrow> probe_tracker" where
  "prune_timed_out_probes now t = t\<lparr>timed_out_probes := prune_map now (timed_out_probes t)\<rparr>"

text \<open>\<open>ch\<close> is the channel the call creates; its receiving half is what the code returns.\<close>

definition register_probe ::
  "instant \<Rightarrow> chan \<Rightarrow> payment_hash \<Rightarrow> probe_tracker \<Rightarrow> probe_tracker \<times> chan_event list" where
  "register_probe now ch h t0 =
     (let t1 = prune_timed_out_probes now t0;
          t = t1\<lparr>timed_out_probes := hm_remove h (timed_out_probes t1)\<rparr>
      in case hm_get (completed_probes t) h of
           Some outcome \<Rightarrow>
             (t\<lparr>completed_probes := hm_remove h (completed_probes t)\<rparr>, [Sent ch outcome])
         | None \<Rightarrow>
             (t\<lparr>pending_probes := hm_insert h ch (pending_probes t)\<rparr>,
              case hm_get (pending_probes t) h of None \<Rightarrow> [] | Some old \<Rightarrow> [TxDropped old]))"

definition complete_probe ::
  "instant \<Rightarrow> payment_hash \<Rightarrow> probe_outcome \<Rightarrow> probe_tracker \<Rightarrow> probe_tracker \<times> chan_event list" where
  "complete_probe now h outcome t0 =
     (let t = prune_timed_out_probes now t0
      in case hm_get (timed_out_probes t) h of
           Some _ \<Rightarrow> (t\<lparr>timed_out_probes := hm_remove h (timed_out_probes t)\<rparr>, [])
         | None \<Rightarrow>
             (case hm_get (pending_probes t) h of
                Some sender \<Rightarrow>
                  (t\<lparr>pending_probes := hm_remove h (pending_probes t)\<rparr>, [Sent sender outcome])
              | None \<Rightarrow>
                  (t\<lparr>completed_probes := hm_insert h outcome (completed_probes t)\<rparr>, [])))"

definition complete_success ::
  "instant \<Rightarrow> payment_hash \<Rightarrow> probe_tracker \<Rightarrow> probe_tracker \<times> chan_event list" where
  "complete_success now h t = complete_probe now h OutcomeSuccess t"

definition complete_failed ::
  "instant \<Rightarrow> payment_hash \<Rightarrow> probe_tracker \<Rightarrow> probe_tracker \<times> chan_event list" where
  "complete_failed now h t = complete_probe now h OutcomeFailed t"

text \<open>The clock is read twice, once by the pruning and once for the tombstone.\<close>

definition mark_timed_out ::
  "instant \<Rightarrow> instant \<Rightarrow> payment_hash \<Rightarrow> probe_tracker \<Rightarrow> probe_tracker \<times> chan_event list" where
  "mark_timed_out now now' h t0 =
     (let t = prune_timed_out_probes now t0
      in (t\<lparr>pending_probes := hm_remove h (pending_probes t),
            completed_probes := hm_remove h (completed_probes t),
            timed_out_probes := hm_insert h now' (timed_out_probes t)\<rparr>,
          case hm_get (pending_probes t) h of None \<Rightarrow> [] | Some c \<Rightarrow> [TxDropped c]))"

section \<open>The specification: one slot per payment hash\<close>

datatype slot = Idle | Waiting chan | Buffered probe_outcome | Expired instant

definition slot_of :: "probe_tracker \<Rightarrow> payment_hash \<Rightarrow> slot" where
  "slot_of t h =
     (case hm_get (pending_probes t) h of
        Some c \<Rightarrow> Waiting c
      | None \<Rightarrow>
          (case hm_get (completed_probes t) h of
             Some r \<Rightarrow> Buffered r
           | None \<Rightarrow>
               (case hm_get (timed_out_probes t) h of Some i \<Rightarrow> Expired i | None \<Rightarrow> Idle)))"

fun slot_register :: "chan \<Rightarrow> slot \<Rightarrow> slot \<times> chan_event list" where
  "slot_register ch (Buffered r) = (Idle, [Sent ch r])"
| "slot_register ch (Waiting old) = (Waiting ch, [TxDropped old])"
| "slot_register ch s = (Waiting ch, [])"

fun slot_complete :: "probe_outcome \<Rightarrow> slot \<Rightarrow> slot \<times> chan_event list" where
  "slot_complete r (Expired i) = (Idle, [])"
| "slot_complete r (Waiting c) = (Idle, [Sent c r])"
| "slot_complete r s = (Buffered r, [])"

fun slot_timeout :: "instant \<Rightarrow> slot \<Rightarrow> slot \<times> chan_event list" where
  "slot_timeout i (Waiting c) = (Expired i, [TxDropped c])"
| "slot_timeout i s = (Expired i, [])"

definition tracker_wf :: "probe_tracker \<Rightarrow> bool" where
  "tracker_wf t \<longleftrightarrow>
     hm_wf (pending_probes t) \<and> hm_wf (completed_probes t) \<and> hm_wf (timed_out_probes t) \<and>
     dom (hm_get (pending_probes t)) \<inter> dom (hm_get (completed_probes t)) = {} \<and>
     dom (hm_get (pending_probes t)) \<inter> dom (hm_get (timed_out_probes t)) = {} \<and>
     dom (hm_get (completed_probes t)) \<inter> dom (hm_get (timed_out_probes t)) = {}"

section \<open>Interleavings\<close>

text \<open>
  Every method runs under the tracker's mutex, so an execution is a sequence of whole calls. The
  state adds the clock, the number of the next channel and the events so far; \<open>probe_step\<close>
  lets the clock advance and lets any task make any call at any time.
\<close>

fun chan_of :: "chan_event \<Rightarrow> chan" where
  "chan_of (Sent c r) = c"
| "chan_of (TxDropped c) = c"

record probe_sys =
  sys_tracker :: probe_tracker
  sys_clock :: instant
  sys_next :: chan
  sys_log :: "chan_event list"

definition sys_init :: probe_sys where
  "sys_init = \<lparr>sys_tracker = tracker_new, sys_clock = 0, sys_next = 0, sys_log = []\<rparr>"

inductive probe_step :: "probe_sys \<Rightarrow> probe_sys \<Rightarrow> bool" where
  tick: "probe_step s (s\<lparr>sys_clock := sys_clock s + d\<rparr>)"
| register: "register_probe (sys_clock s) (sys_next s) h (sys_tracker s) = (t, evs) \<Longrightarrow>
    probe_step s (s\<lparr>sys_tracker := t, sys_next := Suc (sys_next s), sys_log := sys_log s @ evs\<rparr>)"
| complete: "complete_probe (sys_clock s) h r (sys_tracker s) = (t, evs) \<Longrightarrow>
    probe_step s (s\<lparr>sys_tracker := t, sys_log := sys_log s @ evs\<rparr>)"
| timeout: "mark_timed_out (sys_clock s) (sys_clock s + d) h (sys_tracker s) = (t, evs) \<Longrightarrow>
    probe_step s (s\<lparr>sys_tracker := t, sys_clock := sys_clock s + d, sys_log := sys_log s @ evs\<rparr>)"

inductive probe_reachable :: "probe_sys \<Rightarrow> bool" where
  start: "probe_reachable sys_init"
| step: "probe_reachable s \<Longrightarrow> probe_step s s' \<Longrightarrow> probe_reachable s'"

inductive_cases probe_stepE: "probe_step s s'"

section \<open>Pruning\<close>

lemma prune_loop_eq:
  "fold (\<lambda>(h, _). hm_remove h) xs m = fold hm_remove (map fst xs) m"
  by (induction xs arbitrary: m) auto

lemma prune_map_wf [simp]: "hm_wf m \<Longrightarrow> hm_wf (prune_map now m)"
  by (simp add: prune_map_def Let_def prune_loop_eq hm.wf_fold_remove)

lemma prune_map_get:
  "hm_wf m \<Longrightarrow> hm_get (prune_map now m) h = Some i \<Longrightarrow>
    hm_get m h = Some i \<and> now - i \<le> TIMED_OUT_PROBE_TTL"
  by (auto simp: prune_map_def Let_def prune_loop_eq hm.get_fold_remove hm_get_retain
      split: if_splits option.splits)

lemma prune_map_None: "hm_wf m \<Longrightarrow> hm_get m h = None \<Longrightarrow> hm_get (prune_map now m) h = None"
  using prune_map_get by (metis not_None_eq)

lemma take_sorted_keys:
  "hm_wf m \<Longrightarrow> distinct (map fst (take n (sort_key f m))) \<and>
    set (map fst (take n (sort_key f m))) \<subseteq> dom (hm_get m)"
proof
  assume "hm_wf m"
  then have "distinct (map fst (sort_key f m))"
    by (simp add: hm_wf_def) (metis distinct_map mset_eq_setD mset_sort distinct_sort set_sort)
  then show "distinct (map fst (take n (sort_key f m)))"
    by (metis distinct_take take_map)
  show "set (map fst (take n (sort_key f m))) \<subseteq> dom (hm_get m)"
    using set_take_subset [of n "sort_key f m"] by (auto simp: hm_dom)
qed

lemma prune_map_cases:
  fixes now :: instant
  assumes wf: "hm_wf m"
  defines "f \<equiv> hm_retain (\<lambda>_ i. now - i \<le> TIMED_OUT_PROBE_TTL) m"
  defines "n \<equiv> length f - MAX_TIMED_OUT_PROBES"
  shows "prune_map now m = fold hm_remove (map fst (take n (sort_key snd f))) f"
  by (simp add: prune_map_def Let_def prune_loop_eq n_def flip: f_def)

lemma length_evicted:
  "hm_wf m \<Longrightarrow> length (fold hm_remove (map fst (take n (sort_key f m))) m) = length m - min n (length m)"
  using hm.size_fold_remove [of m "map fst (take n (sort_key f m))"] take_sorted_keys [of m n f]
  by (simp add: min.commute)

lemma prune_map_length: "hm_wf m \<Longrightarrow> length (prune_map now m) \<le> MAX_TIMED_OUT_PROBES"
  by (simp add: prune_map_cases length_evicted)

lemma sorted_take_drop:
  assumes "x \<in> set (take n (sort_key f xs))" "y \<in> set (drop n (sort_key f xs))"
  shows "f x \<le> f y"
proof -
  have "sorted (map f (take n (sort_key f xs) @ drop n (sort_key f xs)))"
    by (simp only: append_take_drop_id sorted_sort_key)
  with assms show ?thesis by (auto simp: sorted_append simp del: append_take_drop_id)
qed

lemma evicted_oldest:
  assumes wf: "hm_wf m"
    and old: "hm_get m h = Some i" "hm_get (fold hm_remove (map fst (take n (sort_key snd m))) m) h = None"
    and kept: "hm_get (fold hm_remove (map fst (take n (sort_key snd m))) m) h' = Some i'"
  shows "i \<le> i'"
proof -
  let ?s = "sort_key snd m"
  from old have "h \<in> fst ` set (take n ?s)" by (auto simp: hm.get_fold_remove split: if_splits)
  then obtain j where j: "(h, j) \<in> set (take n ?s)" by auto
  then have "(h, j) \<in> set m" by (metis in_set_takeD set_sort)
  with wf old(1) have "j = i" by (metis hm_get_Some_in option.inject)
  from kept have k: "h' \<notin> fst ` set (take n ?s)" "(h', i') \<in> set m"
    using wf by (auto simp: hm.get_fold_remove hm_get_Some_in split: if_splits)
  then have "(h', i') \<in> set (take n ?s @ drop n ?s)" by (simp only: append_take_drop_id set_sort)
  with k(1) have "(h', i') \<in> set (drop n ?s)" by (force simp del: append_take_drop_id)
  with j \<open>j = i\<close> show ?thesis using sorted_take_drop [of "(h, i)" n snd m "(h', i')"] by simp
qed

lemma prune_map_evicts:
  assumes wf: "hm_wf m" and fresh: "hm_get m h = Some i" "now - i \<le> TIMED_OUT_PROBE_TTL"
    and gone: "hm_get (prune_map now m) h = None"
  shows "length (prune_map now m) = MAX_TIMED_OUT_PROBES"
    and "hm_get (prune_map now m) h' = Some i' \<Longrightarrow> i \<le> i'"
proof -
  let ?f = "hm_retain (\<lambda>_ i. now - i \<le> TIMED_OUT_PROBE_TTL) m"
  let ?n = "length ?f - MAX_TIMED_OUT_PROBES"
  have wff: "hm_wf ?f" and get: "hm_get ?f h = Some i"
    using wf fresh by (simp_all add: hm_get_retain)
  note p = prune_map_cases [OF wf, of now]
  have "?n \<noteq> 0" using gone get unfolding p by (auto simp: hm.get_fold_remove)
  then show "length (prune_map now m) = MAX_TIMED_OUT_PROBES"
    using wff unfolding p by (simp add: length_evicted)
  show "hm_get (prune_map now m) h' = Some i' \<Longrightarrow> i \<le> i'"
    using evicted_oldest [OF wff get] gone unfolding p by blast
qed

section \<open>Refinement of the slot specification\<close>

lemmas tracker_defs =
  prune_timed_out_probes_def register_probe_def complete_probe_def mark_timed_out_def Let_def

lemma tracker_wf_new [simp]: "tracker_wf tracker_new"
  by (simp add: tracker_wf_def tracker_new_def dom_def)

lemma slot_of_new [simp]: "slot_of tracker_new h = Idle"
  by (simp add: slot_of_def tracker_new_def)

lemma prune_map_dom: "hm_wf m \<Longrightarrow> dom (hm_get (prune_map now m)) \<subseteq> dom (hm_get m)"
  using prune_map_get by blast

lemma tracker_wf_prune [simp]: "tracker_wf t \<Longrightarrow> tracker_wf (prune_timed_out_probes now t)"
  using prune_map_dom [of "timed_out_probes t" now]
  unfolding tracker_wf_def prune_timed_out_probes_def by simp blast

lemma tracker_wf_get:
  assumes "tracker_wf t"
  shows "hm_get (pending_probes t) h = Some c \<Longrightarrow>
      hm_get (completed_probes t) h = None \<and> hm_get (timed_out_probes t) h = None"
    and "hm_get (completed_probes t) h = Some r \<Longrightarrow>
      hm_get (pending_probes t) h = None \<and> hm_get (timed_out_probes t) h = None"
    and "hm_get (timed_out_probes t) h = Some i \<Longrightarrow>
      hm_get (pending_probes t) h = None \<and> hm_get (completed_probes t) h = None"
  using assms by (auto simp: tracker_wf_def)

lemma tracker_wf_register: "tracker_wf t \<Longrightarrow> tracker_wf (fst (register_probe now ch h t))"
  using tracker_wf_prune [of t now]
  by (auto simp: tracker_wf_def register_probe_def Let_def hm.dom_insert hm.dom_remove
      split: option.splits)

lemma tracker_wf_complete: "tracker_wf t \<Longrightarrow> tracker_wf (fst (complete_probe now h r t))"
  using tracker_wf_prune [of t now]
  by (auto simp: tracker_wf_def complete_probe_def Let_def hm.dom_insert hm.dom_remove
      split: option.splits)

lemma tracker_wf_timed_out: "tracker_wf t \<Longrightarrow> tracker_wf (fst (mark_timed_out now now' h t))"
  using tracker_wf_prune [of t now]
  by (auto simp: tracker_wf_def mark_timed_out_def Let_def hm.dom_insert hm.dom_remove
      split: option.splits)

lemma slot_of_prune:
  "tracker_wf t \<Longrightarrow> slot_of (prune_timed_out_probes now t) h =
    (case slot_of t h of
       Expired i \<Rightarrow> if hm_get (prune_map now (timed_out_probes t)) h = None then Idle else Expired i
     | s \<Rightarrow> s)"
  by (auto simp: slot_of_def prune_timed_out_probes_def tracker_wf_def
      dest: prune_map_get prune_map_None split: option.splits)

lemma slot_of_cases:
  assumes "tracker_wf t"
  obtains (idle) "slot_of t h = Idle" "hm_get (pending_probes t) h = None"
      "hm_get (completed_probes t) h = None" "hm_get (timed_out_probes t) h = None"
  | (waiting) c where "slot_of t h = Waiting c" "hm_get (pending_probes t) h = Some c"
      "hm_get (completed_probes t) h = None" "hm_get (timed_out_probes t) h = None"
  | (buffered) r where "slot_of t h = Buffered r" "hm_get (pending_probes t) h = None"
      "hm_get (completed_probes t) h = Some r" "hm_get (timed_out_probes t) h = None"
  | (expired) i where "slot_of t h = Expired i" "hm_get (pending_probes t) h = None"
      "hm_get (completed_probes t) h = None" "hm_get (timed_out_probes t) h = Some i"
  using tracker_wf_get [OF assms, where h = h]
  by (cases "hm_get (pending_probes t) h"; cases "hm_get (completed_probes t) h";
      cases "hm_get (timed_out_probes t) h") (auto simp: slot_of_def)

lemma slot_register_refines:
  fixes now :: instant
  assumes "tracker_wf t"
  defines "u \<equiv> prune_timed_out_probes now t"
  shows "snd (register_probe now ch h t) = snd (slot_register ch (slot_of u h))"
    and "slot_of (fst (register_probe now ch h t)) = (slot_of u)(h := fst (slot_register ch (slot_of u h)))"
proof -
  have wf: "tracker_wf u" by (simp add: u_def assms)
  show "snd (register_probe now ch h t) = snd (slot_register ch (slot_of u h))"
    unfolding register_probe_def Let_def u_def [symmetric]
    by (cases rule: slot_of_cases [OF wf, of h]) simp_all
  show "slot_of (fst (register_probe now ch h t)) = (slot_of u)(h := fst (slot_register ch (slot_of u h)))"
    unfolding register_probe_def Let_def u_def [symmetric]
    by (cases rule: slot_of_cases [OF wf, of h]) (simp_all add: fun_eq_iff slot_of_def cong: option.case_cong)
qed

lemma slot_complete_refines:
  fixes now :: instant
  assumes "tracker_wf t"
  defines "u \<equiv> prune_timed_out_probes now t"
  shows "snd (complete_probe now h r t) = snd (slot_complete r (slot_of u h))"
    and "slot_of (fst (complete_probe now h r t)) = (slot_of u)(h := fst (slot_complete r (slot_of u h)))"
proof -
  have wf: "tracker_wf u" by (simp add: u_def assms)
  show "snd (complete_probe now h r t) = snd (slot_complete r (slot_of u h))"
    unfolding complete_probe_def Let_def u_def [symmetric]
    by (cases rule: slot_of_cases [OF wf, of h]) simp_all
  show "slot_of (fst (complete_probe now h r t)) = (slot_of u)(h := fst (slot_complete r (slot_of u h)))"
    unfolding complete_probe_def Let_def u_def [symmetric]
    by (cases rule: slot_of_cases [OF wf, of h]) (simp_all add: fun_eq_iff slot_of_def cong: option.case_cong)
qed

lemma slot_timeout_refines:
  fixes now :: instant
  assumes "tracker_wf t"
  defines "u \<equiv> prune_timed_out_probes now t"
  shows "snd (mark_timed_out now now' h t) = snd (slot_timeout now' (slot_of u h))"
    and "slot_of (fst (mark_timed_out now now' h t)) = (slot_of u)(h := fst (slot_timeout now' (slot_of u h)))"
proof -
  have wf: "tracker_wf u" by (simp add: u_def assms)
  show "snd (mark_timed_out now now' h t) = snd (slot_timeout now' (slot_of u h))"
    unfolding mark_timed_out_def Let_def u_def [symmetric]
    by (cases rule: slot_of_cases [OF wf, of h]) simp_all
  show "slot_of (fst (mark_timed_out now now' h t)) = (slot_of u)(h := fst (slot_timeout now' (slot_of u h)))"
    unfolding mark_timed_out_def Let_def u_def [symmetric]
    by (cases rule: slot_of_cases [OF wf, of h]) (simp_all add: fun_eq_iff slot_of_def cong: option.case_cong)
qed

section \<open>The rendezvous contract\<close>

text \<open>
  What the probing task and the event handler rely on, for any tracker with the slot behaviour:
  the order of registration and completion does not matter, and a completion after a surviving
  tombstone is dropped.
\<close>

locale rendezvous =
  fixes prune :: "instant \<Rightarrow> 't \<Rightarrow> 't"
    and register :: "instant \<Rightarrow> chan \<Rightarrow> 'h \<Rightarrow> 't \<Rightarrow> 't \<times> chan_event list"
    and complete :: "instant \<Rightarrow> 'h \<Rightarrow> probe_outcome \<Rightarrow> 't \<Rightarrow> 't \<times> chan_event list"
    and time_out :: "instant \<Rightarrow> instant \<Rightarrow> 'h \<Rightarrow> 't \<Rightarrow> 't \<times> chan_event list"
    and slot_at :: "'t \<Rightarrow> 'h \<Rightarrow> slot"
    and wf :: "'t \<Rightarrow> bool"
  assumes wf_register: "wf t \<Longrightarrow> wf (fst (register now ch h t))"
    and wf_complete: "wf t \<Longrightarrow> wf (fst (complete now h r t))"
    and wf_time_out: "wf t \<Longrightarrow> wf (fst (time_out now now' h t))"
    and prune_slot: "wf t \<Longrightarrow> slot_at (prune now t) h = slot_at t h \<or>
          (\<exists>i. slot_at t h = Expired i \<and> slot_at (prune now t) h = Idle)"
    and register_slot: "wf t \<Longrightarrow> slot_at (fst (register now ch h t)) =
          (slot_at (prune now t))(h := fst (slot_register ch (slot_at (prune now t) h)))"
    and register_events: "wf t \<Longrightarrow>
          snd (register now ch h t) = snd (slot_register ch (slot_at (prune now t) h))"
    and complete_slot: "wf t \<Longrightarrow> slot_at (fst (complete now h r t)) =
          (slot_at (prune now t))(h := fst (slot_complete r (slot_at (prune now t) h)))"
    and complete_events: "wf t \<Longrightarrow>
          snd (complete now h r t) = snd (slot_complete r (slot_at (prune now t) h))"
    and time_out_slot: "wf t \<Longrightarrow> slot_at (fst (time_out now now' h t)) =
          (slot_at (prune now t))(h := fst (slot_timeout now' (slot_at (prune now t) h)))"
    and time_out_events: "wf t \<Longrightarrow>
          snd (time_out now now' h t) = snd (slot_timeout now' (slot_at (prune now t) h))"
begin

lemma prune_keeps:
  assumes "wf t"
  shows "slot_at t h = Idle \<Longrightarrow> slot_at (prune now t) h = Idle"
    and "slot_at t h = Waiting c \<Longrightarrow> slot_at (prune now t) h = Waiting c"
    and "slot_at t h = Buffered r \<Longrightarrow> slot_at (prune now t) h = Buffered r"
  using prune_slot [OF assms, of now h] by auto

lemma complete_then_register:
  fixes n1 :: instant and r :: probe_outcome
  assumes "wf t" "slot_at t h = Idle"
  defines "t1 \<equiv> fst (complete n1 h r t)"
  shows "snd (register n2 ch h t1) = [Sent ch r]" "slot_at (fst (register n2 ch h t1)) h = Idle"
proof -
  have "wf t1" "slot_at t1 h = Buffered r"
    using assms by (simp_all add: wf_complete complete_slot prune_keeps)
  then show "snd (register n2 ch h t1) = [Sent ch r]" "slot_at (fst (register n2 ch h t1)) h = Idle"
    by (simp_all add: register_events register_slot prune_keeps)
qed

lemma register_then_complete:
  fixes n1 :: instant and ch :: chan
  assumes "wf t" "slot_at t h = Idle"
  defines "t1 \<equiv> fst (register n1 ch h t)"
  shows "snd (complete n2 h r t1) = [Sent ch r]" "slot_at (fst (complete n2 h r t1)) h = Idle"
proof -
  have "wf t1" "slot_at t1 h = Waiting ch"
    using assms by (simp_all add: wf_register register_slot prune_keeps)
  then show "snd (complete n2 h r t1) = [Sent ch r]" "slot_at (fst (complete n2 h r t1)) h = Idle"
    by (simp_all add: complete_events complete_slot prune_keeps)
qed

lemma complete_expired:
  assumes "wf t" "slot_at (prune now t) h = Expired i"
  shows "snd (complete now h r t) = []" "slot_at (fst (complete now h r t)) h = Idle"
  using assms by (simp_all add: complete_events complete_slot)

lemma complete_idle:
  assumes "wf t" "slot_at (prune now t) h = Idle"
  shows "snd (complete now h r t) = []" "slot_at (fst (complete now h r t)) h = Buffered r"
  using assms by (simp_all add: complete_events complete_slot)

lemma waiting_prune_iff: "wf t \<Longrightarrow> slot_at (prune now t) h = Waiting c \<longleftrightarrow> slot_at t h = Waiting c"
  using prune_slot [of t now h] by auto

end

interpretation tr: rendezvous prune_timed_out_probes register_probe complete_probe mark_timed_out
  slot_of tracker_wf
proof
  fix t :: probe_tracker and now now' :: instant and h :: payment_hash and ch r
  assume wf: "tracker_wf t"
  show "slot_of (prune_timed_out_probes now t) h = slot_of t h \<or>
      (\<exists>i. slot_of t h = Expired i \<and> slot_of (prune_timed_out_probes now t) h = Idle)"
    by (cases rule: slot_of_cases [OF wf, of h]) (simp_all add: slot_of_prune [OF wf])
qed (rule tracker_wf_register tracker_wf_complete tracker_wf_timed_out slot_register_refines
      slot_complete_refines slot_timeout_refines, assumption)+

section \<open>Channels are resolved exactly once\<close>

definition chans_ok :: "('h \<Rightarrow> slot) \<Rightarrow> chan \<Rightarrow> chan_event list \<Rightarrow> bool" where
  "chans_ok slots n evs \<longleftrightarrow>
     (\<forall>h1 h2 c. slots h1 = Waiting c \<longrightarrow> slots h2 = Waiting c \<longrightarrow> h1 = h2) \<and>
     (\<forall>h c. slots h = Waiting c \<longrightarrow> c < n \<and> c \<notin> chan_of ` set evs) \<and>
     (\<forall>c<n. c \<in> chan_of ` set evs \<or> (\<exists>h. slots h = Waiting c)) \<and>
     distinct (map chan_of evs) \<and> (\<forall>c\<in>chan_of ` set evs. c < n)"

lemma chans_ok_cong:
  "(\<And>h c. slots h = Waiting c \<longleftrightarrow> slots' h = Waiting c) \<Longrightarrow> chans_ok slots n evs = chans_ok slots' n evs"
  unfolding chans_ok_def by simp

lemma chans_ok_register:
  assumes "chans_ok slots n evs"
  shows "chans_ok (slots(h := fst (slot_register n (slots h)))) (Suc n) (evs @ snd (slot_register n (slots h)))"
  using assms unfolding chans_ok_def
  by (cases "slots h") (auto simp: less_Suc_eq, (metis slot.distinct slot.inject less_irrefl)+)

lemma chans_ok_complete:
  assumes "chans_ok slots n evs"
  shows "chans_ok (slots(h := fst (slot_complete r (slots h)))) n (evs @ snd (slot_complete r (slots h)))"
  using assms unfolding chans_ok_def
  by (cases "slots h") (auto, (metis slot.distinct slot.inject)+)

lemma chans_ok_timeout:
  assumes "chans_ok slots n evs"
  shows "chans_ok (slots(h := fst (slot_timeout i (slots h)))) n (evs @ snd (slot_timeout i (slots h)))"
  using assms unfolding chans_ok_def
  by (cases "slots h") (auto, (metis slot.distinct slot.inject)+)

lemma chans_ok_prune:
  "tracker_wf t \<Longrightarrow> chans_ok (slot_of (prune_timed_out_probes now t)) n evs = chans_ok (slot_of t) n evs"
  by (rule chans_ok_cong) (rule tr.waiting_prune_iff)

lemma chans_ok_count:
  assumes "chans_ok slots n evs" "c < n"
  shows "length (filter (\<lambda>e. chan_of e = c) evs) + card {h. slots h = Waiting c} = 1"
proof (cases "c \<in> chan_of ` set evs")
  case True
  then have "{h. slots h = Waiting c} = {}" using assms unfolding chans_ok_def by blast
  moreover have "length (filter (\<lambda>e. chan_of e = c) evs) = count (mset (map chan_of evs)) c"
    by (induction evs) auto
  moreover have "\<dots> = 1"
    using True assms by (auto simp: chans_ok_def distinct_count_atmost_1)
  ultimately show ?thesis by simp
next
  case False
  then obtain h where "slots h = Waiting c" using assms by (auto simp: chans_ok_def)
  then have "{h. slots h = Waiting c} = {h}" using assms by (auto simp: chans_ok_def)
  moreover have "filter (\<lambda>e. chan_of e = c) evs = []" using False by (auto simp: filter_empty_conv)
  ultimately show ?thesis by simp
qed

section \<open>The invariant of every interleaving\<close>

definition probe_inv :: "probe_sys \<Rightarrow> bool" where
  "probe_inv s \<longleftrightarrow>
     tracker_wf (sys_tracker s) \<and>
     chans_ok (slot_of (sys_tracker s)) (sys_next s) (sys_log s) \<and>
     length (timed_out_probes (sys_tracker s)) \<le> Suc MAX_TIMED_OUT_PROBES \<and>
     (\<forall>h i. hm_get (timed_out_probes (sys_tracker s)) h = Some i \<longrightarrow> i \<le> sys_clock s)"

lemma timed_out_register:
  assumes "tracker_wf t"
  shows "length (timed_out_probes (fst (register_probe now ch h t))) \<le> MAX_TIMED_OUT_PROBES"
    and "hm_get (timed_out_probes (fst (register_probe now ch h t))) h' = Some i \<Longrightarrow>
      hm_get (timed_out_probes t) h' = Some i"
proof -
  have wf: "hm_wf (timed_out_probes t)" using assms by (simp add: tracker_wf_def)
  have eq: "timed_out_probes (fst (register_probe now ch h t)) =
      hm_remove h (prune_map now (timed_out_probes t))"
    by (simp add: tracker_defs split: option.splits)
  have "length (hm_remove h (prune_map now (timed_out_probes t))) \<le> length (prune_map now (timed_out_probes t))"
    using wf by (simp add: hm.size_remove_le)
  also have "\<dots> \<le> MAX_TIMED_OUT_PROBES" using wf by (rule prune_map_length)
  finally show "length (timed_out_probes (fst (register_probe now ch h t))) \<le> MAX_TIMED_OUT_PROBES"
    by (simp only: eq)
  show "hm_get (timed_out_probes (fst (register_probe now ch h t))) h' = Some i \<Longrightarrow>
      hm_get (timed_out_probes t) h' = Some i"
    using prune_map_get [OF wf] by (auto simp: eq split: if_splits)
qed

lemma timed_out_complete:
  assumes "tracker_wf t"
  shows "length (timed_out_probes (fst (complete_probe now h r t))) \<le> MAX_TIMED_OUT_PROBES"
    and "hm_get (timed_out_probes (fst (complete_probe now h r t))) h' = Some i \<Longrightarrow>
      hm_get (timed_out_probes t) h' = Some i"
proof -
  have wf: "hm_wf (timed_out_probes t)" using assms by (simp add: tracker_wf_def)
  let ?p = "prune_map now (timed_out_probes t)"
  have eq: "timed_out_probes (fst (complete_probe now h r t)) = ?p \<or>
      timed_out_probes (fst (complete_probe now h r t)) = hm_remove h ?p"
    by (simp add: tracker_defs split: option.splits)
  have "length (hm_remove h ?p) \<le> length ?p" using wf by (simp add: hm.size_remove_le)
  moreover have "length ?p \<le> MAX_TIMED_OUT_PROBES" using wf by (rule prune_map_length)
  ultimately show "length (timed_out_probes (fst (complete_probe now h r t))) \<le> MAX_TIMED_OUT_PROBES"
    using eq by auto
  show "hm_get (timed_out_probes (fst (complete_probe now h r t))) h' = Some i \<Longrightarrow>
      hm_get (timed_out_probes t) h' = Some i"
    using prune_map_get [OF wf] eq by (auto split: if_splits)
qed

lemma timed_out_mark:
  assumes "tracker_wf t"
  shows "length (timed_out_probes (fst (mark_timed_out now now' h t))) \<le> Suc MAX_TIMED_OUT_PROBES"
    and "hm_get (timed_out_probes (fst (mark_timed_out now now' h t))) h' = Some i \<Longrightarrow>
      i = now' \<or> hm_get (timed_out_probes t) h' = Some i"
proof -
  have wf: "hm_wf (timed_out_probes t)" using assms by (simp add: tracker_wf_def)
  let ?p = "prune_map now (timed_out_probes t)"
  have eq: "timed_out_probes (fst (mark_timed_out now now' h t)) = hm_insert h now' ?p"
    by (simp add: tracker_defs)
  have "length (hm_insert h now' ?p) \<le> Suc (length ?p)" using wf by (simp add: hm.size_insert_le)
  moreover have "length ?p \<le> MAX_TIMED_OUT_PROBES" using wf by (rule prune_map_length)
  ultimately show "length (timed_out_probes (fst (mark_timed_out now now' h t))) \<le> Suc MAX_TIMED_OUT_PROBES"
    by (simp add: eq)
  show "hm_get (timed_out_probes (fst (mark_timed_out now now' h t))) h' = Some i \<Longrightarrow>
      i = now' \<or> hm_get (timed_out_probes t) h' = Some i"
    using prune_map_get [OF wf] by (auto simp: eq split: if_splits)
qed

lemma probe_inv_init: "probe_inv sys_init"
  by (simp add: probe_inv_def sys_init_def chans_ok_def) (simp add: tracker_new_def hm_new_def hm_get_def)

lemma probe_inv_step:
  assumes "probe_step s s'" "probe_inv s"
  shows "probe_inv s'"
  using assms
proof (induction rule: probe_step.induct)
  case (tick s d)
  then show ?case by (fastforce simp: probe_inv_def)
next
  case (register s h t evs)
  then have wf: "tracker_wf (sys_tracker s)" by (simp add: probe_inv_def)
  have t: "t = fst (register_probe (sys_clock s) (sys_next s) h (sys_tracker s))"
    and evs: "evs = snd (register_probe (sys_clock s) (sys_next s) h (sys_tracker s))"
    using register.hyps by simp_all
  have "chans_ok (slot_of t) (Suc (sys_next s)) (sys_log s @ evs)"
    using register.prems unfolding t evs slot_register_refines [OF wf] probe_inv_def
    by (intro chans_ok_register) (simp add: chans_ok_prune)
  with register.prems wf show ?case
    using timed_out_register [OF wf] unfolding t
    by (fastforce simp: probe_inv_def tracker_wf_register intro: le_SucI)
next
  case (complete s h r t evs)
  then have wf: "tracker_wf (sys_tracker s)" by (simp add: probe_inv_def)
  have t: "t = fst (complete_probe (sys_clock s) h r (sys_tracker s))"
    and evs: "evs = snd (complete_probe (sys_clock s) h r (sys_tracker s))"
    using complete.hyps by simp_all
  have "chans_ok (slot_of t) (sys_next s) (sys_log s @ evs)"
    using complete.prems unfolding t evs slot_complete_refines [OF wf] probe_inv_def
    by (intro chans_ok_complete) (simp add: chans_ok_prune)
  with complete.prems wf show ?case
    using timed_out_complete [OF wf] unfolding t
    by (fastforce simp: probe_inv_def tracker_wf_complete intro: le_SucI)
next
  case (timeout s d h t evs)
  then have wf: "tracker_wf (sys_tracker s)" by (simp add: probe_inv_def)
  have t: "t = fst (mark_timed_out (sys_clock s) (sys_clock s + d) h (sys_tracker s))"
    and evs: "evs = snd (mark_timed_out (sys_clock s) (sys_clock s + d) h (sys_tracker s))"
    using timeout.hyps by simp_all
  have "chans_ok (slot_of t) (sys_next s) (sys_log s @ evs)"
    using timeout.prems unfolding t evs slot_timeout_refines [OF wf] probe_inv_def
    by (intro chans_ok_timeout) (simp add: chans_ok_prune)
  with timeout.prems wf show ?case
    using timed_out_mark [OF wf] unfolding t
    by (fastforce simp: probe_inv_def tracker_wf_timed_out)
qed

lemma probe_reachable_inv: "probe_reachable s \<Longrightarrow> probe_inv s"
  by (induction rule: probe_reachable.induct) (auto intro: probe_inv_init probe_inv_step)

lemma prune_map_keep:
  "hm_wf m \<Longrightarrow> length m \<le> MAX_TIMED_OUT_PROBES \<Longrightarrow>
    hm_get (prune_map now m) h =
      (case hm_get m h of None \<Rightarrow> None | Some i \<Rightarrow> if now - i \<le> TIMED_OUT_PROBE_TTL then Some i else None)"
proof -
  assume wf: "hm_wf m" and le: "length m \<le> MAX_TIMED_OUT_PROBES"
  have "length (hm_retain (\<lambda>_ i. now - i \<le> TIMED_OUT_PROBE_TTL) m) \<le> MAX_TIMED_OUT_PROBES"
    using le length_filter_le by (metis (no_types, lifting) hm_retain_def le_trans)
  then show ?thesis using wf by (simp add: prune_map_def Let_def hm_get_retain split: option.split)
qed

lemma marked_slot:
  assumes "tracker_wf t" "length (timed_out_probes t) < MAX_TIMED_OUT_PROBES"
  shows "slot_of (prune_timed_out_probes now3 (fst (mark_timed_out now1 now2 h t))) h =
    (if now3 - now2 \<le> TIMED_OUT_PROBE_TTL then Expired now2 else Idle)"
proof -
  let ?t = "fst (mark_timed_out now1 now2 h t)"
  have wf: "tracker_wf ?t" using assms(1) by (rule tracker_wf_timed_out)
  have m: "timed_out_probes ?t = hm_insert h now2 (prune_map now1 (timed_out_probes t))"
    by (simp add: tracker_defs)
  have wft: "hm_wf (timed_out_probes t)" using assms(1) by (simp add: tracker_wf_def)
  have "length (prune_map now1 (timed_out_probes t)) \<le> length (timed_out_probes t)"
    using prune_map_dom [OF wft, of now1] wft
    by (metis card_mono hm.dom_finite hm.size_dom prune_map_wf)
  then have "length (timed_out_probes ?t) \<le> MAX_TIMED_OUT_PROBES"
    using hm.size_insert_le [of "prune_map now1 (timed_out_probes t)" h now2] wft assms(2)
    by (simp add: m)
  moreover have "hm_get (timed_out_probes ?t) h = Some now2" using wft by (simp add: m)
  moreover have "hm_get (pending_probes ?t) h = None" "hm_get (completed_probes ?t) h = None"
    using tracker_wf_get(3) [OF wf] calculation(2) by blast+
  ultimately show ?thesis
    using wf by (simp add: slot_of_def prune_timed_out_probes_def prune_map_keep tracker_wf_def)
qed

section \<open>Properties\<close>

text \<open>C1: exactly-once resolution. In every interleaving of registrations, completions, timeouts
  and the passing of time, the three maps are disjoint and every channel whose receiver was handed
  out is either waiting under exactly one payment hash and not resolved, or resolved by exactly one
  event (one value sent or one sender dropped) and no longer waiting.\<close>

theorem probe_channels_resolved_once:
  assumes "probe_reachable s"
  shows "tracker_wf (sys_tracker s) \<and>
    list_all (\<lambda>c. length (filter (\<lambda>e. chan_of e = c) (sys_log s)) +
        card {h. slot_of (sys_tracker s) h = Waiting c} = 1) [0..<sys_next s]"
  using probe_reachable_inv [OF assms] by (auto simp: probe_inv_def list_all_iff dest: chans_ok_count)

definition demo_sys :: probe_sys where
  "demo_sys = sys_init\<lparr>sys_tracker := fst (register_probe 0 0 [1] tracker_new), sys_next := 1\<rparr>"

theorem probe_channels_resolved_once_witness:
  "probe_reachable demo_sys \<and> sys_next demo_sys = 1 \<and>
    card {h. slot_of (sys_tracker demo_sys) h = Waiting 0} = 1"
proof -
  have 1: "demo_sys = sys_init\<lparr>sys_tracker := fst (register_probe 0 0 [1] tracker_new),
      sys_next := Suc (sys_next sys_init), sys_log := sys_log sys_init @ []\<rparr>"
    by (simp add: demo_sys_def sys_init_def)
  have "register_probe (sys_clock sys_init) (sys_next sys_init) [1] (sys_tracker sys_init) =
      (fst (register_probe 0 0 [1] tracker_new), [])"
    by (simp add: sys_init_def prod_eq_iff)
      (simp add: register_probe_def tracker_new_def Let_def prune_timed_out_probes_def)
  then have "probe_step sys_init demo_sys" unfolding 1 by (rule probe_step.register)
  then have "probe_reachable demo_sys" using probe_reachable.intros by blast
  moreover from probe_channels_resolved_once [OF this]
  have "card {h. slot_of (sys_tracker demo_sys) h = Waiting 0} = 1"
    by (simp add: demo_sys_def sys_init_def)
  ultimately show ?thesis by (simp add: demo_sys_def)
qed

text \<open>C3: the tracker implements the slot specification. Seen through the slot of each payment
  hash, every operation first prunes and then changes only the slot of its own hash, to the state
  and with the channel events that the specification gives; the disjointness of the maps is
  preserved.\<close>

theorem tracker_refines_slots:
  assumes "tracker_wf t"
  shows "(let u = prune_timed_out_probes now t;
              reg = register_probe now ch h t;
              com = complete_probe now h r t;
              out = mark_timed_out now now' h t
          in (slot_of (fst reg) h, snd reg) = slot_register ch (slot_of u h) \<and>
             (slot_of (fst com) h, snd com) = slot_complete r (slot_of u h) \<and>
             (slot_of (fst out) h, snd out) = slot_timeout now' (slot_of u h) \<and>
             list_all (\<lambda>v. tracker_wf v \<and> slot_of v = (slot_of u)(h := slot_of v h)) [fst reg, fst com, fst out])"
  using assms
  by (simp add: Let_def prod_eq_iff slot_register_refines slot_complete_refines slot_timeout_refines
      tracker_wf_register tracker_wf_complete tracker_wf_timed_out)

theorem tracker_refines_slots_witness:
  "tracker_wf tracker_new \<and>
    slot_of (fst (complete_probe 7 [1] OutcomeFailed tracker_new)) [1] = Buffered OutcomeFailed"
  using tracker_refines_slots [of tracker_new 7 0 "[1]" OutcomeFailed 7] tr.prune_keeps(1) [of tracker_new "[1]" 7]
  by (simp add: Let_def)

text \<open>The probing task and the event handler may arrive in either order. From an idle hash,
  registering and then completing delivers the same outcome to the same channel as completing and
  then registering, and both leave the hash idle, whatever the clock reads.\<close>

theorem register_complete_commute:
  assumes "tracker_wf t" "slot_of t h = Idle"
  shows "(let rc = complete_probe n2 h r (fst (register_probe n1 ch h t));
              cr = register_probe n2 ch h (fst (complete_probe n1 h r t))
          in snd (register_probe n1 ch h t) = [] \<and> snd rc = [Sent ch r] \<and>
             snd (complete_probe n1 h r t) = [] \<and> snd cr = [Sent ch r] \<and>
             slot_of (fst rc) h = Idle \<and> slot_of (fst cr) h = Idle)"
  using assms by (simp add: Let_def tr.complete_then_register tr.register_then_complete
      tr.register_events tr.complete_events tr.prune_keeps)

theorem register_complete_commute_witness:
  "tracker_wf tracker_new \<and> slot_of tracker_new [1] = Idle \<and>
    snd (register_probe 5 0 [1] (fst (complete_probe 3 [1] OutcomeSuccess tracker_new))) =
      [Sent 0 OutcomeSuccess]"
  using register_complete_commute [of tracker_new "[1]" 5 OutcomeSuccess 3 0] by (simp add: Let_def)

text \<open>C7: pruning keeps at most \<open>MAX_TIMED_OUT_PROBES\<close> tombstones, keeps only tombstones that were
  there and are no older than \<open>TIMED_OUT_PROBE_TTL\<close>, drops a fresh one only when the table is full
  of tombstones that are at least as recent, and touches nothing else of the tracker.\<close>

theorem prune_keeps_newest:
  assumes "hm_wf (timed_out_probes t)" "u = prune_timed_out_probes now t"
  shows "length (timed_out_probes u) \<le> MAX_TIMED_OUT_PROBES \<and>
    (hm_get (timed_out_probes u) h = Some i \<longrightarrow>
      hm_get (timed_out_probes t) h = Some i \<and> now - i \<le> TIMED_OUT_PROBE_TTL) \<and>
    (hm_get (timed_out_probes t) h = Some i \<and> now - i \<le> TIMED_OUT_PROBE_TTL \<and>
      hm_get (timed_out_probes u) h = None \<longrightarrow>
      length (timed_out_probes u) = MAX_TIMED_OUT_PROBES \<and>
      (hm_get (timed_out_probes u) h' = Some i' \<longrightarrow> i \<le> i')) \<and>
    pending_probes u = pending_probes t \<and> completed_probes u = completed_probes t"
  using prune_map_length [OF assms(1), of now] prune_map_get [OF assms(1), of now h i]
    prune_map_evicts [OF assms(1), of h i now]
  by (simp add: assms(2) prune_timed_out_probes_def)

theorem prune_keeps_newest_witness:
  "hm_wf [([1 :: u8], 5 :: instant)] \<and>
    length (timed_out_probes (prune_timed_out_probes 9 (tracker_new\<lparr>timed_out_probes := [([1], 5)]\<rparr>))) \<le> 4096"
proof -
  have wf: "hm_wf (timed_out_probes (tracker_new\<lparr>timed_out_probes := [([1], 5)]\<rparr>))"
    by (simp add: hm_wf_def)
  from prune_keeps_newest [OF wf refl, of 9, THEN conjunct1] wf show ?thesis
    by (simp add: MAX_TIMED_OUT_PROBES_def del: One_nat_def)
qed

text \<open>C8: a result that arrives after its probe timed out. While the tombstone is no older than the
  time to live the result is discarded and the hash becomes idle; after that it is buffered as if
  the probe had never been given up, and no later pruning removes it.\<close>

theorem late_completion:
  assumes "tracker_wf t" "length (timed_out_probes t) < MAX_TIMED_OUT_PROBES"
  shows "(let t' = fst (complete_probe n3 h r (fst (mark_timed_out n1 n2 h t)))
          in snd (complete_probe n3 h r (fst (mark_timed_out n1 n2 h t))) = [] \<and>
             slot_of t' h = (if n3 - n2 \<le> TIMED_OUT_PROBE_TTL then Idle else Buffered r) \<and>
             slot_of (prune_timed_out_probes n4 t') h = slot_of t' h)"
proof -
  let ?m = "fst (mark_timed_out n1 n2 h t)"
  have wf: "tracker_wf ?m" using assms(1) by (rule tr.wf_time_out)
  note p = marked_slot [OF assms, of n3 n1 n2 h]
  have wf': "tracker_wf (fst (complete_probe n3 h r ?m))" using wf by (rule tr.wf_complete)
  show ?thesis
    using tr.complete_expired [OF wf, of n3 h n2 r] tr.complete_idle [OF wf, of n3 h r]
      tr.prune_keeps [OF wf', of h] p
    by (auto simp: Let_def split: if_splits)
qed

theorem late_completion_witness:
  "tracker_wf tracker_new \<and> length (timed_out_probes tracker_new) < MAX_TIMED_OUT_PROBES \<and>
    slot_of (fst (complete_probe (10 ^ 12) [1] OutcomeFailed (fst (mark_timed_out 0 0 [1] tracker_new)))) [1] =
      Buffered OutcomeFailed"
proof -
  have lt: "length (timed_out_probes tracker_new) < MAX_TIMED_OUT_PROBES"
    by (simp add: tracker_new_def hm_new_def MAX_TIMED_OUT_PROBES_def)
  from late_completion [OF tracker_wf_new lt, of "10 ^ 12" "[1]" OutcomeFailed 0 0 0] lt
  show ?thesis by (simp add: Let_def TIMED_OUT_PROBE_TTL_def)
qed

end
