(* ===== verification/Reservoir.thy ===== *)
theory Reservoir
  imports Rust_Prelude
begin

text \<open>
  \<^verbatim>\<open>reservoir_sample\<close> of \<^verbatim>\<open>src/probing/runner.rs\<close>: the choice of the random nodes to probe.
  The generator is a function from the bound of \<^verbatim>\<open>gen_range(0, seen)\<close> to the number drawn; every
  bound is used at most once in a call. Shown: size and origin of the sample, and that each
  candidate is chosen by the same number of draw sequences, \<open>k\<close> out of \<open>n\<close>.
\<close>

section \<open>The sampling loop\<close>

fun reservoir_loop :: "(nat \<Rightarrow> nat) \<Rightarrow> nat \<Rightarrow> nat \<Rightarrow> 'a list \<Rightarrow> 'a list \<Rightarrow> 'a list" where
  "reservoir_loop gen_range k seen res [] = res"
| "reservoir_loop gen_range k seen res (candidate # cs) =
     (let seen' = seen + 1
      in if length res < k then reservoir_loop gen_range k seen' (res @ [candidate]) cs
         else let replace_idx = gen_range seen'
              in if replace_idx < k
                 then reservoir_loop gen_range k seen' (res[replace_idx := candidate]) cs
                 else reservoir_loop gen_range k seen' res cs)"

text \<open>\<open>sz\<close> is the size of a candidate and the allocator; \<open>None\<close> is the end of the process in the allocation.\<close>

definition reservoir_sample :: "vec_alloc \<Rightarrow> 'a list \<Rightarrow> nat \<Rightarrow> (nat \<Rightarrow> nat) \<Rightarrow> 'a list option" where
  "reservoir_sample sz candidates sample_size gen_range =
     (if sample_size = 0 then Some []
      else if \<not> vec_capacity_ok sz sample_size then None
      else Some (reservoir_loop gen_range sample_size 0 [] candidates))"

text \<open>
  The draw sequences of a run over \<open>n\<close> candidates: one draw below \<open>s\<close> for each \<open>s\<close> from
  \<open>k + 1\<close> to \<open>n\<close>, and the generator that replays such a sequence.
\<close>

definition draw_seqs :: "nat \<Rightarrow> nat \<Rightarrow> nat list set" where
  "draw_seqs k n = {ds. list_all2 (\<lambda>d s. d < s) ds [Suc k..<Suc n]}"

definition replay :: "nat \<Rightarrow> nat list \<Rightarrow> nat \<Rightarrow> nat" where
  "replay k ds s = ds ! (s - Suc k)"

section \<open>Shape of the sample\<close>

lemma reservoir_loop_snoc:
  "reservoir_loop g k seen res (cs @ [c]) =
    (let r = reservoir_loop g k seen res cs; s = seen + length cs + 1
     in if length r < k then r @ [c] else if g s < k then r[g s := c] else r)"
  by (induction cs arbitrary: seen res) (auto simp: Let_def)

lemma reservoir_loop_prefix: "length cs \<le> k \<Longrightarrow> reservoir_loop g k 0 [] cs = cs"
  by (induction cs rule: rev_induct) (auto simp: reservoir_loop_snoc Let_def)

lemma length_reservoir_loop:
  "length res \<le> k \<Longrightarrow> length (reservoir_loop g k seen res cs) = min k (length res + length cs)"
  by (induction cs arbitrary: seen res) (auto simp: Let_def)

lemma mset_update_subset:
  assumes "i < length xs"
  shows "mset (xs[i := y]) \<subseteq># add_mset y (mset xs)"
  by (metis assms diff_subset_eq_self mset_update subset_mset.add_le_cancel_left
      add_mset_add_single add.commute)

lemma mset_reservoir_loop:
  "length res \<le> k \<Longrightarrow> mset (reservoir_loop g k seen res cs) \<subseteq># mset res + mset cs"
proof (induction cs arbitrary: seen res)
  case (Cons c cs)
  show ?case
  proof (cases "length res < k \<or> k \<le> g (seen + 1)")
    case True
    have "mset (reservoir_loop g k (Suc seen) res cs) \<subseteq># add_mset c (mset res + mset cs)"
      using Cons.IH [of res] Cons.prems by (metis add_mset_add_single mset_subset_eq_add_left subset_mset.order_trans)
    then show ?thesis
      using True Cons.IH [of "res @ [c]"] Cons.prems by (auto simp: Let_def)
  next
    case False
    then have "mset (res[g (seen + 1) := c]) \<subseteq># add_mset c (mset res)"
      using Cons.prems by (intro mset_update_subset) simp
    then have "mset (res[g (seen + 1) := c]) + mset cs \<subseteq># add_mset c (mset res + mset cs)"
      by (metis subset_mset.add_right_mono union_mset_add_mset_left)
    moreover have "mset (reservoir_loop g k (Suc seen) (res[g (seen + 1) := c]) cs)
        \<subseteq># mset (res[g (seen + 1) := c]) + mset cs"
      using Cons.IH Cons.prems by simp
    ultimately have "mset (reservoir_loop g k (Suc seen) (res[g (seen + 1) := c]) cs)
        \<subseteq># add_mset c (mset res + mset cs)"
      by (metis subset_mset.order_trans)
    with False show ?thesis by (simp add: Let_def)
  qed
qed simp

lemma reservoir_sample_mset: "reservoir_sample sz cs k g = Some xs \<Longrightarrow> mset xs \<subseteq># mset cs"
  using mset_reservoir_loop [of "[]" k g 0 cs] by (auto simp: reservoir_sample_def split: if_splits)

lemma reservoir_sample_subset: "reservoir_sample sz cs k g = Some xs \<Longrightarrow> set xs \<subseteq> set cs"
  using set_mset_mono [OF reservoir_sample_mset] by fastforce

lemma reservoir_sample_None: "reservoir_sample sz cs k g = None \<longleftrightarrow> k \<noteq> 0 \<and> \<not> vec_capacity_ok sz k"
  by (auto simp: reservoir_sample_def)

text \<open>The generator is consulted only at the bounds above \<open>k\<close>.\<close>

lemma reservoir_loop_cong:
  "length res = min k seen \<Longrightarrow> (\<And>s. k < s \<Longrightarrow> s \<le> seen + length cs \<Longrightarrow> g s = g' s) \<Longrightarrow>
    reservoir_loop g k seen res cs = reservoir_loop g' k seen res cs"
  by (induction cs arbitrary: seen res) (auto simp: Let_def min_def split: if_splits)

section \<open>Counting draw sequences\<close>

lemma draw_seqs_self [simp]: "draw_seqs k k = {[]}"
  by (simp add: draw_seqs_def)

lemma list_all2_snoc:
  "list_all2 P ds (xs @ [x]) \<longleftrightarrow> (\<exists>es d. ds = es @ [d] \<and> list_all2 P es xs \<and> P d x)"
proof (cases ds rule: rev_cases)
  case (snoc es d)
  have "list_all2 P (rev (es @ [d])) (rev (xs @ [x])) \<longleftrightarrow> P d x \<and> list_all2 P es xs" by simp
  then have "list_all2 P (es @ [d]) (xs @ [x]) \<longleftrightarrow> P d x \<and> list_all2 P es xs"
    by (simp only: list_all2_rev)
  with snoc show ?thesis by auto
qed simp

lemma draw_seqs_Suc:
  assumes "k \<le> n"
  shows "draw_seqs k (Suc n) = (\<lambda>(ds, d). ds @ [d]) ` (draw_seqs k n \<times> {..<Suc n})"
proof -
  have "[Suc k..<Suc (Suc n)] = [Suc k..<Suc n] @ [Suc n]" using assms by simp
  then have "list_all2 (\<lambda>d s. d < s) ds [Suc k..<Suc (Suc n)] \<longleftrightarrow>
      (\<exists>es d. ds = es @ [d] \<and> es \<in> draw_seqs k n \<and> d < Suc n)" for ds
    by (simp add: draw_seqs_def list_all2_snoc del: upt_Suc)
  then show ?thesis unfolding draw_seqs_def [of k "Suc n"] by (auto simp: image_iff)
qed

lemma finite_draw_seqs [simp]: "k \<le> n \<Longrightarrow> finite (draw_seqs k n)"
  by (induction n rule: dec_induct) (simp_all add: draw_seqs_Suc)

lemma draw_seqs_length: "ds \<in> draw_seqs k n \<Longrightarrow> length ds = n - k"
  by (auto simp: draw_seqs_def dest!: list_all2_lengthD simp del: upt_Suc)

lemma inj_snoc: "inj_on (\<lambda>(ds, d). ds @ [d]) A"
  by (auto simp: inj_on_def)

lemma card_draw_seqs_Suc: "k \<le> n \<Longrightarrow> card (draw_seqs k (Suc n)) = card (draw_seqs k n) * Suc n"
  by (simp add: draw_seqs_Suc card_image inj_snoc card_cartesian_product)

definition sample_of :: "nat \<Rightarrow> nat \<Rightarrow> nat list \<Rightarrow> nat list" where
  "sample_of k n ds = reservoir_loop (replay k ds) k 0 [] [0..<n]"

lemma sample_of_self [simp]: "sample_of k k ds = [0..<k]"
  by (simp add: sample_of_def reservoir_loop_prefix)

lemma sample_of_Suc:
  assumes "k \<le> n" "length ds = n - k"
  shows "sample_of k (Suc n) (ds @ [d]) =
    (if d < k then (sample_of k n ds)[d := n] else sample_of k n ds)"
proof -
  have "replay k (ds @ [d]) (Suc n) = d" using assms by (simp add: replay_def nth_append)
  moreover have "reservoir_loop (replay k (ds @ [d])) k 0 [] [0..<n] =
      reservoir_loop (replay k ds) k 0 [] [0..<n]"
    using assms by (intro reservoir_loop_cong) (auto simp: replay_def nth_append)
  ultimately show ?thesis
    using assms(1) by (simp add: sample_of_def reservoir_loop_snoc length_reservoir_loop Let_def)
qed

lemma sample_of_inv:
  "k \<le> n \<Longrightarrow> ds \<in> draw_seqs k n \<Longrightarrow>
    length (sample_of k n ds) = k \<and> distinct (sample_of k n ds) \<and> set (sample_of k n ds) \<subseteq> {..<n}"
proof (induction n arbitrary: ds rule: dec_induct)
  case (step n)
  then obtain es d where ds: "ds = es @ [d]" "es \<in> draw_seqs k n" by (auto simp: draw_seqs_Suc)
  note IH = step.IH [OF ds(2)]
  have "set ((sample_of k n es)[d := n]) \<subseteq> {..<Suc n}"
    using IH set_update_subset_insert [of "sample_of k n es" d n] by fastforce
  moreover have "distinct ((sample_of k n es)[d := n])"
    using IH by (intro distinct_list_update) auto
  ultimately show ?case
    using IH ds step.hyps by (auto simp: sample_of_Suc draw_seqs_length)
qed (auto simp: atLeast0LessThan)

definition chosen :: "nat \<Rightarrow> nat \<Rightarrow> nat \<Rightarrow> nat list set" where
  "chosen k n i = {ds \<in> draw_seqs k n. i \<in> set (sample_of k n ds)}"

lemma chosen_new:
  assumes "k \<le> n"
  shows "chosen k (Suc n) n = (\<lambda>(ds, d). ds @ [d]) ` (draw_seqs k n \<times> {..<k})"
proof -
  have "n \<in> set (sample_of k (Suc n) (ds @ [d])) \<longleftrightarrow> d < k" if "ds \<in> draw_seqs k n" for ds d
    using that sample_of_inv [OF assms that] assms
    by (auto simp: sample_of_Suc draw_seqs_length set_update_memI)
  then show ?thesis using assms by (auto simp: chosen_def draw_seqs_Suc)
qed

lemma survives:
  assumes "distinct xs" "i \<in> set xs" "i \<noteq> y" "length xs \<le> m"
  shows "card {d. d < Suc m \<and> i \<in> set (if d < length xs then xs[d := y] else xs)} = m"
proof -
  obtain j where j: "j < length xs" "xs ! j = i" using assms(2) by (auto simp: in_set_conv_nth)
  have "i \<in> set (xs[d := y]) \<longleftrightarrow> d \<noteq> j" if "d < length xs" for d
    using that j assms(1,3) by (auto simp: in_set_conv_nth nth_list_update nth_eq_iff_index_eq)
  then have "{d. d < Suc m \<and> i \<in> set (if d < length xs then xs[d := y] else xs)} = {..<Suc m} - {j}"
    using j assms(2) by auto
  then show ?thesis using j assms(4) by simp
qed

lemma card_chosen_old:
  assumes "k \<le> n" "i < n"
  shows "card (chosen k (Suc n) i) = card (chosen k n i) * n"
proof -
  let ?D = "\<lambda>ds. {d. d < Suc n \<and> i \<in> set (sample_of k (Suc n) (ds @ [d]))}"
  have D: "card (?D ds) = n" if "ds \<in> chosen k n i" for ds
  proof -
    have ds: "ds \<in> draw_seqs k n" "i \<in> set (sample_of k n ds)" using that by (auto simp: chosen_def)
    note inv = sample_of_inv [OF assms(1) ds(1)]
    show ?thesis
      using survives [of "sample_of k n ds" i n n] inv ds assms
      by (simp add: sample_of_Suc draw_seqs_length)
  qed
  have "i \<in> set (sample_of k n ds)" if "ds \<in> draw_seqs k n" "i \<in> set (sample_of k (Suc n) (ds @ [d]))" for ds d
    using that assms set_update_subset_insert [of "sample_of k n ds" d n]
    by (auto simp: sample_of_Suc draw_seqs_length split: if_splits)
  then have "chosen k (Suc n) i = (\<lambda>(ds, d). ds @ [d]) ` (SIGMA ds:chosen k n i. ?D ds)"
    using assms by (fastforce simp: chosen_def draw_seqs_Suc image_iff)
  then have "card (chosen k (Suc n) i) = card (SIGMA ds:chosen k n i. ?D ds)"
    by (simp add: card_image inj_snoc)
  also have "\<dots> = (\<Sum>ds\<in>chosen k n i. card (?D ds))"
    using assms by (intro card_SigmaI) (auto simp: chosen_def)
  finally show ?thesis by (simp add: D)
qed

lemma card_chosen: "k \<le> n \<Longrightarrow> i < n \<Longrightarrow> n * card (chosen k n i) = k * card (draw_seqs k n)"
proof (induction n arbitrary: i rule: dec_induct)
  case base
  then have "chosen k k i = draw_seqs k k" by (auto simp: chosen_def)
  then show ?case by simp
next
  case (step n)
  show ?case
  proof (cases "i = n")
    case True
    then have "card (chosen k (Suc n) i) = card (draw_seqs k n) * k"
      using step.hyps by (simp add: chosen_new card_image inj_snoc card_cartesian_product)
    then show ?thesis using step.hyps(1) by (simp add: card_draw_seqs_Suc algebra_simps)
  next
    case False
    then have "card (chosen k (Suc n) i) = card (chosen k n i) * n"
      using step by (intro card_chosen_old) auto
    moreover have "n * card (chosen k n i) = k * card (draw_seqs k n)" using step False by simp
    ultimately show ?thesis using step.hyps by (simp add: card_draw_seqs_Suc mult.commute mult.left_commute)
  qed
qed

section \<open>Properties\<close>

text \<open>Whatever the generator draws, the sample, when it can be allocated, holds \<open>min k n\<close> of the \<open>n\<close> candidates, none
  more often than it was offered, and when \<open>k\<close> is at least \<open>n\<close> it is the candidates themselves in
  order.\<close>

theorem reservoir_sample_sound:
  assumes "reservoir_sample sz cs k g = Some xs"
  shows "length xs = min k (length cs) \<and> mset xs \<subseteq># mset cs \<and> (length cs \<le> k \<longrightarrow> xs = cs)"
  using assms reservoir_sample_mset [OF assms]
  by (auto simp: reservoir_sample_def length_reservoir_loop reservoir_loop_prefix split: if_splits)

text \<open>C20: the sample is uniform. Of the equally likely sequences of draws (one below \<open>s\<close> for each
  \<open>s\<close> from \<open>k + 1\<close> to \<open>n\<close>), the share that puts candidate \<open>i\<close> into the sample is \<open>k / n\<close> for every
  candidate. The sample size is one that can be allocated.\<close>

theorem reservoir_sample_uniform:
  assumes "k \<le> n" "i < n" "vec_capacity_ok sz k"
  shows "n * card {ds \<in> draw_seqs k n. case reservoir_sample sz [0..<n] k (replay k ds) of
      None \<Rightarrow> False | Some sample \<Rightarrow> i \<in> set sample} = k * card (draw_seqs k n)"
proof (cases "k = 0")
  case False
  then show ?thesis
    using card_chosen [OF assms(1,2)] assms(3) by (simp add: chosen_def sample_of_def reservoir_sample_def)
qed (simp add: reservoir_sample_def)

theorem reservoir_sample_uniform_witness:
  "let sz = \<lparr>elem_size = 64, alloc_ok = \<lambda>bytes. bytes \<le> 1000\<rparr> in vec_capacity_ok sz 1 \<and>
    2 * card {ds \<in> draw_seqs 1 2. case reservoir_sample sz [0..<2] 1 (replay 1 ds) of
      None \<Rightarrow> False | Some sample \<Rightarrow> 0 \<in> set sample} = card (draw_seqs 1 2)"
  using reservoir_sample_uniform [of 1 2 0 "\<lparr>elem_size = 64, alloc_ok = \<lambda>bytes. bytes \<le> 1000\<rparr>"]
  by (simp add: vec_capacity_ok_def)

end
