(* ===== verification/Node_Config.thy ===== *)
theory Node_Config
  imports Rust_Str Hex_Utils
begin

text \<open>
  \<^verbatim>\<open>src/config.rs\<close>, \<^verbatim>\<open>src/dns_bootstrap/config.rs\<close>, \<^verbatim>\<open>src/runtime_config.rs\<close> and
  \<^verbatim>\<open>src/args.rs\<close>: from the command line and the text of \<^verbatim>\<open>config.toml\<close> to the settings the
  node runs with. The TOML grammar is a parameter (text to value tree); the decoding of the tree
  into the structs follows their serde attributes: a missing field takes its default or is an
  error, an \<^verbatim>\<open>Option\<close> may be missing, an unknown key is an error. The derived decoders also read a struct
  from an array, its fields by position: there an absent \<^verbatim>\<open>Option\<close> is an error too, and elements past the
  last field are ignored. When a table has several faults the model reports unknown keys first.

  Shown: what validation accepts; that an accepted file gives settings that are safe to run with;
  the behaviour of each default; the error of each way to fail.
\<close>

section \<open>Value trees and decoding\<close>

datatype toml = TStr string | TInt int | TBool bool | TArr "toml list" | TTbl "(string \<times> toml) list" | TOther

type_synonym table = "(string \<times> toml) list"

datatype de_error = MissingField string | UnknownField string | InvalidType toml | InvalidRange int | InvalidLength nat

fun de_string :: "toml \<Rightarrow> (string, de_error) result" where
  "de_string (TStr s) = Inr s"
| "de_string v = Inl (InvalidType v)"

fun de_bool :: "toml \<Rightarrow> (bool, de_error) result" where
  "de_bool (TBool b) = Inr b"
| "de_bool v = Inl (InvalidType v)"

fun de_uint :: "toml \<Rightarrow> ('a::len word, de_error) result" where
  "de_uint (TInt i) = (if 0 \<le> i \<and> i < 2 ^ LENGTH('a) then Inr (word_of_int i) else Inl (InvalidRange i))"
| "de_uint v = Inl (InvalidType v)"

fun de_all :: "(toml \<Rightarrow> ('t, de_error) result) \<Rightarrow> toml list \<Rightarrow> ('t list, de_error) result" where
  "de_all f [] = Inr []"
| "de_all f (v # vs) = and_then (f v) (\<lambda>x. and_then (de_all f vs) (\<lambda>xs. Inr (x # xs)))"

fun de_vec :: "(toml \<Rightarrow> ('t, de_error) result) \<Rightarrow> toml \<Rightarrow> ('t list, de_error) result" where
  "de_vec f (TArr vs) = de_all f vs"
| "de_vec f v = Inl (InvalidType v)"

text \<open>Where a struct is read from: a table, by key, or an array, by position. Both are lists of named values.\<close>

datatype fields = ByKey table | ByPosition table

fun field_value :: "fields \<Rightarrow> string \<Rightarrow> toml option" where
  "field_value (ByKey tbl) k = map_of tbl k"
| "field_value (ByPosition tbl) k = map_of tbl k"

fun absent :: "fields \<Rightarrow> string \<Rightarrow> de_error" where
  "absent (ByKey tbl) k = MissingField k"
| "absent (ByPosition tbl) k = InvalidLength (length tbl)"

text \<open>The kinds of fields, and \<^verbatim>\<open>deny_unknown_fields\<close>.\<close>

definition field_required :: "string \<Rightarrow> (toml \<Rightarrow> ('t, de_error) result) \<Rightarrow> fields \<Rightarrow> ('t, de_error) result" where
  "field_required k f src = (case field_value src k of None \<Rightarrow> Inl (absent src k) | Some v \<Rightarrow> f v)"

definition field_default ::
  "string \<Rightarrow> 't \<Rightarrow> (toml \<Rightarrow> ('t, de_error) result) \<Rightarrow> fields \<Rightarrow> ('t, de_error) result" where
  "field_default k d f src = (case field_value src k of None \<Rightarrow> Inr d | Some v \<Rightarrow> f v)"

definition field_option ::
  "string \<Rightarrow> (toml \<Rightarrow> ('t, de_error) result) \<Rightarrow> fields \<Rightarrow> ('t option, de_error) result" where
  "field_option k f src =
     (case field_value src k of
        None \<Rightarrow> (case src of ByKey _ \<Rightarrow> Inr None | ByPosition _ \<Rightarrow> Inl (absent src k))
      | Some v \<Rightarrow> and_then (f v) (\<lambda>x. Inr (Some x)))"

fun deny_unknown :: "string list \<Rightarrow> table \<Rightarrow> (unit, de_error) result" where
  "deny_unknown ks [] = Inr ()"
| "deny_unknown ks ((k, v) # tbl) = (if k \<in> set ks then deny_unknown ks tbl else Inl (UnknownField k))"

fun de_struct :: "string list \<Rightarrow> (fields \<Rightarrow> ('t, de_error) result) \<Rightarrow> toml \<Rightarrow> ('t, de_error) result" where
  "de_struct ks f (TTbl tbl) = and_then (deny_unknown ks tbl) (\<lambda>_. f (ByKey tbl))"
| "de_struct ks f (TArr vs) = f (ByPosition (zip ks vs))"
| "de_struct ks f v = Inl (InvalidType v)"

section \<open>The sections of the file\<close>

record bitcoind_config =
  rpc_host :: string
  rpc_port :: u16
  rpc_username :: string
  rpc_password :: string

definition de_bitcoind :: "toml \<Rightarrow> (bitcoind_config, de_error) result" where
  "de_bitcoind = de_struct [''rpc_host'', ''rpc_port'', ''rpc_username'', ''rpc_password'']
     (\<lambda>t. and_then (field_required ''rpc_host'' de_string t) (\<lambda>h.
          and_then (field_required ''rpc_port'' de_uint t) (\<lambda>p.
          and_then (field_required ''rpc_username'' de_string t) (\<lambda>u.
          and_then (field_required ''rpc_password'' de_string t) (\<lambda>w.
            Inr \<lparr>rpc_host = h, rpc_port = p, rpc_username = u, rpc_password = w\<rparr>)))))"

definition default_peer_port :: u16 where "default_peer_port = 9735"

record ldk_config =
  peer_listening_port :: u16
  announced_node_name :: "string option"
  announced_listen_addr :: "string list"

text \<open>The derived \<^verbatim>\<open>Default\<close>: each field's own type default, not the serde one.\<close>

definition ldk_config_default :: ldk_config where
  "ldk_config_default = \<lparr>peer_listening_port = 0, announced_node_name = None, announced_listen_addr = []\<rparr>"

definition de_ldk :: "toml \<Rightarrow> (ldk_config, de_error) result" where
  "de_ldk = de_struct [''peer_listening_port'', ''announced_node_name'', ''announced_listen_addr'']
     (\<lambda>t. and_then (field_default ''peer_listening_port'' default_peer_port de_uint t) (\<lambda>p.
          and_then (field_option ''announced_node_name'' de_string t) (\<lambda>n.
          and_then (field_default ''announced_listen_addr'' [] (de_vec de_string) t) (\<lambda>a.
            Inr \<lparr>peer_listening_port = p, announced_node_name = n, announced_listen_addr = a\<rparr>))))"

definition default_true :: bool where "default_true = True"

definition default_rgs_interval :: u64 where "default_rgs_interval = 6"

record rapid_gossip_sync_config =
  rgs_enabled :: bool
  rgs_url :: "string option"
  rgs_interval_hours :: u64

definition rapid_gossip_sync_config_default :: rapid_gossip_sync_config where
  "rapid_gossip_sync_config_default = \<lparr>rgs_enabled = True, rgs_url = None, rgs_interval_hours = 6\<rparr>"

definition de_rapid_gossip_sync :: "toml \<Rightarrow> (rapid_gossip_sync_config, de_error) result" where
  "de_rapid_gossip_sync = de_struct [''enabled'', ''url'', ''interval_hours'']
     (\<lambda>t. and_then (field_default ''enabled'' default_true de_bool t) (\<lambda>e.
          and_then (field_option ''url'' de_string t) (\<lambda>u.
          and_then (field_default ''interval_hours'' default_rgs_interval de_uint t) (\<lambda>i.
            Inr \<lparr>rgs_enabled = e, rgs_url = u, rgs_interval_hours = i\<rparr>))))"

definition default_probe_timeout :: u64 where "default_probe_timeout = 60"
definition default_probe_delay :: u64 where "default_probe_delay = 1"
definition default_peer_delay :: u64 where "default_peer_delay = 2"
definition default_random_min_probe_amount :: u64 where "default_random_min_probe_amount = 0"
definition default_random_nodes_per_interval :: u64 where "default_random_nodes_per_interval = 1"

record raw_probing_config =
  raw_interval_sec :: u64
  raw_peers :: "string list"
  raw_amount_msats :: "u64 list"
  raw_random_min_amount_msat :: u64
  raw_random_nodes_per_interval :: u64
  raw_timeout_sec :: u64
  raw_probe_delay_sec :: u64
  raw_peer_delay_sec :: u64

definition de_raw_probing :: "toml \<Rightarrow> (raw_probing_config, de_error) result" where
  "de_raw_probing = de_struct [''interval_sec'', ''peers'', ''amount_msats'', ''random_min_amount_msat'',
       ''random_nodes_per_interval'', ''timeout_sec'', ''probe_delay_sec'', ''peer_delay_sec'']
     (\<lambda>t. and_then (field_required ''interval_sec'' de_uint t) (\<lambda>i.
          and_then (field_required ''peers'' (de_vec de_string) t) (\<lambda>ps.
          and_then (field_required ''amount_msats'' (de_vec de_uint) t) (\<lambda>as.
          and_then (field_default ''random_min_amount_msat'' default_random_min_probe_amount de_uint t) (\<lambda>ra.
          and_then (field_default ''random_nodes_per_interval'' default_random_nodes_per_interval de_uint t) (\<lambda>rn.
          and_then (field_default ''timeout_sec'' default_probe_timeout de_uint t) (\<lambda>to.
          and_then (field_default ''probe_delay_sec'' default_probe_delay de_uint t) (\<lambda>pd.
          and_then (field_default ''peer_delay_sec'' default_peer_delay de_uint t) (\<lambda>ed.
            Inr \<lparr>raw_interval_sec = i, raw_peers = ps, raw_amount_msats = as,
                 raw_random_min_amount_msat = ra, raw_random_nodes_per_interval = rn,
                 raw_timeout_sec = to, raw_probe_delay_sec = pd, raw_peer_delay_sec = ed\<rparr>)))))))))"

definition default_enabled :: bool where "default_enabled = True"

definition default_seeds :: "string list" where
  "default_seeds = [''nodes.lightning.wiki'', ''lseed.bitcoinstats.com'']"

definition default_timeout_secs :: u64 where "default_timeout_secs = 30"
definition default_num_peers :: u64 where "default_num_peers = 10"
definition default_interval_secs :: u64 where "default_interval_secs = 300"

text \<open>\<^verbatim>\<open>usize\<close> is 64 bits wide on the node's platforms.\<close>

record dns_bootstrap_config =
  dns_enabled :: bool
  dns_seeds :: "string list"
  dns_timeout_secs :: u64
  dns_num_peers :: u64
  dns_interval_secs :: u64

definition dns_bootstrap_config_default :: dns_bootstrap_config where
  "dns_bootstrap_config_default = \<lparr>dns_enabled = default_enabled, dns_seeds = default_seeds,
     dns_timeout_secs = default_timeout_secs, dns_num_peers = default_num_peers,
     dns_interval_secs = default_interval_secs\<rparr>"

definition de_dns_bootstrap :: "toml \<Rightarrow> (dns_bootstrap_config, de_error) result" where
  "de_dns_bootstrap = de_struct [''enabled'', ''seeds'', ''timeout_secs'', ''num_peers'', ''interval_secs'']
     (\<lambda>t. and_then (field_default ''enabled'' default_enabled de_bool t) (\<lambda>e.
          and_then (field_default ''seeds'' default_seeds (de_vec de_string) t) (\<lambda>s.
          and_then (field_default ''timeout_secs'' default_timeout_secs de_uint t) (\<lambda>to.
          and_then (field_default ''num_peers'' default_num_peers de_uint t) (\<lambda>n.
          and_then (field_default ''interval_secs'' default_interval_secs de_uint t) (\<lambda>i.
            Inr \<lparr>dns_enabled = e, dns_seeds = s, dns_timeout_secs = to, dns_num_peers = n,
                 dns_interval_secs = i\<rparr>))))))"

definition default_network :: string where "default_network = ''testnet''"

record node_config =
  bitcoind :: bitcoind_config
  network_name :: string
  ldk :: ldk_config
  rapid_gossip_sync :: rapid_gossip_sync_config
  raw_probing :: "raw_probing_config option"
  dns_bootstrap :: "dns_bootstrap_config option"

definition de_node_config :: "toml \<Rightarrow> (node_config, de_error) result" where
  "de_node_config = de_struct [''bitcoind'', ''network'', ''ldk'', ''rapid_gossip_sync'', ''probing'', ''dns_bootstrap'']
     (\<lambda>t. and_then (field_required ''bitcoind'' de_bitcoind t) (\<lambda>b.
          and_then (field_default ''network'' default_network de_string t) (\<lambda>n.
          and_then (field_default ''ldk'' ldk_config_default de_ldk t) (\<lambda>l.
          and_then (field_default ''rapid_gossip_sync'' rapid_gossip_sync_config_default de_rapid_gossip_sync t) (\<lambda>r.
          and_then (field_option ''probing'' de_raw_probing t) (\<lambda>p.
          and_then (field_option ''dns_bootstrap'' de_dns_bootstrap t) (\<lambda>d.
            Inr \<lparr>bitcoind = b, network_name = n, ldk = l, rapid_gossip_sync = r,
                 raw_probing = p, dns_bootstrap = d\<rparr>)))))))"

section \<open>Loading and validation\<close>

datatype config_error =
  FileNotFound string
| DeprecatedJsonConfig string
| ParseError string
| ValidationError string

definition validate_network :: "string \<Rightarrow> (unit, config_error) result" where
  "validate_network n =
     (if n \<in> set [''mainnet'', ''testnet'', ''regtest'', ''signet''] then Inr ()
      else Inl (ValidationError (''Invalid network '' @ [CHR 0x27] @ n @ [CHR 0x27] @
             ''. Must be: mainnet, testnet, regtest, signet'')))"

fun validate_addrs :: "(string \<Rightarrow> 'addr option) \<Rightarrow> string list \<Rightarrow> (unit, config_error) result" where
  "validate_addrs from_str [] = Inr ()"
| "validate_addrs from_str (addr # addrs) =
     (if from_str addr = None then Inl (ValidationError (''Invalid announced address: '' @ addr))
      else validate_addrs from_str addrs)"

definition validate_name :: "string option \<Rightarrow> (unit, config_error) result" where
  "validate_name n =
     (case n of
        Some name \<Rightarrow>
          if length name > 32 then Inl (ValidationError ''Node name cannot exceed 32 bytes'') else Inr ()
      | None \<Rightarrow> Inr ())"

definition validate_rgs :: "rapid_gossip_sync_config \<Rightarrow> (unit, config_error) result" where
  "validate_rgs r =
     (if rgs_enabled r \<and> rgs_interval_hours r = 0
      then Inl (ValidationError ''rapid_gossip_sync.interval_hours must be greater than 0 when enabled'')
      else Inr ())"

definition validate_probing :: "raw_probing_config option \<Rightarrow> (unit, config_error) result" where
  "validate_probing p =
     (case p of
        None \<Rightarrow> Inr ()
      | Some probing \<Rightarrow>
          if raw_interval_sec probing = 0
          then Inl (ValidationError ''probing.interval_sec must be greater than 0'')
          else if raw_timeout_sec probing = 0
          then Inl (ValidationError ''probing.timeout_sec must be greater than 0'')
          else Inr ())"

definition validate_dns :: "dns_bootstrap_config option \<Rightarrow> (unit, config_error) result" where
  "validate_dns d =
     (case d of
        None \<Rightarrow> Inr ()
      | Some dns \<Rightarrow>
          if \<not> dns_enabled dns then Inr ()
          else if dns_seeds dns = []
          then Inl (ValidationError ''dns_bootstrap.seeds must not be empty when enabled'')
          else if dns_timeout_secs dns = 0
          then Inl (ValidationError ''dns_bootstrap.timeout_secs must be greater than 0 when enabled'')
          else if dns_interval_secs dns = 0
          then Inl (ValidationError ''dns_bootstrap.interval_secs must be greater than 0 when enabled'')
          else if dns_num_peers dns = 0
          then Inl (ValidationError ''dns_bootstrap.num_peers must be greater than 0 when enabled'')
          else Inr ())"

definition validate :: "(string \<Rightarrow> 'addr option) \<Rightarrow> node_config \<Rightarrow> (unit, config_error) result" where
  "validate from_str c =
     and_then (validate_network (network_name c)) (\<lambda>_.
     and_then (validate_addrs from_str (announced_listen_addr (ldk c))) (\<lambda>_.
     and_then (validate_name (announced_node_name (ldk c))) (\<lambda>_.
     and_then (validate_rgs (rapid_gossip_sync c)) (\<lambda>_.
     and_then (validate_probing (raw_probing c)) (\<lambda>_.
       validate_dns (dns_bootstrap c))))))"

text \<open>
  The parameters of loading: the file system (\<open>fs_exists\<close>, \<open>fs_read\<close>, an error as its printed
  form), the TOML grammar, the printed form of a decoding error, and the address parser.
\<close>

record 'addr config_env =
  fs_exists :: "string \<Rightarrow> bool"
  fs_read :: "string \<Rightarrow> (string, string) result"
  toml_parse :: "string \<Rightarrow> (toml, string) result"
  show_de_error :: "de_error \<Rightarrow> string"
  addr_from_str :: "string \<Rightarrow> 'addr option"

definition load :: "'addr config_env \<Rightarrow> string \<Rightarrow> (node_config, config_error) result" where
  "load env dir =
     (let config_path = dir @ ''/config.toml'';
          deprecated_json_path = dir @ ''/config.json''
      in if \<not> fs_exists env config_path
         then if fs_exists env deprecated_json_path
              then Inl (DeprecatedJsonConfig deprecated_json_path)
              else Inl (FileNotFound config_path)
         else
           and_then (map_err (\<lambda>e. ParseError (''Failed to read config: '' @ e)) (fs_read env config_path)) (\<lambda>content.
           and_then (map_err (\<lambda>e. ParseError (''Invalid TOML: '' @ e))
               (and_then (toml_parse env content) (\<lambda>tree. map_err (show_de_error env) (de_node_config tree)))) (\<lambda>config.
           and_then (validate (addr_from_str env) config) (\<lambda>_. Inr config))))"

section \<open>The settings of a run\<close>

datatype network = Bitcoin | Testnet | Regtest | Signet

definition get_network :: "node_config \<Rightarrow> network" where
  "get_network c =
     (if network_name c = ''mainnet'' then Bitcoin
      else if network_name c = ''testnet'' then Testnet
      else if network_name c = ''regtest'' then Regtest
      else if network_name c = ''signet'' then Signet
      else Testnet)"

definition get_announced_node_name :: "node_config \<Rightarrow> bytes" where
  "get_announced_node_name c =
     (case announced_node_name (ldk c) of
        None \<Rightarrow> replicate 32 0
      | Some name \<Rightarrow>
          let name_bytes = as_bytes name; len = min (length name_bytes) 32
          in take len name_bytes @ drop len (replicate 32 0))"

definition get_announced_listen_addr :: "(string \<Rightarrow> 'addr option) \<Rightarrow> node_config \<Rightarrow> 'addr list" where
  "get_announced_listen_addr from_str c = List.map_filter from_str (announced_listen_addr (ldk c))"

record probing_config =
  interval_sec :: u64
  peers :: "string list"
  amount_msats :: "u64 list"
  random_min_amount_msat :: u64
  random_nodes_per_interval :: u64
  timeout_sec :: u64
  probe_delay_sec :: u64
  peer_delay_sec :: u64

record 'addr ldk_user_info =
  bitcoind_rpc_username :: string
  bitcoind_rpc_password :: string
  bitcoind_rpc_port :: u16
  bitcoind_rpc_host :: string
  ldk_storage_dir_path :: string
  ldk_peer_listening_port :: u16
  ldk_announced_listen_addr :: "'addr list"
  ldk_announced_node_name :: bytes
  network :: network
  rapid_gossip_sync_enabled :: bool
  rapid_gossip_sync_url :: "string option"
  rapid_gossip_sync_interval_hours :: u64
  probing :: "probing_config option"
  dns_bootstrap_info :: "dns_bootstrap_config option"

definition into_ldk_user_info ::
  "(string \<Rightarrow> 'addr option) \<Rightarrow> node_config \<Rightarrow> string \<Rightarrow> 'addr ldk_user_info" where
  "into_ldk_user_info from_str c storage_dir =
     \<lparr>bitcoind_rpc_username = rpc_username (bitcoind c),
      bitcoind_rpc_password = rpc_password (bitcoind c),
      bitcoind_rpc_port = rpc_port (bitcoind c),
      bitcoind_rpc_host = rpc_host (bitcoind c),
      ldk_storage_dir_path = storage_dir,
      ldk_peer_listening_port = peer_listening_port (ldk c),
      ldk_announced_listen_addr = get_announced_listen_addr from_str c,
      ldk_announced_node_name = get_announced_node_name c,
      network = get_network c,
      rapid_gossip_sync_enabled = rgs_enabled (rapid_gossip_sync c),
      rapid_gossip_sync_url = rgs_url (rapid_gossip_sync c),
      rapid_gossip_sync_interval_hours = rgs_interval_hours (rapid_gossip_sync c),
      probing = map_option (\<lambda>p.
        \<lparr>interval_sec = raw_interval_sec p, peers = raw_peers p, amount_msats = raw_amount_msats p,
         random_min_amount_msat = raw_random_min_amount_msat p,
         random_nodes_per_interval = raw_random_nodes_per_interval p,
         timeout_sec = raw_timeout_sec p, probe_delay_sec = raw_probe_delay_sec p,
         peer_delay_sec = raw_peer_delay_sec p\<rparr>) (raw_probing c),
      dns_bootstrap_info = dns_bootstrap c\<rparr>"

datatype 'io startup_args_error =
  MissingStorageDirectory
| CreateDataDir string 'io
| Config config_error

definition parse_startup_args ::
  "'addr config_env \<Rightarrow> (string \<Rightarrow> (unit, 'io) result) \<Rightarrow> string list \<Rightarrow>
    ('addr ldk_user_info, 'io startup_args_error) result" where
  "parse_startup_args env create_dir_all args =
     (if length args < 2 then Inl MissingStorageDirectory
      else let ldk_storage_dir = args ! 1; ldk_data_dir = ldk_storage_dir @ ''/.ldk''
           in case create_dir_all ldk_data_dir of
                Inl source \<Rightarrow> Inl (CreateDataDir ldk_data_dir source)
              | Inr _ \<Rightarrow>
                  and_then (map_err Config (load env ldk_data_dir)) (\<lambda>config.
                    Inr (into_ldk_user_info (addr_from_str env) config ldk_storage_dir)))"

definition print_config_help :: "string list" where
  "print_config_help =
     [''ERROR: Config file not found or invalid.'', [],
      ''NOTE: config.json is deprecated and no longer supported.'', [],
      ''Please create a config.toml file in your LDK data directory with the following structure:'', [],
      ''[bitcoind]'',
      ''rpc_host = \"127.0.0.1\"'',
      ''rpc_port = 8332'',
      ''rpc_username = \"your_rpc_user\"'',
      ''rpc_password = \"your_rpc_password\"'',
      [],
      ''network = \"testnet\"'',
      [],
      ''[ldk]'',
      ''peer_listening_port = 9735'',
      ''announced_node_name = \"MyNode\"'',
      ''announced_listen_addr = []'',
      [],
      ''[rapid_gossip_sync]'',
      ''enabled = true'',
      ''interval_hours = 6'',
      [],
      ''[probing]'',
      ''interval_sec = 300'',
      ''peers = []'',
      ''amount_msats = [1000, 10000, 100000]'',
      ''random_min_amount_msat = 1000'',
      ''random_nodes_per_interval = 1'',
      ''timeout_sec = 60'',
      ''probe_delay_sec = 1'',
      ''peer_delay_sec = 2'',
      [],
      ''[dns_bootstrap]'',
      ''enabled = true'',
      ''seeds = [ \"nodes.lightning.wiki\", \"lseed.bitcoinstats.com\" ]'',
      ''timeout_secs = 30'',
      ''num_peers = 10'',
      ''interval_secs = 300'',
      [], []]"

section \<open>Decoding lemmas\<close>

lemma de_struct_unknown:
  assumes "k \<in> fst ` set tbl" "k \<notin> set ks"
  shows "\<exists>k'. de_struct ks f (TTbl tbl) = Inl (UnknownField k')"
proof -
  have "\<exists>k'. deny_unknown ks tbl = Inl (UnknownField k')"
    using assms by (induction ks tbl rule: deny_unknown.induct) auto
  then show ?thesis by auto
qed

section \<open>Validation lemmas\<close>

lemma validate_addrs_iff:
  "validate_addrs from_str addrs = Inr () \<longleftrightarrow> list_all (\<lambda>a. from_str a \<noteq> None) addrs"
  by (induction addrs) auto

lemma validate_addrs_error: "validate_addrs from_str addrs = Inl e \<Longrightarrow> \<exists>m. e = ValidationError m"
  by (induction addrs) (auto split: if_splits)

lemma validate_part_errors:
  "validate_network n = Inl e \<Longrightarrow> \<exists>m. e = ValidationError m"
  "validate_name o' = Inl e \<Longrightarrow> \<exists>m. e = ValidationError m"
  "validate_rgs r = Inl e \<Longrightarrow> \<exists>m. e = ValidationError m"
  "validate_probing p = Inl e \<Longrightarrow> \<exists>m. e = ValidationError m"
  "validate_dns d = Inl e \<Longrightarrow> \<exists>m. e = ValidationError m"
  by (auto simp: validate_network_def validate_name_def validate_rgs_def validate_probing_def
      validate_dns_def split: if_splits option.splits)

lemma validate_error: "validate from_str c = Inl e \<Longrightarrow> \<exists>m. e = ValidationError m"
  unfolding validate_def
  by (auto simp: and_then_Inl_iff dest: validate_addrs_error validate_part_errors)

lemma validate_iff:
  "validate from_str c = Inr () \<longleftrightarrow>
    network_name c \<in> {''mainnet'', ''testnet'', ''regtest'', ''signet''} \<and>
    list_all (\<lambda>a. from_str a \<noteq> None) (announced_listen_addr (ldk c)) \<and>
    pred_option (\<lambda>n. length n \<le> 32) (announced_node_name (ldk c)) \<and>
    \<not> (rgs_enabled (rapid_gossip_sync c) \<and> rgs_interval_hours (rapid_gossip_sync c) = 0) \<and>
    pred_option (\<lambda>p. raw_interval_sec p \<noteq> 0 \<and> raw_timeout_sec p \<noteq> 0) (raw_probing c) \<and>
    pred_option (\<lambda>d. \<not> dns_enabled d \<or> dns_seeds d \<noteq> [] \<and> dns_timeout_secs d \<noteq> 0 \<and>
      dns_interval_secs d \<noteq> 0 \<and> dns_num_peers d \<noteq> 0) (dns_bootstrap c)"
  by (auto simp: validate_def and_then_Inr_iff validate_network_def validate_addrs_iff
      validate_name_def validate_rgs_def validate_probing_def validate_dns_def
      split: option.splits if_splits)

lemma map_filter_total: "list_all (\<lambda>a. f a \<noteq> None) xs \<Longrightarrow> map Some (List.map_filter f xs) = map f xs"
  by (induction xs) (auto simp: List.map_filter_simps)

lemma load_Inr:
  "load env dir = Inr c \<Longrightarrow> validate (addr_from_str env) c = Inr ()"
  by (auto simp: load_def Let_def and_then_Inr_iff split: if_splits)

lemma load_found_error:
  "fs_exists env (dir @ ''/config.toml'') \<Longrightarrow> load env dir = Inl e \<Longrightarrow>
    \<exists>m. e = ParseError m \<or> e = ValidationError m"
  by (auto simp: load_def and_then_Inl_iff dest: validate_error)

lemma load_FileNotFound:
  "load env dir = Inl (FileNotFound p) \<longleftrightarrow>
    p = dir @ ''/config.toml'' \<and> \<not> fs_exists env (dir @ ''/config.toml'') \<and> \<not> fs_exists env (dir @ ''/config.json'')"
  by (cases "fs_exists env (dir @ ''/config.toml'')")
    (auto dest: load_found_error, auto simp: load_def Let_def split: if_splits)

lemma load_Deprecated:
  "load env dir = Inl (DeprecatedJsonConfig p) \<longleftrightarrow>
    p = dir @ ''/config.json'' \<and> \<not> fs_exists env (dir @ ''/config.toml'') \<and> fs_exists env (dir @ ''/config.json'')"
  by (cases "fs_exists env (dir @ ''/config.toml'')")
    (auto dest: load_found_error, auto simp: load_def Let_def split: if_splits)

lemma padded_name:
  "pred_option (\<lambda>n. length n \<le> 32) (announced_node_name (ldk c)) \<Longrightarrow>
    get_announced_node_name c =
      (case announced_node_name (ldk c) of None \<Rightarrow> [] | Some n \<Rightarrow> as_bytes n) @
      replicate (32 - length (case announced_node_name (ldk c) of None \<Rightarrow> [] | Some n \<Rightarrow> n)) 0"
  by (cases "announced_node_name (ldk c)")
    (simp_all add: get_announced_node_name_def Let_def as_bytes_def min_def)

lemma parse_startup_args_Inr:
  assumes "parse_startup_args env create_dir_all args = Inr info"
  obtains c where "load env (args ! 1 @ ''/.ldk'') = Inr c" "info = into_ldk_user_info (addr_from_str env) c (args ! 1)"
  using assms by (auto simp: parse_startup_args_def Let_def and_then_Inr_iff split: if_splits sum.splits)

lemma parsed_intervals:
  assumes "parse_startup_args env create_dir_all args = Inr info"
  shows "\<not> (rapid_gossip_sync_enabled info \<and> rapid_gossip_sync_interval_hours info = 0)"
    and "pred_option (\<lambda>p. interval_sec p \<noteq> 0 \<and> timeout_sec p \<noteq> 0) (probing info)"
    and "pred_option (\<lambda>d. \<not> dns_enabled d \<or> dns_timeout_secs d \<noteq> 0 \<and> dns_interval_secs d \<noteq> 0) (dns_bootstrap_info info)"
  using assms
  by (auto elim!: parse_startup_args_Inr dest!: load_Inr simp: validate_iff into_ldk_user_info_def option.pred_set)

section \<open>Properties\<close>

text \<open>Validation accepts a configuration exactly when the network is one of the four names,
  every announced address parses, the node name fits its 32 bytes, and every interval, timeout and
  count of an enabled subsystem is not zero (and its seed list not empty).\<close>

theorem validate_accepts:
  "is_ok (validate from_str c) \<longleftrightarrow>
    network_name c \<in> {''mainnet'', ''testnet'', ''regtest'', ''signet''} \<and>
    list_all (\<lambda>a. from_str a \<noteq> None) (announced_listen_addr (ldk c)) \<and>
    pred_option (\<lambda>n. length n \<le> 32) (announced_node_name (ldk c)) \<and>
    (if rgs_enabled (rapid_gossip_sync c) then 0 < rgs_interval_hours (rapid_gossip_sync c) else True) \<and>
    pred_option (\<lambda>p. 0 < raw_interval_sec p \<and> 0 < raw_timeout_sec p) (raw_probing c) \<and>
    pred_option (\<lambda>d. if dns_enabled d then dns_seeds d \<noteq> [] \<and> 0 < dns_timeout_secs d \<and>
      0 < dns_interval_secs d \<and> 0 < dns_num_peers d else True) (dns_bootstrap c)"
proof -
  have "is_ok (validate from_str c) \<longleftrightarrow> validate from_str c = Inr ()"
    by (cases "validate from_str c") auto
  then show ?thesis
    by (auto simp: validate_iff word_gt_0 option.pred_set)
qed

text \<open>C25: what a successful start guarantees. The settings come from the file under
  \<^verbatim>\<open><storage>/.ldk\<close>; no announced address was dropped on the way; the 32-byte alias is the
  configured name padded with zeros; the network is the one named, and the intervals and timeouts
  that the background tasks divide time by are not zero.\<close>

theorem startup_settings_sound:
  assumes "parse_startup_args env create_dir_all args = Inr info"
  shows "ldk_storage_dir_path info = args ! 1 \<and>
    (\<exists>c. load env (args ! 1 @ ''/.ldk'') = Inr c \<and>
       map Some (ldk_announced_listen_addr info) = map (addr_from_str env) (announced_listen_addr (ldk c)) \<and>
       ldk_announced_node_name info =
         (case announced_node_name (ldk c) of None \<Rightarrow> [] | Some n \<Rightarrow> as_bytes n) @
         replicate (32 - length (case announced_node_name (ldk c) of None \<Rightarrow> [] | Some n \<Rightarrow> n)) 0 \<and>
       (network_name c, network info) \<in>
         {(''mainnet'', Bitcoin), (''testnet'', Testnet), (''regtest'', Regtest), (''signet'', Signet)}) \<and>
    \<not> (rapid_gossip_sync_enabled info \<and> rapid_gossip_sync_interval_hours info = 0) \<and>
    pred_option (\<lambda>p. interval_sec p \<noteq> 0 \<and> timeout_sec p \<noteq> 0) (probing info) \<and>
    pred_option (\<lambda>d. \<not> dns_enabled d \<or> dns_timeout_secs d \<noteq> 0 \<and> dns_interval_secs d \<noteq> 0) (dns_bootstrap_info info)"
proof -
  from assms obtain c where c: "load env (args ! 1 @ ''/.ldk'') = Inr c"
    and info: "info = into_ldk_user_info (addr_from_str env) c (args ! 1)" by (rule parse_startup_args_Inr)
  note v = load_Inr [OF c, unfolded validate_iff]
  have name: "get_announced_node_name c =
      (case announced_node_name (ldk c) of None \<Rightarrow> [] | Some n \<Rightarrow> as_bytes n) @
      replicate (32 - length (case announced_node_name (ldk c) of None \<Rightarrow> [] | Some n \<Rightarrow> n)) 0"
    using v by (blast intro: padded_name)
  have net: "(network_name c, get_network c) \<in>
      {(''mainnet'', Bitcoin), (''testnet'', Testnet), (''regtest'', Regtest), (''signet'', Signet)}"
    using v by (auto simp: get_network_def)
  have addrs: "map Some (get_announced_listen_addr (addr_from_str env) c) =
      map (addr_from_str env) (announced_listen_addr (ldk c))"
    using v by (simp add: get_announced_listen_addr_def map_filter_total)
  show ?thesis
    using c name net addrs parsed_intervals [OF assms]
    by (auto simp: info into_ldk_user_info_def)
qed

definition demo_tree :: toml where
  "demo_tree = TTbl [(''bitcoind'', TTbl [(''rpc_host'', TStr ''h''), (''rpc_port'', TInt 8332),
     (''rpc_username'', TStr ''u''), (''rpc_password'', TStr ''p'')]), (''ldk'', TTbl [])]"

definition demo_env :: "string config_env" where
  "demo_env = \<lparr>fs_exists = \<lambda>p. p = ''d/.ldk/config.toml'', fs_read = \<lambda>_. Inr [],
     toml_parse = \<lambda>_. Inr demo_tree, show_de_error = \<lambda>_. [], addr_from_str = Some\<rparr>"

definition demo_info :: "string ldk_user_info" where
  "demo_info = \<lparr>bitcoind_rpc_username = ''u'', bitcoind_rpc_password = ''p'', bitcoind_rpc_port = 8332,
     bitcoind_rpc_host = ''h'', ldk_storage_dir_path = ''d'', ldk_peer_listening_port = 9735,
     ldk_announced_listen_addr = [], ldk_announced_node_name = replicate 32 0, network = Testnet,
     rapid_gossip_sync_enabled = True, rapid_gossip_sync_url = None,
     rapid_gossip_sync_interval_hours = 6, probing = None, dns_bootstrap_info = None\<rparr>"

lemma demo_start: "parse_startup_args demo_env (\<lambda>_. Inr () :: (unit, string) result) [''ldk-sample'', ''d''] = Inr demo_info"
  by code_simp

theorem startup_settings_sound_witness:
  "parse_startup_args demo_env (\<lambda>_. Inr () :: (unit, string) result) [''ldk-sample'', ''d''] = Inr demo_info \<and>
    ldk_storage_dir_path demo_info = ''d''"
  using demo_start startup_settings_sound [OF demo_start] by simp

text \<open>The errors of loading. The file is reported missing exactly when neither
  \<^verbatim>\<open>config.toml\<close> nor \<^verbatim>\<open>config.json\<close> exists, the deprecated format exactly when only the
  latter does, and any other failure happens after \<^verbatim>\<open>config.toml\<close> was found.\<close>

theorem load_error_cases:
  "(load env dir = Inl (FileNotFound p) \<longleftrightarrow> p = dir @ ''/config.toml'' \<and>
      \<not> fs_exists env (dir @ ''/config.toml'') \<and> \<not> fs_exists env (dir @ ''/config.json'')) \<and>
   (load env dir = Inl (DeprecatedJsonConfig p) \<longleftrightarrow> p = dir @ ''/config.json'' \<and>
      \<not> fs_exists env (dir @ ''/config.toml'') \<and> fs_exists env (dir @ ''/config.json'')) \<and>
   (load env dir \<in> range (Inl \<circ> ParseError) \<union> range (Inl \<circ> ValidationError) \<union> range Inr \<longleftrightarrow>
      fs_exists env (dir @ ''/config.toml''))"
proof -
  have "load env dir \<in> range (Inl \<circ> ParseError) \<union> range (Inl \<circ> ValidationError) \<union> range Inr \<longleftrightarrow>
      (\<nexists>p. load env dir = Inl (FileNotFound p) \<or> load env dir = Inl (DeprecatedJsonConfig p))"
    by (cases "load env dir"; cases "projl (load env dir)") auto
  then show ?thesis by (simp add: load_FileNotFound load_Deprecated) blast
qed

text \<open>The defaults of absent sections. Without a \<^verbatim>\<open>[ldk]\<close> table the listening port is 0,
  with a table that leaves the port out it is 9735; an absent \<^verbatim>\<open>[rapid_gossip_sync]\<close> means
  enabled every six hours; an absent \<^verbatim>\<open>[dns_bootstrap]\<close> means no bootstrapping at all, an empty
  one means the enabled defaults; an absent network means testnet.\<close>

theorem section_defaults:
  assumes "de_node_config (TTbl tbl) = Inr c"
  shows "(case map_of tbl ''ldk'' of
        None \<Rightarrow> peer_listening_port (ldk c) = 0
      | Some v \<Rightarrow> (\<forall>l. v = TTbl l \<and> map_of l ''peer_listening_port'' = None \<longrightarrow> peer_listening_port (ldk c) = 9735)) \<and>
    (case map_of tbl ''dns_bootstrap'' of
        None \<Rightarrow> dns_bootstrap c = None
      | Some v \<Rightarrow> v \<noteq> TTbl [] \<or> dns_bootstrap c = Some dns_bootstrap_config_default) \<and>
    (map_of tbl ''rapid_gossip_sync'' \<notin> {None, Some (TTbl [])} \<or>
      rapid_gossip_sync c = \<lparr>rgs_enabled = True, rgs_url = None, rgs_interval_hours = 6\<rparr>) \<and>
    (map_of tbl ''network'' \<noteq> None \<or> network_name c = ''testnet'')"
proof -
  obtain b n l r p d where fields:
    "field_default ''network'' default_network de_string (ByKey tbl) = Inr n"
    "field_default ''ldk'' ldk_config_default de_ldk (ByKey tbl) = Inr l"
    "field_default ''rapid_gossip_sync'' rapid_gossip_sync_config_default de_rapid_gossip_sync (ByKey tbl) = Inr r"
    "field_option ''dns_bootstrap'' de_dns_bootstrap (ByKey tbl) = Inr d"
    and c: "c = \<lparr>bitcoind = b, network_name = n, ldk = l, rapid_gossip_sync = r, raw_probing = p, dns_bootstrap = d\<rparr>"
    using assms unfolding de_node_config_def by (auto simp: and_then_Inr_iff)
  have ldk: "case map_of tbl ''ldk'' of None \<Rightarrow> peer_listening_port l = 0
      | Some v \<Rightarrow> (\<forall>l'. v = TTbl l' \<and> map_of l' ''peer_listening_port'' = None \<longrightarrow> peer_listening_port l = 9735)"
  proof (cases "map_of tbl ''ldk''")
    case (Some v)
    then have "de_ldk v = Inr l" using fields(2) by (simp add: field_default_def)
    then show ?thesis unfolding Some de_ldk_def
      by (cases v) (auto simp: and_then_Inr_iff field_default_def default_peer_port_def split: option.splits)
  qed (insert fields(2), auto simp: field_default_def ldk_config_default_def)
  have dns: "case map_of tbl ''dns_bootstrap'' of None \<Rightarrow> d = None
      | Some v \<Rightarrow> v \<noteq> TTbl [] \<or> d = Some dns_bootstrap_config_default"
    using fields(4) by (auto simp: field_option_def de_dns_bootstrap_def and_then_Inr_iff
        field_default_def dns_bootstrap_config_default_def split: option.splits)
  have "map_of tbl ''rapid_gossip_sync'' \<notin> {None, Some (TTbl [])} \<or>
      r = \<lparr>rgs_enabled = True, rgs_url = None, rgs_interval_hours = 6\<rparr>"
    using fields(3) by (auto simp: field_default_def field_option_def de_rapid_gossip_sync_def
        rapid_gossip_sync_config_default_def default_true_def default_rgs_interval_def split: option.splits)
  moreover have "map_of tbl ''network'' \<noteq> None \<or> n = ''testnet''"
    using fields(1) by (auto simp: field_default_def default_network_def split: option.splits)
  ultimately show ?thesis using ldk dns by (simp add: c cong: option.case_cong)
qed

definition demo_bitcoind :: toml where
  "demo_bitcoind = TTbl [(''rpc_host'', TStr ''h''), (''rpc_port'', TInt 8332),
     (''rpc_username'', TStr ''u''), (''rpc_password'', TStr ''p'')]"

definition demo_config :: node_config where
  "demo_config = \<lparr>bitcoind = \<lparr>rpc_host = ''h'', rpc_port = 8332, rpc_username = ''u'', rpc_password = ''p''\<rparr>,
     network_name = ''testnet'', ldk = ldk_config_default,
     rapid_gossip_sync = rapid_gossip_sync_config_default, raw_probing = None, dns_bootstrap = None\<rparr>"

theorem section_defaults_witness:
  "de_node_config (TTbl [(''bitcoind'', demo_bitcoind)]) = Inr demo_config \<and>
    peer_listening_port (ldk demo_config) = 0"
proof -
  have d: "de_node_config (TTbl [(''bitcoind'', demo_bitcoind)]) = Inr demo_config" by code_simp
  with section_defaults [OF d] show ?thesis by simp
qed

text \<open>A \<^verbatim>\<open>network\<close> key inside the \<^verbatim>\<open>[bitcoind]\<close> table, where the printed help and the
  example file put it, makes the whole file invalid.\<close>

theorem misplaced_network_rejected:
  assumes "map_of tbl ''bitcoind'' = Some (TTbl b)" "''network'' \<in> fst ` set b"
  shows "\<not> is_ok (de_node_config (TTbl tbl))"
proof -
  have "\<exists>k. de_bitcoind (TTbl b) = Inl (UnknownField k)"
    unfolding de_bitcoind_def
    by (rule de_struct_unknown [OF assms(2)]) simp
  then have "de_node_config (TTbl tbl) \<noteq> Inr c" for c
    using assms(1) by (auto simp: de_node_config_def and_then_Inr_iff field_required_def)
  then show ?thesis by (auto simp: is_ok_iff)
qed

theorem misplaced_network_rejected_witness:
  "\<not> is_ok (de_node_config (TTbl [(''bitcoind'', TTbl [(''rpc_host'', TStr ''127.0.0.1''), (''rpc_port'', TInt 8332),
     (''rpc_username'', TStr ''your_rpc_user''), (''rpc_password'', TStr ''your_rpc_password''),
     (''network'', TStr ''testnet'')])]))"
  by (rule misplaced_network_rejected) (simp, simp)

end
