(* ===== verification/Logging.thy ===== *)
theory Logging
  imports Rust_Str Hash_Map
begin

text \<open>
  \<^verbatim>\<open>src/logging.rs\<close> and the logger of \<^verbatim>\<open>src/disk.rs\<close>. What a component writes is a list of
  output events, a line on the terminal or a record for the logger; the macros of
  \<^verbatim>\<open>logging.rs\<close> are the functions \<open>user_out\<close>, \<open>user_warn\<close>, \<open>user_err\<close> and \<open>prompt\<close>. The file
  logger is a state machine over the log files: daily rotation, one buffered writer, errors
  ignored. Shown: for which file each record is queued, which part of it survives failing writes, and
  that nothing already written changes.
\<close>

section \<open>Output events\<close>

datatype level = Gossip | Trace | Debug | Info | Warn | Error

datatype out_event = Print string | PrintRaw string | EPrint string | Log level string

type_synonym outputs = "out_event list"

definition user_out :: "string \<Rightarrow> outputs" where
  "user_out msg = [Print msg, Log Info msg]"

definition user_warn :: "string \<Rightarrow> outputs" where
  "user_warn msg = [Print (''WARN: '' @ msg), Log Warn msg]"

definition user_err :: "string \<Rightarrow> outputs" where
  "user_err msg = [Print (CHR 0x0A # ''ERROR: '' @ msg), Log Error msg]"

definition prompt :: outputs where
  "prompt = [PrintRaw ''> '']"

definition log_records :: "outputs \<Rightarrow> (level \<times> string) list" where
  "log_records evs = List.map_filter (\<lambda>e. case e of Log l m \<Rightarrow> Some (l, m) | _ \<Rightarrow> None) evs"

section \<open>The file logger\<close>

text \<open>
  \<open>'d\<close> is a calendar date, printed by \<open>fmt_date\<close>. \<open>lw_buf\<close> is what the \<^verbatim>\<open>BufWriter\<close> has taken
  and the operating system has not; the files map a path to its contents.
\<close>

record 'd log_writer =
  lw_path :: string
  lw_buf :: string
  lw_date :: 'd
  lw_dir :: string

type_synonym files = "(string, string) hmap"

definition log_path :: "('d \<Rightarrow> string) \<Rightarrow> string \<Rightarrow> 'd \<Rightarrow> string" where
  "log_path fmt_date dir d = dir @ ''/logs-'' @ fmt_date d @ ''.txt''"

definition open_log_file ::
  "('d \<Rightarrow> string) \<Rightarrow> (string \<Rightarrow> bool) \<Rightarrow> string \<Rightarrow> 'd \<Rightarrow> files \<Rightarrow> (string \<times> files) option" where
  "open_log_file fmt_date can_open dir d fs =
     (let path = log_path fmt_date dir d
      in if can_open path
         then Some (path, case hm_get fs path of None \<Rightarrow> hm_insert path [] fs | Some _ \<Rightarrow> fs)
         else None)"

definition try_new ::
  "('d \<Rightarrow> string) \<Rightarrow> (string \<Rightarrow> bool) \<Rightarrow> (string \<Rightarrow> bool) \<Rightarrow> 'd \<Rightarrow> string \<Rightarrow> files \<Rightarrow>
    ('d log_writer \<times> files) option" where
  "try_new fmt_date create_dir_all can_open today data_dir fs =
     (let logs_dir = data_dir @ ''/logs''
      in if create_dir_all logs_dir
         then map_option (\<lambda>(path, fs'). (\<lparr>lw_path = path, lw_buf = [], lw_date = today, lw_dir = logs_dir\<rparr>, fs'))
                (open_log_file fmt_date can_open logs_dir today fs)
         else None)"

definition level_name :: "level \<Rightarrow> string" where
  "level_name l = (case l of Gossip \<Rightarrow> ''GOSSIP'' | Trace \<Rightarrow> ''TRACE'' | Debug \<Rightarrow> ''DEBUG''
     | Info \<Rightarrow> ''INFO'' | Warn \<Rightarrow> ''WARN'' | Error \<Rightarrow> ''ERROR'')"

record log_record =
  rec_level :: level
  rec_module :: string
  rec_line :: u32
  rec_args :: string

text \<open>\<^verbatim>\<open>"{} {:<5} [{}:{}] {}\n"\<close>; the time stamp is already printed.\<close>

definition log_line :: "string \<Rightarrow> log_record \<Rightarrow> string" where
  "log_line stamp r =
     stamp @ '' '' @ level_name (rec_level r) @
     replicate (5 - length (level_name (rec_level r))) CHR '' '' @
     '' ['' @ rec_module r @ '':'' @ show_nat (unat (rec_line r)) @ ''] '' @ rec_args r @ [CHR 0x0A]"

definition append_file :: "string \<Rightarrow> string \<Rightarrow> files \<Rightarrow> files" where
  "append_file path s fs = hm_modify path (\<lambda>old. old @ s) fs"

text \<open>One flush: the operating system takes the first \<open>n\<close> bytes of the buffer.\<close>

definition flush_writer :: "nat \<Rightarrow> 'd log_writer \<times> files \<Rightarrow> 'd log_writer \<times> files" where
  "flush_writer n = (\<lambda>(w, fs).
     (w\<lparr>lw_buf := drop n (lw_buf w)\<rparr>, append_file (lw_path w) (take n (lw_buf w)) fs))"

text \<open>
  \<^verbatim>\<open>write_all\<close> of a \<^verbatim>\<open>BufWriter\<close>, whose default capacity is 8 KiB. A line that does not fit behind what is
  queued first flushes the buffer, of which the system takes \<open>n\<close> bytes; when some of it stays, the call fails and
  the line is dropped. A line as long as the buffer goes to the file directly, which takes \<open>m\<close> bytes of it.
\<close>

definition DEFAULT_BUF_SIZE :: nat where "DEFAULT_BUF_SIZE = 8192"

definition buf_write_all :: "nat \<Rightarrow> nat \<Rightarrow> string \<Rightarrow> 'd log_writer \<times> files \<Rightarrow> 'd log_writer \<times> files" where
  "buf_write_all n m line = (\<lambda>(w, fs).
     let spare = DEFAULT_BUF_SIZE - length (lw_buf w)
     in if length line < spare then (w\<lparr>lw_buf := lw_buf w @ line\<rparr>, fs)
        else
          let (w', fs') = (if spare < length line then flush_writer n (w, fs) else (w, fs))
          in if spare < length line \<and> lw_buf w' \<noteq> [] then (w', fs')
             else if DEFAULT_BUF_SIZE \<le> length line then (w', append_file (lw_path w') (take m line) fs')
             else (w'\<lparr>lw_buf := lw_buf w' @ line\<rparr>, fs'))"

text \<open>How many bytes the system takes in the flush when the writer is dropped, in the one that makes room, in a direct
  write and in the final flush of a call.\<close>

record log_io =
  io_can_open :: "string \<Rightarrow> bool"
  io_drop_flush :: nat
  io_spill :: nat
  io_direct :: nat
  io_flush :: nat
  io_poisoned :: bool

definition log_to_file ::
  "('d \<Rightarrow> string) \<Rightarrow> log_io \<Rightarrow> 'd \<Rightarrow> string \<Rightarrow> log_record \<Rightarrow> 'd log_writer \<times> files \<Rightarrow>
    ('d log_writer \<times> files) \<times> outputs" where
  "log_to_file fmt_date io today stamp r st =
     (if rec_level r = Gossip then (st, [])
      else
        let line = log_line stamp r
        in if io_poisoned io then (st, [EPrint line])
           else
             let (w, fs) = st;
                 (w, fs) =
                   (if today \<noteq> lw_date w
                    then case open_log_file fmt_date (io_can_open io) (lw_dir w) today fs of
                           Some (path, fs') \<Rightarrow>
                             let (w', fs'') = flush_writer (io_drop_flush io) (w, fs')
                             in (w'\<lparr>lw_path := path, lw_buf := [], lw_date := today\<rparr>, fs'')
                         | None \<Rightarrow> (w, fs)
                    else (w, fs))
             in (flush_writer (io_flush io) (buf_write_all (io_spill io) (io_direct io) line (w, fs)), []))"

section \<open>Lemmas\<close>

lemma log_records_append [simp]: "log_records (xs @ ys) = log_records xs @ log_records ys"
  by (induction xs) (auto simp: log_records_def List.map_filter_simps split: option.splits)

lemma log_records_simps [simp]:
  "log_records [] = []"
  "log_records (Log l m # es) = (l, m) # log_records es"
  "log_records (Print m # es) = log_records es"
  "log_records (PrintRaw m # es) = log_records es"
  "log_records (EPrint m # es) = log_records es"
  by (simp_all add: log_records_def List.map_filter_simps)

lemma get_append_file:
  "hm_get (append_file p s fs) q = (if q = p then map_option (\<lambda>c. c @ s) (hm_get fs p) else hm_get fs q)"
  by (simp add: append_file_def)

definition writer_ok :: "('d \<Rightarrow> string) \<Rightarrow> 'd log_writer \<times> files \<Rightarrow> bool" where
  "writer_ok fmt_date st \<longleftrightarrow>
     (case st of (w, fs) \<Rightarrow>
        lw_path w = log_path fmt_date (lw_dir w) (lw_date w) \<and> hm_get fs (lw_path w) \<noteq> None \<and>
        length (lw_buf w) \<le> DEFAULT_BUF_SIZE)"

lemma try_new_ok:
  "try_new fmt_date mk can_open today dir fs = Some st \<Longrightarrow> writer_ok fmt_date st"
  by (auto simp: try_new_def open_log_file_def writer_ok_def Let_def split: if_splits option.splits)

definition file_of :: "files \<Rightarrow> string \<Rightarrow> string" where
  "file_of fs p = (case hm_get fs p of None \<Rightarrow> [] | Some c \<Rightarrow> c)"

definition log_target :: "('d \<Rightarrow> string) \<Rightarrow> log_io \<Rightarrow> 'd \<Rightarrow> 'd log_writer \<Rightarrow> string" where
  "log_target fmt_date io today w =
     (if today = lw_date w \<or> \<not> io_can_open io (log_path fmt_date (lw_dir w) today) then lw_path w
      else log_path fmt_date (lw_dir w) today)"

text \<open>What each operation of the buffered writer keeps: the file in use with the queue behind it.\<close>

definition queued :: "'d log_writer \<times> files \<Rightarrow> string" where
  "queued st = (case st of (w, fs) \<Rightarrow> file_of fs (lw_path w) @ lw_buf w)"

definition log_extends :: "'d log_writer \<times> files \<Rightarrow> 'd log_writer \<times> files \<Rightarrow> string \<Rightarrow> bool" where
  "log_extends st st' s \<longleftrightarrow> (case (st, st') of ((w, fs), (w', fs')) \<Rightarrow>
     lw_path w' = lw_path w \<and> lw_date w' = lw_date w \<and> lw_dir w' = lw_dir w \<and>
     length (lw_buf w') \<le> DEFAULT_BUF_SIZE \<and> queued st' = queued st @ s \<and>
     hm_get fs' (lw_path w) \<noteq> None \<and> (\<forall>p. p \<noteq> lw_path w \<longrightarrow> hm_get fs' p = hm_get fs p) \<and>
     (\<forall>p c. hm_get fs p = Some c \<longrightarrow> (\<exists>s. hm_get fs' p = Some (c @ s))))"

lemma log_extendsD:
  assumes "log_extends (w, fs) (w', fs') s"
  shows "lw_path w' = lw_path w" "lw_date w' = lw_date w" "lw_dir w' = lw_dir w" "length (lw_buf w') \<le> DEFAULT_BUF_SIZE"
    and "file_of fs' (lw_path w) @ lw_buf w' = file_of fs (lw_path w) @ lw_buf w @ s" "hm_get fs' (lw_path w) \<noteq> None"
    and "p \<noteq> lw_path w \<Longrightarrow> hm_get fs' p = hm_get fs p" "hm_get fs p = Some c \<Longrightarrow> \<exists>s. hm_get fs' p = Some (c @ s)"
  using assms by (auto simp: log_extends_def queued_def)

lemma flush_writer_extends:
  "hm_get fs (lw_path w) \<noteq> None \<Longrightarrow> length (lw_buf w) \<le> DEFAULT_BUF_SIZE \<Longrightarrow> log_extends (w, fs) (flush_writer n (w, fs)) []"
  by (auto simp: log_extends_def flush_writer_def queued_def get_append_file file_of_def)

lemma log_extends_trans: "log_extends a b s \<Longrightarrow> log_extends b c t \<Longrightarrow> log_extends a c (s @ t)"
  unfolding log_extends_def by (clarsimp split: prod.splits) (metis append_assoc)

text \<open>The part of a line that is kept when \<open>q\<close> is queued before it.\<close>

definition kept_part :: "nat \<Rightarrow> nat \<Rightarrow> string \<Rightarrow> string \<Rightarrow> string" where
  "kept_part n m q line =
     (if length q + length line \<le> DEFAULT_BUF_SIZE \<and> length line < DEFAULT_BUF_SIZE then line
      else if length q + length line > DEFAULT_BUF_SIZE \<and> n < length q then []
      else if length line < DEFAULT_BUF_SIZE then line else take m line)"

lemma flush_writer_buf: "lw_buf (fst (flush_writer n (w, fs))) = drop n (lw_buf w)"
  by (simp add: flush_writer_def)

lemma append_file_extends:
  "hm_get fs (lw_path w) \<noteq> None \<Longrightarrow> lw_buf w = [] \<Longrightarrow> log_extends (w, fs) (w, append_file (lw_path w) s fs) s"
  by (auto simp: log_extends_def queued_def get_append_file file_of_def)

lemma push_extends:
  "hm_get fs (lw_path w) \<noteq> None \<Longrightarrow> length (lw_buf w @ s) \<le> DEFAULT_BUF_SIZE \<Longrightarrow>
    log_extends (w, fs) (w\<lparr>lw_buf := lw_buf w @ s\<rparr>, fs) s"
  by (auto simp: log_extends_def queued_def)

lemma buf_write_all_extends:
  assumes "hm_get fs (lw_path w) \<noteq> None" "length (lw_buf w) \<le> DEFAULT_BUF_SIZE"
  shows "log_extends (w, fs) (buf_write_all n m line (w, fs)) (kept_part n m (lw_buf w) line)"
proof (cases "DEFAULT_BUF_SIZE - length (lw_buf w) < length line")
  case True
  obtain w' fs' where f: "flush_writer n (w, fs) = (w', fs')" by (metis prod.exhaust)
  note e = flush_writer_extends [OF assms, of n, unfolded f]
  have buf: "lw_buf w' = drop n (lw_buf w)" using flush_writer_buf [of n w fs] f by simp
  have present: "hm_get fs' (lw_path w') \<noteq> None" using e by (simp add: log_extends_def)
  have "log_extends (w', fs') (buf_write_all n m line (w, fs)) (kept_part n m (lw_buf w) line)"
    using True present buf append_file_extends [OF present, of "take m line"] push_extends [OF present, of line] e
    by (auto simp: buf_write_all_def f kept_part_def log_extends_def)
  with e show ?thesis by (metis append_Nil log_extends_trans)
next
  case False
  show ?thesis
  proof (cases "DEFAULT_BUF_SIZE \<le> length line")
    case True
    with False assms(2) have buf: "lw_buf w = []"
      by (cases "lw_buf w") (simp_all add: DEFAULT_BUF_SIZE_def)
    with True False show ?thesis
      using append_file_extends [OF assms(1) buf, of "take m line"] by (simp add: buf_write_all_def kept_part_def)
  next
    case small: False
    from False assms(2) have fits: "length (lw_buf w) + length line \<le> DEFAULT_BUF_SIZE" by simp
    with small have "kept_part n m (lw_buf w) line = line" by (simp add: kept_part_def)
    moreover have "buf_write_all n m line (w, fs) = (w\<lparr>lw_buf := lw_buf w @ line\<rparr>, fs)"
      using False small by (simp add: buf_write_all_def Let_def)
    ultimately show ?thesis using push_extends [OF assms(1), of line] fits by simp
  qed
qed

lemma open_log_file_keeps:
  assumes "open_log_file fmt_date can_open dir d fs = Some (path, fs')"
  shows "path = log_path fmt_date dir d" "can_open path" "hm_get fs' path \<noteq> None"
    "file_of fs' p = file_of fs p" "hm_get fs p = Some c \<Longrightarrow> hm_get fs' p = Some c"
  using assms by (auto simp: open_log_file_def Let_def file_of_def split: if_splits option.splits)

lemma log_path_inj: "inj fmt_date \<Longrightarrow> log_path fmt_date dir d = log_path fmt_date dir d' \<longleftrightarrow> d = d'"
  by (auto simp: log_path_def inj_def)

lemma logged_line:
  assumes "hm_get fs (lw_path w) \<noteq> None" "length (lw_buf w) \<le> DEFAULT_BUF_SIZE"
  shows "log_extends (w, fs) (flush_writer k (buf_write_all n m line (w, fs))) (kept_part n m (lw_buf w) line)"
proof -
  obtain w' fs' where b: "buf_write_all n m line (w, fs) = (w', fs')" by (metis prod.exhaust)
  note e = buf_write_all_extends [OF assms, of n m line, unfolded b]
  then have "log_extends (w', fs') (flush_writer k (w', fs')) []"
    by (intro flush_writer_extends) (simp_all add: log_extends_def)
  from log_extends_trans [OF e this] show ?thesis by (simp add: b)
qed

text \<open>Logging either stays on the file in use or moves to the file of the day.\<close>

lemma log_to_file_cases:
  assumes "log_to_file fmt_date io today stamp r (w, fs) = ((w', fs'), out)"
    and "rec_level r \<noteq> Gossip" "\<not> io_poisoned io"
  obtains (same) "log_target fmt_date io today w = lw_path w" "out = []"
      "flush_writer (io_flush io) (buf_write_all (io_spill io) (io_direct io) (log_line stamp r) (w, fs)) = (w', fs')"
    | (rotate) path fs1 w2 fs2 where "today \<noteq> lw_date w"
      "open_log_file fmt_date (io_can_open io) (lw_dir w) today fs = Some (path, fs1)"
      "flush_writer (io_drop_flush io) (w, fs1) = (w2, fs2)" "out = []"
      "flush_writer (io_flush io) (buf_write_all (io_spill io) (io_direct io) (log_line stamp r)
         (w2\<lparr>lw_path := path, lw_buf := [], lw_date := today\<rparr>, fs2)) = (w', fs')"
proof (cases "today = lw_date w \<or> \<not> io_can_open io (log_path fmt_date (lw_dir w) today)")
  case True
  then have "open_log_file fmt_date (io_can_open io) (lw_dir w) today fs = None" if "today \<noteq> lw_date w"
    using that by (simp add: open_log_file_def)
  with True assms same show ?thesis by (simp add: log_to_file_def log_target_def split: if_splits)
next
  case False
  then obtain path fs1 where o: "open_log_file fmt_date (io_can_open io) (lw_dir w) today fs = Some (path, fs1)"
    by (simp add: open_log_file_def Let_def)
  obtain w2 fs2 where "flush_writer (io_drop_flush io) (w, fs1) = (w2, fs2)" by (metis prod.exhaust)
  with False assms o rotate show ?thesis by (simp add: log_to_file_def)
qed

section \<open>Properties\<close>

text \<open>C39: the daily log. When the logger handles a record that is not gossip, the line goes behind everything
  queued before, for the file of the day if that file can be opened and for the file in use otherwise. With \<open>q\<close>
  queued from earlier calls, it is taken whole when it fits into the buffer with \<open>q\<close>; otherwise it is lost when the
  system does not take all of \<open>q\<close>, and a line as long as the buffer is cut where the direct write stops. No byte already
  in a log file is changed, the buffer keeps its bound, and the writer stays on the file named after its date.\<close>

theorem log_appends_once:
  assumes ok: "writer_ok fmt_date (w, fs)" and inj: "inj fmt_date"
    and run: "log_to_file fmt_date io today stamp r (w, fs) = ((w', fs'), out)"
    and normal: "rec_level r \<noteq> Gossip" "\<not> io_poisoned io"
    and q: "q = (if log_target fmt_date io today w = lw_path w then lw_buf w else [])" and line: "line = log_line stamp r"
  shows "writer_ok fmt_date (w', fs') \<and> out = [] \<and> lw_path w' = log_target fmt_date io today w \<and>
    file_of fs' (lw_path w') @ lw_buf w' = file_of fs (lw_path w') @ q @
      (if length q + length line \<le> 8192 \<and> length line < 8192 then line
       else if length q + length line > 8192 \<and> io_spill io < length q then []
       else if length line < 8192 then line else take (io_direct io) line) \<and>
    (\<forall>p c. hm_get fs p = Some c \<longrightarrow> (\<exists>s. hm_get fs' p = Some (c @ s)))"
proof -
  have kept: "kept_part (io_spill io) (io_direct io) q line =
      (if length q + length line \<le> 8192 \<and> length line < 8192 then line
       else if length q + length line > 8192 \<and> io_spill io < length q then []
       else if length line < 8192 then line else take (io_direct io) line)"
    by (simp only: kept_part_def DEFAULT_BUF_SIZE_def)
  have wr: "log_extends (v, gs) (flush_writer (io_flush io) (buf_write_all (io_spill io) (io_direct io) line (v, gs)))
      (kept_part (io_spill io) (io_direct io) (lw_buf v) line)"
    if "hm_get gs (lw_path v) \<noteq> None" "length (lw_buf v) \<le> DEFAULT_BUF_SIZE" for v :: "'a log_writer" and gs
    using logged_line [OF that] .
  from run normal show ?thesis
  proof (cases rule: log_to_file_cases)
    case same
    from ok have "log_extends (w, fs) (w', fs') (kept_part (io_spill io) (io_direct io) (lw_buf w) line)"
      using wr [of fs w, unfolded line same(3), folded line] unfolding writer_ok_def by blast
    note f = log_extendsD [OF this]
    have "writer_ok fmt_date (w', fs')" using ok f by (simp add: writer_ok_def)
    moreover have "q = lw_buf w" using same(1) q by simp
    ultimately show ?thesis using f(1,5,8) same(1,2) unfolding kept [symmetric] by simp
  next
    case (rotate path fs1 w2 fs2)
    note o = open_log_file_keeps [OF rotate(2)]
    have present: "hm_get fs1 (lw_path w) \<noteq> None" "length (lw_buf w) \<le> DEFAULT_BUF_SIZE" using ok o(5) by (auto simp: writer_ok_def)
    note f1 = log_extendsD [OF flush_writer_extends [OF present, of "io_drop_flush io", unfolded rotate(3)]]
    have ne: "path \<noteq> lw_path w" using ok o(1) rotate(1) inj by (auto simp: writer_ok_def log_path_inj)
    let ?w = "w2\<lparr>lw_path := path, lw_buf := [], lw_date := today\<rparr>"
    have "hm_get fs2 (lw_path ?w) \<noteq> None" using o(3) f1(7) ne by simp
    with wr [of fs2 ?w] have "log_extends (?w, fs2) (w', fs') (kept_part (io_spill io) (io_direct io) [] line)"
      by (simp add: line rotate(5))
    note f2 = log_extendsD [OF this]
    have "file_of fs2 path = file_of fs path" using f1(7) [OF ne] o(4) by (simp add: file_of_def)
    moreover have "\<exists>s. hm_get fs' p = Some (c @ s)" if "hm_get fs p = Some c" for p c
      using f1(8) [OF o(5) [OF that]] f2(8) by fastforce
    moreover have "q = []" "log_target fmt_date io today w = path"
      using rotate(1) o(1,2) ne by (auto simp: q log_target_def)
    moreover have "writer_ok fmt_date (w', fs')" using f1(3) f2 o(1) by (simp add: writer_ok_def)
    ultimately show ?thesis using f2(1,5) rotate(4) unfolding kept [symmetric] by simp
  qed
qed

text \<open>A new day's file takes the line whole; a full queue that the disk does not take loses it.\<close>

definition full_queue :: string where "full_queue = replicate 8192 CHR ''y''"

lemma length_full_queue [simp]: "length full_queue = 8192"
  unfolding full_queue_def by (rule length_replicate)

theorem log_appends_once_witness:
  "(\<exists>w' fs'. log_to_file show_nat \<lparr>io_can_open = \<lambda>_. True, io_drop_flush = 0, io_spill = 0, io_direct = 0, io_flush = 99, io_poisoned = False\<rparr>
      2 ''t'' \<lparr>rec_level = Info, rec_module = ''m'', rec_line = 7, rec_args = ''x''\<rparr>
      (\<lparr>lw_path = ''d/logs-1.txt'', lw_buf = [], lw_date = 1, lw_dir = ''d''\<rparr>, [(''d/logs-1.txt'', ''old'')]) = ((w', fs'), []) \<and>
    file_of fs' ''d/logs-2.txt'' @ lw_buf w' = ''t INFO  [m:7] x'' @ [CHR 0x0A]) \<and>
   (\<exists>w' fs'. log_to_file show_nat \<lparr>io_can_open = \<lambda>_. True, io_drop_flush = 0, io_spill = 0, io_direct = 0, io_flush = 0, io_poisoned = False\<rparr>
      1 ''t'' \<lparr>rec_level = Info, rec_module = ''m'', rec_line = 7, rec_args = ''x''\<rparr>
      (\<lparr>lw_path = ''d/logs-1.txt'', lw_buf = full_queue, lw_date = 1, lw_dir = ''d''\<rparr>, [(''d/logs-1.txt'', ''old'')]) =
        ((w', fs'), []) \<and>
    file_of fs' ''d/logs-1.txt'' @ lw_buf w' = ''old'' @ full_queue)"
proof -
  let ?io = "\<lambda>n. \<lparr>io_can_open = \<lambda>_. True, io_drop_flush = 0, io_spill = 0, io_direct = 0, io_flush = n, io_poisoned = False\<rparr>"
  let ?r = "\<lparr>rec_level = Info, rec_module = ''m'', rec_line = 7, rec_args = ''x''\<rparr>"
  let ?w = "\<lambda>q. \<lparr>lw_path = ''d/logs-1.txt'', lw_buf = q, lw_date = 1, lw_dir = ''d''\<rparr>"
  let ?fs = "[(''d/logs-1.txt'', ''old'')]"
  have path: "log_path show_nat ''d'' 1 = ''d/logs-1.txt''" "log_path show_nat ''d'' 2 = ''d/logs-2.txt''"
    "file_of ?fs ''d/logs-2.txt'' = []" "file_of ?fs ''d/logs-1.txt'' = ''old''" "hm_get ?fs ''d/logs-1.txt'' = Some ''old''"
    "log_line ''t'' ?r = ''t INFO  [m:7] x'' @ [CHR 0x0A]"
    by code_simp+
  have ok: "writer_ok show_nat (?w q, ?fs)" if "length q \<le> 8192" for q
    using that path by (simp add: writer_ok_def DEFAULT_BUF_SIZE_def)
  obtain w1 fs1 out1 where run1: "log_to_file show_nat (?io 99) 2 ''t'' ?r (?w [], ?fs) = ((w1, fs1), out1)"
    by (metis prod.exhaust)
  obtain w2 fs2 out2 where run2: "log_to_file show_nat (?io 0) 1 ''t'' ?r (?w full_queue, ?fs) = ((w2, fs2), out2)"
    by (metis prod.exhaust)
  have target: "log_target show_nat (?io 99) 2 (?w []) = ''d/logs-2.txt''" "log_target show_nat (?io 0) 1 (?w full_queue) = ''d/logs-1.txt''"
    using path by (simp_all add: log_target_def)
  note p1 = log_appends_once [OF ok inj_show_nat run1 _ _ refl refl]
  note p2 = log_appends_once [OF ok inj_show_nat run2 _ _ refl refl]
  show ?thesis
    using p1 p2 run1 run2 unfolding target path by (auto simp: path)
qed

end
