(* ===== verification/Probe_Runner.thy ===== *)
theory Probe_Runner
  imports Probe_Tracker Reservoir Node_Config Logging
begin

text \<open>
  \<^verbatim>\<open>src/probing/sender.rs\<close> and \<^verbatim>\<open>src/probing/runner.rs\<close>: sending one probe, waiting for its
  result, and the periodic loop over the configured peers and over random nodes of the graph.

  The Lightning library is a parameter: \<open>ldk_view\<close> is what it answers during one attempt. What the
  event handler does to the tracker while the task is suspended is a list of calls, arbitrary in
  number and order, before the registration, during the wait and between the expiry of the timer
  and the clean-up. A poisoned lock is a flag of the attempt. Shown: the outcome of an attempt in
  every such schedule and that it leaves no waiting entry behind; the probes a peer gets; what a
  round over random nodes probes; when the loop runs at all.
\<close>

section \<open>Sending a probe\<close>

datatype 'sf probe_error = NoRoute string | SendFailed 'sf | InvalidInput string

text \<open>
  The route request: \<^verbatim>\<open>PaymentParameters::from_node_id(payee, cltv)\<close> with its
  \<^verbatim>\<open>max_path_count\<close> overwritten, and the amount.
\<close>

record 'pk route_parameters =
  payee :: 'pk
  final_cltv_expiry_delta :: u32
  max_path_count :: u8
  final_value_msat :: u64

record ('pk, 'cd, 'htlcs, 'path, 'sf) ldk_view =
  list_usable_channels :: "'cd list"
  compute_inflight_htlcs :: "'htlcs"
  get_our_node_id :: "'pk"
  find_route :: "'pk \<Rightarrow> 'pk route_parameters \<Rightarrow> 'cd list \<Rightarrow> 'htlcs \<Rightarrow> bytes \<Rightarrow> ('path list, string) result"
  ldk_send_probe :: "'path \<Rightarrow> (payment_hash, 'sf) result"
  scorer_poisoned :: bool

text \<open>\<open>None\<close> is the panic of \<^verbatim>\<open>scorer.read().unwrap()\<close> on a poisoned lock.\<close>

definition send_probe ::
  "('pk, 'cd, 'htlcs, 'path, 'sf) ldk_view \<Rightarrow> 'pk \<Rightarrow> u64 \<Rightarrow> (payment_hash, 'sf probe_error) result option" where
  "send_probe view recipient amount_msat =
     (if scorer_poisoned view then None
      else
        let params = \<lparr>payee = recipient, final_cltv_expiry_delta = 144, max_path_count = 1,
                      final_value_msat = amount_msat\<rparr>
        in Some (
          and_then (map_err NoRoute (find_route view (get_our_node_id view) params
              (list_usable_channels view) (compute_inflight_htlcs view) (replicate 32 32))) (\<lambda>paths.
          and_then (ok_or (NoRoute ''route has no paths'') (case paths of [] \<Rightarrow> None | p # _ \<Rightarrow> Some p)) (\<lambda>path.
            map_err SendFailed (ldk_send_probe view path)))))"

definition prepare_probe ::
  "(bytes \<Rightarrow> 'pk option) \<Rightarrow> ('pk, 'cd, 'htlcs, 'path, 'sf) ldk_view \<Rightarrow> string \<Rightarrow> u64 \<Rightarrow>
    (payment_hash, 'sf probe_error) result option" where
  "prepare_probe from_slice view pub_key_hex probe_amount =
     (if probe_amount = 0 then Some (Inl (InvalidInput ''probe amount must be greater than 0''))
      else case to_vec pub_key_hex of
             None \<Rightarrow> Some (Inl (InvalidInput ''invalid peer pubkey hex''))
           | Some pub_key_bytes \<Rightarrow>
               (case from_slice pub_key_bytes of
                  None \<Rightarrow> Some (Inl (InvalidInput ''invalid peer pubkey''))
                | Some pubkey \<Rightarrow> send_probe view pubkey probe_amount))"

section \<open>Modes and log lines\<close>

record probing_modes =
  peer_list :: bool
  random_graph :: bool

datatype probe_mode = Whitelist | RandomGraph

definition as_str :: "probe_mode \<Rightarrow> string" where
  "as_str m = (case m of Whitelist \<Rightarrow> ''whitelist'' | RandomGraph \<Rightarrow> ''random_graph'')"

datatype 'sf probe_completion =
  Success payment_hash
| Failed payment_hash
| Dropped payment_hash
| Timeout payment_hash
| SendError "'sf probe_error"

definition should_break_peer_amounts :: "'sf probe_completion \<Rightarrow> bool" where
  "should_break_peer_amounts c \<longleftrightarrow> (case c of Success _ \<Rightarrow> False | _ \<Rightarrow> True)"

definition compute_modes :: "probing_config \<Rightarrow> probing_modes" where
  "compute_modes cfg =
     (let has_peer_targets = peers cfg \<noteq> [];
          has_peer_amounts = amount_msats cfg \<noteq> [];
          random_amount_enabled = random_min_amount_msat cfg > 0;
          random_count_enabled = random_nodes_per_interval cfg > 0
      in \<lparr>peer_list = has_peer_targets \<and> has_peer_amounts,
          random_graph = random_amount_enabled \<and> random_count_enabled\<rparr>)"

definition log_mode_warnings :: "probing_config \<Rightarrow> probing_modes \<Rightarrow> outputs" where
  "log_mode_warnings cfg modes =
     (let has_peer_targets = peers cfg \<noteq> []; has_peer_amounts = amount_msats cfg \<noteq> []
      in (if \<not> peer_list modes
          then if \<not> has_peer_targets \<and> has_peer_amounts
               then [Log Warn ''probing.peers is empty in config.toml. Peer-list probing disabled.'']
               else if has_peer_targets \<and> \<not> has_peer_amounts
               then [Log Warn ''probing.amount_msats is empty in config.toml. Peer-list probing disabled.'']
               else []
          else []) @
         (if \<not> random_graph modes \<and> random_min_amount_msat cfg > 0 \<and> random_nodes_per_interval cfg = 0
          then [Log Warn ''probing.random_nodes_per_interval is 0 in config.toml. Random-graph probing disabled.'']
          else []))"

definition show_bool :: "bool \<Rightarrow> string" where
  "show_bool b = (if b then ''true'' else ''false'')"

definition show_u64 :: "u64 \<Rightarrow> string" where
  "show_u64 x = show_nat (unat x)"

text \<open>\<^verbatim>\<open>{:?}\<close> of a slice of integers.\<close>

fun commas :: "string list \<Rightarrow> string" where
  "commas [] = []"
| "commas [x] = x"
| "commas (x # xs) = x @ '', '' @ commas xs"

definition show_u64s :: "u64 list \<Rightarrow> string" where
  "show_u64s xs = ''['' @ commas (map show_u64 xs) @ '']''"

definition log_startup :: "probing_config \<Rightarrow> probing_modes \<Rightarrow> u64 list \<Rightarrow> outputs" where
  "log_startup cfg modes sorted_amounts =
     [Log Info (''Probing started: peer_list_mode='' @ show_bool (peer_list modes) @
        '' ('' @ show_nat (length (peers cfg)) @ '' peers, '' @ show_nat (length sorted_amounts) @
        '' amounts '' @ show_u64s sorted_amounts @ '' msat), random_graph_mode='' @ show_bool (random_graph modes) @
        '' ('' @ show_u64 (random_nodes_per_interval cfg) @ '' nodes/interval at '' @
        show_u64 (random_min_amount_msat cfg) @ '' msat), interval='' @ show_u64 (interval_sec cfg) @
        ''s, timeout='' @ show_u64 (timeout_sec cfg) @ ''s, probe_delay='' @ show_u64 (probe_delay_sec cfg) @
        ''s, peer_delay='' @ show_u64 (peer_delay_sec cfg) @ ''s'')]"

definition log_probe_completed ::
  "('sf \<Rightarrow> string) \<Rightarrow> probe_mode \<Rightarrow> string \<Rightarrow> u64 \<Rightarrow> 'sf probe_completion \<Rightarrow> outputs" where
  "log_probe_completed debug_sf mode dest amount completion =
     (let line = (\<lambda>state detail. ''probe_completed mode='' @ as_str mode @ '' destination_node='' @ dest @
            '' amount_msat='' @ show_u64 amount @ '' state='' @ state @ detail);
          hash = (\<lambda>h. '' payment_hash='' @ hex_str h);
          err = (\<lambda>e. '' error='' @ e)
      in case completion of
           Success h \<Rightarrow> [Log Info (line ''SUCCESS'' (hash h))]
         | Failed h \<Rightarrow> [Log Warn (line ''FAILED'' (hash h))]
         | Dropped h \<Rightarrow> [Log Warn (line ''DROPPED'' (hash h))]
         | Timeout h \<Rightarrow> [Log Warn (line ''TIMEOUT'' (hash h))]
         | SendError (NoRoute e) \<Rightarrow> [Log Warn (line ''NO_ROUTE'' (err e))]
         | SendError (SendFailed e) \<Rightarrow> [Log Warn (line ''SEND_FAILED'' (err (debug_sf e)))]
         | SendError (InvalidInput e) \<Rightarrow> [Log Warn (line ''INVALID_INPUT'' (err e))])"

definition extract_peer_pubkey :: "string \<Rightarrow> string option" where
  "extract_peer_pubkey peer =
     (let pubkey = trim (hd (split_char CHR ''@'' peer))
      in if pubkey = [] then None else Some pubkey)"

section \<open>One attempt\<close>

type_synonym tracker_call = "instant \<times> payment_hash \<times> probe_outcome"

fun other_calls :: "tracker_call list \<Rightarrow> probe_tracker \<Rightarrow> probe_tracker \<times> chan_event list" where
  "other_calls [] t = (t, [])"
| "other_calls ((now, h, r) # cs) t =
     (let (t', evs) = complete_probe now h r t; (t'', evs') = other_calls cs t' in (t'', evs @ evs'))"

record ('pk, 'cd, 'htlcs, 'path, 'sf) attempt_env =
  env_ldk :: "('pk, 'cd, 'htlcs, 'path, 'sf) ldk_view"
  env_before :: "tracker_call list"
  env_reg_at :: instant
  env_reg_lock :: bool
  env_waiting :: "tracker_call list"
  env_late :: "tracker_call list"
  env_mark_at :: "instant \<times> instant"
  env_mark_lock :: bool

record probing_state =
  ps_tracker :: probe_tracker
  ps_next :: chan
  ps_attempt :: nat

text \<open>
  The wait ends with the first thing that happens to the task's channel: a value, the loss of the
  sender, or neither, which is the expiry of the timer.
\<close>

definition run_probe_attempt ::
  "('pk, 'cd, 'htlcs, 'path, 'sf) attempt_env \<Rightarrow> (payment_hash, 'sf probe_error) result \<Rightarrow> probing_state \<Rightarrow>
    'sf probe_completion \<times> probing_state \<times> outputs" where
  "run_probe_attempt env send_result st =
     (let t0 = fst (other_calls (env_before env) (ps_tracker st));
          st0 = st\<lparr>ps_tracker := t0, ps_attempt := Suc (ps_attempt st)\<rparr>
      in case send_result of
           Inl err \<Rightarrow> (SendError err, st0, [])
         | Inr payment_hash \<Rightarrow>
             if \<not> env_reg_lock env
             then (Dropped payment_hash, st0,
                   [Log Error (''Probe tracker mutex poisoned while registering probe '' @
                      hex_str payment_hash @ ''; treating as dropped'')])
             else
               let ch = ps_next st;
                   (t1, evs1) = register_probe (env_reg_at env) ch payment_hash t0;
                   (t2, evs2) = other_calls (env_waiting env) t1;
                   st2 = st0\<lparr>ps_tracker := t2, ps_next := Suc ch\<rparr>
               in case find (\<lambda>e. chan_of e = ch) (evs1 @ evs2) of
                    Some (Sent _ OutcomeSuccess) \<Rightarrow> (Success payment_hash, st2, [])
                  | Some (Sent _ OutcomeFailed) \<Rightarrow> (Failed payment_hash, st2, [])
                  | Some (TxDropped _) \<Rightarrow> (Dropped payment_hash, st2, [])
                  | None \<Rightarrow>
                      let t3 = fst (other_calls (env_late env) t2)
                      in if env_mark_lock env
                         then (Timeout payment_hash,
                               st2\<lparr>ps_tracker := fst (mark_timed_out (fst (env_mark_at env))
                                      (snd (env_mark_at env)) payment_hash t3)\<rparr>, [])
                         else (Timeout payment_hash, st2\<lparr>ps_tracker := t3\<rparr>,
                               [Log Error (''Probe tracker mutex poisoned while marking probe '' @
                                  hex_str payment_hash @ '' timed-out'')]))"

section \<open>The loop\<close>

datatype 'sf act = Out out_event | Sleep u64 | Probed probe_mode string u64 "'sf probe_completion"

record ('pk, 'cd, 'htlcs, 'path, 'sf) probing_params =
  curve_from_slice :: "bytes \<Rightarrow> 'pk option"
  curve_serialize :: "'pk \<Rightarrow> bytes"
  key_alloc :: vec_alloc
  interval_panics :: "u64 \<Rightarrow> bool"
  debug_send_failure :: "'sf \<Rightarrow> string"
  attempt_at :: "nat \<Rightarrow> ('pk, 'cd, 'htlcs, 'path, 'sf) attempt_env"

text \<open>
  \<open>attempt_at n\<close> is the environment of the task's \<open>n\<close>-th attempt; \<open>interval_panics\<close> tells for which periods
  the runtime's interval timer panics when it is created or first ticks, which its documentation promises for zero only. Each function returns whether the
  task panicked, the new state and what it did, in order.
\<close>

definition attempt_acts ::
  "('pk, 'cd, 'htlcs, 'path, 'sf) probing_params \<Rightarrow> probing_config \<Rightarrow> probe_mode \<Rightarrow> string \<Rightarrow> u64 \<Rightarrow>
    'sf probe_completion \<Rightarrow> outputs \<Rightarrow> 'sf act list" where
  "attempt_acts P cfg mode dest amount completion outs =
     map Out outs @ [Probed mode dest amount completion] @
     map Out (log_probe_completed (debug_send_failure P) mode dest amount completion) @
     [Sleep (probe_delay_sec cfg)]"

fun probe_amounts ::
  "('pk, 'cd, 'htlcs, 'path, 'sf) probing_params \<Rightarrow> probing_config \<Rightarrow> string \<Rightarrow> u64 list \<Rightarrow> probing_state \<Rightarrow>
    bool \<times> probing_state \<times> 'sf act list" where
  "probe_amounts P cfg peer_pubkey [] st = (False, st, [])"
| "probe_amounts P cfg peer_pubkey (amount # amounts) st =
     (let env = attempt_at P (ps_attempt st)
      in case prepare_probe (curve_from_slice P) (env_ldk env) peer_pubkey amount of
           None \<Rightarrow> (True, st, [])
         | Some send_result \<Rightarrow>
             let (completion, st', outs) = run_probe_attempt env send_result st;
                 acts = attempt_acts P cfg Whitelist peer_pubkey amount completion outs
             in if should_break_peer_amounts completion then (False, st', acts)
                else let (p, st'', acts') = probe_amounts P cfg peer_pubkey amounts st'
                     in (p, st'', acts @ acts'))"

fun probe_peers ::
  "('pk, 'cd, 'htlcs, 'path, 'sf) probing_params \<Rightarrow> probing_config \<Rightarrow> u64 list \<Rightarrow> nat \<Rightarrow> string list \<Rightarrow>
    probing_state \<Rightarrow> bool \<times> probing_state \<times> 'sf act list" where
  "probe_peers P cfg sorted_amounts peer_idx [] st = (False, st, [])"
| "probe_peers P cfg sorted_amounts peer_idx (peer # ps) st =
     (case extract_peer_pubkey peer of
        None \<Rightarrow>
          let (p, st', acts) = probe_peers P cfg sorted_amounts (Suc peer_idx) ps st
          in (p, st', Out (Log Warn (''Probe skipped: invalid peer entry '' @ [CHR 0x27] @ peer @ [CHR 0x27] @
                '' (expected pubkey@host:port or pubkey)'')) # acts)
      | Some peer_pubkey \<Rightarrow>
          let (p1, st1, acts1) = probe_amounts P cfg peer_pubkey sorted_amounts st
          in if p1 then (True, st1, acts1)
             else
               let delay = (if peer_idx < length (peers cfg) - 1 then [Sleep (peer_delay_sec cfg)] else []);
                   (p2, st2, acts2) = probe_peers P cfg sorted_amounts (Suc peer_idx) ps st1
               in (p2, st2, acts1 @ delay @ acts2))"

fun probe_recipients ::
  "('pk, 'cd, 'htlcs, 'path, 'sf) probing_params \<Rightarrow> probing_config \<Rightarrow> 'pk list \<Rightarrow> probing_state \<Rightarrow>
    bool \<times> probing_state \<times> 'sf act list" where
  "probe_recipients P cfg [] st = (False, st, [])"
| "probe_recipients P cfg (recipient # rs) st =
     (let destination_node = hex_str (curve_serialize P recipient);
          amount = random_min_amount_msat cfg;
          env = attempt_at P (ps_attempt st)
      in case send_probe (env_ldk env) recipient amount of
           None \<Rightarrow> (True, st, [])
         | Some send_result \<Rightarrow>
             let (completion, st', outs) = run_probe_attempt env send_result st;
                 acts = attempt_acts P cfg RandomGraph destination_node amount completion outs;
                 (p, st'', acts') = probe_recipients P cfg rs st'
             in (p, st'', acts @ acts'))"

text \<open>
  What one tick sees: the node ids in the order the graph iterates them, and the generator.
  A \<^verbatim>\<open>NodeId\<close> is the 33 serialized bytes of a key.
\<close>

record tick_env =
  graph_nodes :: "bytes list"
  gen_range :: "nat \<Rightarrow> nat"

definition random_recipients ::
  "('pk, 'cd, 'htlcs, 'path, 'sf) probing_params \<Rightarrow> bytes \<Rightarrow> probing_config \<Rightarrow> tick_env \<Rightarrow> 'pk list option" where
  "random_recipients P our_node_id cfg tick =
     (let requested_count = unat (random_nodes_per_interval cfg)
      in reservoir_sample (key_alloc P)
           (List.map_filter (\<lambda>node_id. if node_id = our_node_id then None else curve_from_slice P node_id)
             (graph_nodes tick))
           requested_count (gen_range tick))"

definition probe_tick ::
  "('pk, 'cd, 'htlcs, 'path, 'sf) probing_params \<Rightarrow> bytes \<Rightarrow> probing_config \<Rightarrow> probing_modes \<Rightarrow> u64 list \<Rightarrow>
    tick_env \<Rightarrow> probing_state \<Rightarrow> bool \<times> probing_state \<times> 'sf act list" where
  "probe_tick P our_node_id cfg modes sorted_amounts tick st =
     (let (p1, st1, acts1) =
            (if peer_list modes then probe_peers P cfg sorted_amounts 0 (peers cfg) st else (False, st, []))
      in if p1 then (True, st1, acts1)
         else if random_graph modes
         then case random_recipients P our_node_id cfg tick of
                None \<Rightarrow> (True, st1, acts1)
              | Some rs \<Rightarrow>
                  if rs = []
                  then (False, st1, acts1 @ [Out (Log Warn ''Random probe skipped: no graph nodes available'')])
                  else let (p2, st2, acts2) = probe_recipients P cfg rs st1 in (p2, st2, acts1 @ acts2)
         else (False, st1, acts1))"

fun probe_ticks ::
  "('pk, 'cd, 'htlcs, 'path, 'sf) probing_params \<Rightarrow> bytes \<Rightarrow> probing_config \<Rightarrow> probing_modes \<Rightarrow> u64 list \<Rightarrow>
    tick_env list \<Rightarrow> probing_state \<Rightarrow> bool \<times> probing_state \<times> 'sf act list" where
  "probe_ticks P our_node_id cfg modes sorted_amounts [] st = (False, st, [])"
| "probe_ticks P our_node_id cfg modes sorted_amounts (tick # ticks) st =
     (let (p1, st1, acts1) = probe_tick P our_node_id cfg modes sorted_amounts tick st
      in if p1 then (True, st1, acts1)
         else let (p2, st2, acts2) = probe_ticks P our_node_id cfg modes sorted_amounts ticks st1
              in (p2, st2, acts1 @ acts2))"

text \<open>
  The loop never ends; \<open>ticks\<close> is the part of it that is observed. An interval of zero makes
  \<^verbatim>\<open>tokio::time::interval\<close> panic.
\<close>

definition spawn_probing_loop ::
  "('pk, 'cd, 'htlcs, 'path, 'sf) probing_params \<Rightarrow> bytes \<Rightarrow> probing_config \<Rightarrow> tick_env list \<Rightarrow> probing_state \<Rightarrow>
    bool \<times> probing_state \<times> 'sf act list" where
  "spawn_probing_loop P our_node_id cfg ticks st =
     (let modes = compute_modes cfg; warnings = map Out (log_mode_warnings cfg modes)
      in if \<not> peer_list modes \<and> \<not> random_graph modes
         then (False, st, warnings @
                [Out (Log Warn ''Probing config does not enable any probing mode. Probing disabled.'')])
         else
           let sorted_amounts = sort (amount_msats cfg);
               startup = warnings @ map Out (log_startup cfg modes sorted_amounts)
           in if interval_panics P (interval_sec cfg) then (True, st, startup)
              else let (p, st', acts) = probe_ticks P our_node_id cfg modes sorted_amounts ticks st
                   in (p, st', startup @ acts))"

section \<open>Calls of other tasks\<close>

definition outcomes_for :: "payment_hash \<Rightarrow> tracker_call list \<Rightarrow> probe_outcome list" where
  "outcomes_for h cs = map (\<lambda>(_, _, r). r) (filter (\<lambda>(_, h', _). h' = h) cs)"

lemma outcomes_for_simps [simp]:
  "outcomes_for h [] = []"
  "outcomes_for h ((now, h', r) # cs) = (if h' = h then r # outcomes_for h cs else outcomes_for h cs)"
  by (simp_all add: outcomes_for_def)

lemma other_calls_Cons:
  "other_calls ((now, h, r) # cs) t =
    (fst (other_calls cs (fst (complete_probe now h r t))),
     snd (complete_probe now h r t) @ snd (other_calls cs (fst (complete_probe now h r t))))"
  by (simp add: case_prod_beta Let_def)

lemma calls_induct [case_names Nil Cons]:
  assumes "\<And>t. P [] t"
    and "\<And>now h r cs t. P cs (fst (complete_probe now h r t)) \<Longrightarrow> P ((now, h, r) # cs) t"
  shows "P cs t"
  by (induction cs arbitrary: t) (auto intro: assms)

lemma find_append: "find P (xs @ ys) = (case find P xs of None \<Rightarrow> find P ys | Some x \<Rightarrow> Some x)"
  by (induction xs) auto

lemma other_calls_wf: "tracker_wf t \<Longrightarrow> tracker_wf (fst (other_calls cs t))"
  by (induction cs t rule: calls_induct) (simp_all add: other_calls_Cons tr.wf_complete del: other_calls.simps(2))

lemma complete_events_at:
  assumes "tracker_wf t"
  shows "snd (complete_probe now h r t) = (case slot_of t h of Waiting c \<Rightarrow> [Sent c r] | _ \<Rightarrow> [])"
  using tr.prune_slot [OF assms, of now h]
  by (cases "slot_of t h") (auto simp: tr.complete_events [OF assms])

lemma slot_complete_not_waiting [simp]: "fst (slot_complete r s) \<noteq> Waiting c"
  by (cases s) auto

lemma complete_slot_waiting:
  "tracker_wf t \<Longrightarrow> slot_of (fst (complete_probe now h r t)) h' = Waiting c \<longleftrightarrow>
    h' \<noteq> h \<and> slot_of t h' = Waiting c"
  by (simp add: tr.complete_slot tr.waiting_prune_iff)

lemma complete_slot_own:
  "tracker_wf t \<Longrightarrow> slot_of t h \<in> {Idle} \<union> range Buffered \<Longrightarrow>
    slot_of (fst (complete_probe now h r t)) h = Buffered r"
  by (auto simp: tr.complete_slot tr.prune_keeps)

lemma complete_slot_other:
  "tracker_wf t \<Longrightarrow> h' \<noteq> h \<Longrightarrow> slot_of t h \<in> {Idle} \<union> range Buffered \<Longrightarrow>
    slot_of (fst (complete_probe now h' r t)) h = slot_of t h"
  by (auto simp: tr.complete_slot tr.prune_keeps)

lemma other_calls_quiet:
  "tracker_wf t \<Longrightarrow> \<forall>h. slot_of t h \<noteq> Waiting ch \<Longrightarrow>
    (\<forall>h. slot_of (fst (other_calls cs t)) h \<noteq> Waiting ch) \<and> ch \<notin> chan_of ` set (snd (other_calls cs t))"
proof (induction cs t rule: calls_induct)
  case (Cons now h r cs t)
  let ?u = "fst (complete_probe now h r t)"
  have "tracker_wf ?u" "\<forall>h. slot_of ?u h \<noteq> Waiting ch" "ch \<notin> chan_of ` set (snd (complete_probe now h r t))"
    using Cons(2,3) by (auto simp: tr.wf_complete complete_slot_waiting complete_events_at split: slot.splits)
  with Cons(1)  show ?case
    by (simp add: other_calls_Cons image_Un del: other_calls.simps(2))
qed simp

lemma other_calls_buffer:
  "tracker_wf t \<Longrightarrow> slot_of t h \<in> {Idle} \<union> range Buffered \<Longrightarrow>
    slot_of (fst (other_calls cs t)) h =
      (if outcomes_for h cs = [] then slot_of t h else Buffered (last (outcomes_for h cs)))"
proof (induction cs t rule: calls_induct)
  case (Cons now h' r cs t)
  let ?u = "fst (complete_probe now h' r t)"
  have u: "tracker_wf ?u" "slot_of ?u h = (if h' = h then Buffered r else slot_of t h)"
    using Cons(2,3) by (auto simp: tr.wf_complete complete_slot_own complete_slot_other)
  then have "slot_of ?u h \<in> {Idle} \<union> range Buffered" using Cons(3) by auto
  with u Cons(1)  show ?case
    by (auto simp: other_calls_Cons simp del: other_calls.simps(2))
qed simp

lemma other_calls_waiting:
  "tracker_wf t \<Longrightarrow> (\<And>h'. slot_of t h' = Waiting ch \<longleftrightarrow> h' = h) \<Longrightarrow>
    find (\<lambda>e. chan_of e = ch) (snd (other_calls cs t)) =
      (case outcomes_for h cs of [] \<Rightarrow> None | r # _ \<Rightarrow> Some (Sent ch r)) \<and>
    (\<forall>h'. slot_of (fst (other_calls cs t)) h' = Waiting ch \<longleftrightarrow> h' = h \<and> outcomes_for h cs = [])"
proof (induction cs t rule: calls_induct)
  case (Cons now k r cs t)
  let ?u = "fst (complete_probe now k r t)"
  have wf: "tracker_wf ?u" using Cons(2) by (rule tr.wf_complete)
  show ?case
  proof (cases "k = h")
    case True
    have "\<forall>h'. slot_of ?u h' \<noteq> Waiting ch" using Cons(2,3) True by (simp add: complete_slot_waiting)
    moreover have "snd (complete_probe now k r t) = [Sent ch r]"
      using Cons(3) [of h] True Cons(2) by (simp add: complete_events_at)
    ultimately show ?thesis
      using other_calls_quiet [OF wf, of ch cs] True by (simp add: other_calls_Cons del: other_calls.simps(2))
  next
    case False
    have "slot_of ?u h' = Waiting ch \<longleftrightarrow> h' = h" for h'
      using Cons(2,3) False by (auto simp: complete_slot_waiting)
    note IH = Cons(1) [OF wf this]
    have "find (\<lambda>e. chan_of e = ch) (snd (complete_probe now k r t)) = None"
      using Cons(3) [of k] False by (auto simp: complete_events_at Cons(2) split: slot.splits)
    then show ?thesis
      using IH False by (simp add: other_calls_Cons find_append del: other_calls.simps(2))
  qed
qed simp

section \<open>The outcome of an attempt\<close>

lemma register_idle:
  assumes "tracker_wf t" "slot_of t h = Idle" "\<forall>h'. slot_of t h' \<noteq> Waiting ch"
  shows "snd (register_probe now ch h t) = []"
    "slot_of (fst (register_probe now ch h t)) h' = Waiting ch \<longleftrightarrow> h' = h"
  using assms by (simp_all add: tr.register_events tr.register_slot tr.prune_keeps tr.waiting_prune_iff)

lemma register_buffered:
  assumes "tracker_wf t" "slot_of t h = Buffered r" "\<forall>h'. slot_of t h' \<noteq> Waiting ch"
  shows "snd (register_probe now ch h t) = [Sent ch r]"
    "slot_of (fst (register_probe now ch h t)) h' \<noteq> Waiting ch"
  using assms by (simp_all add: tr.register_events tr.register_slot tr.prune_keeps tr.waiting_prune_iff)

lemma mark_not_waiting:
  assumes "tracker_wf t" "\<And>h'. slot_of t h' = Waiting ch \<Longrightarrow> h' = h"
  shows "slot_of (fst (mark_timed_out now now' h t)) h' \<noteq> Waiting ch"
    "slot_of (fst (mark_timed_out now now' h t)) h = Expired now'"
proof -
  have e: "fst (slot_timeout now' s) = Expired now'" for s by (cases s) auto
  show "slot_of (fst (mark_timed_out now now' h t)) h' \<noteq> Waiting ch"
    "slot_of (fst (mark_timed_out now now' h t)) h = Expired now'"
    using assms by (auto simp: tr.time_out_slot tr.waiting_prune_iff e)
qed

definition completion_of :: "payment_hash \<Rightarrow> probe_outcome \<Rightarrow> 'sf probe_completion" where
  "completion_of h r = (case r of OutcomeSuccess \<Rightarrow> Success h | OutcomeFailed \<Rightarrow> Failed h)"

definition attempt_spec :: "payment_hash \<Rightarrow> tracker_call list \<Rightarrow> tracker_call list \<Rightarrow> 'sf probe_completion" where
  "attempt_spec h before waiting =
     (if outcomes_for h before \<noteq> [] then completion_of h (last (outcomes_for h before))
      else case outcomes_for h waiting of [] \<Rightarrow> Timeout h | r # _ \<Rightarrow> completion_of h r)"

lemma run_probe_attempt_registered:
  fixes env :: "('pk, 'cd, 'htlcs, 'path, 'sf) attempt_env" and st :: probing_state and h :: payment_hash
  assumes "env_reg_lock env"
  defines "t0 \<equiv> fst (other_calls (env_before env) (ps_tracker st))"
  defines "reg \<equiv> register_probe (env_reg_at env) (ps_next st) h t0"
  defines "w \<equiv> other_calls (env_waiting env) (fst reg)"
  shows "run_probe_attempt env (Inr h) st =
    (let st2 = st\<lparr>ps_tracker := fst w, ps_attempt := Suc (ps_attempt st), ps_next := Suc (ps_next st)\<rparr>;
         t3 = fst (other_calls (env_late env) (fst w))
     in case find (\<lambda>e. chan_of e = ps_next st) (snd reg @ snd w) of
          Some (Sent _ r) \<Rightarrow> (completion_of h r, st2, [])
        | Some (TxDropped _) \<Rightarrow> (Dropped h, st2, [])
        | None \<Rightarrow>
            if env_mark_lock env
            then (Timeout h, st2\<lparr>ps_tracker := fst (mark_timed_out (fst (env_mark_at env)) (snd (env_mark_at env)) h t3)\<rparr>, [])
            else (Timeout h, st2\<lparr>ps_tracker := t3\<rparr>,
                  [Log Error (''Probe tracker mutex poisoned while marking probe '' @ hex_str h @ '' timed-out'')]))"
  using assms(1)
  by (simp add: run_probe_attempt_def Let_def case_prod_beta reg_def w_def t0_def completion_of_def
      split: option.split chan_event.split probe_outcome.split)

lemma attempt_result:
  assumes wf: "tracker_wf (ps_tracker st)" and idle: "slot_of (ps_tracker st) h = Idle"
    and fresh: "\<forall>h'. slot_of (ps_tracker st) h' \<noteq> Waiting (ps_next st)"
    and lock: "env_reg_lock env"
    and run: "run_probe_attempt env (Inr h) st = (completion, st', outs)"
  shows "completion = attempt_spec h (env_before env) (env_waiting env) \<and> tracker_wf (ps_tracker st') \<and>
    (completion \<noteq> Timeout h \<or> env_mark_lock env \<longrightarrow>
      (\<forall>h'. slot_of (ps_tracker st') h' \<noteq> Waiting (ps_next st))) \<and>
    (completion = Timeout h \<and> env_mark_lock env \<longrightarrow>
      slot_of (ps_tracker st') h = Expired (snd (env_mark_at env)))"
proof -
  let ?ch = "ps_next st" and ?t0 = "fst (other_calls (env_before env) (ps_tracker st))"
  let ?reg = "register_probe (env_reg_at env) ?ch h ?t0"
  let ?w = "other_calls (env_waiting env) (fst ?reg)"
  have wf0: "tracker_wf ?t0" using wf by (rule other_calls_wf)
  have quiet0: "\<forall>h'. slot_of ?t0 h' \<noteq> Waiting ?ch" using other_calls_quiet [OF wf fresh] by blast
  have wf1: "tracker_wf (fst ?reg)" using wf0 by (rule tr.wf_register)
  have wf2: "tracker_wf (fst ?w)" using wf1 by (rule other_calls_wf)
  note slot0 = other_calls_buffer [OF wf, of h "env_before env"]
  note run' = run [unfolded run_probe_attempt_registered [OF lock]]
  show ?thesis
  proof (cases "outcomes_for h (env_before env) = []")
    case False
    then have buf: "slot_of ?t0 h = Buffered (last (outcomes_for h (env_before env)))"
      using slot0 idle by simp
    note reg = register_buffered [OF wf0 buf quiet0, of "env_reg_at env"]
    have "\<forall>h'. slot_of (fst ?w) h' \<noteq> Waiting ?ch"
      using other_calls_quiet [OF wf1, of ?ch] reg(2) by blast
    then show ?thesis
      using run' reg(1) wf2 False by (auto simp: Let_def attempt_spec_def completion_of_def split: probe_outcome.splits)
  next
    case True
    then have "slot_of ?t0 h = Idle" using slot0 idle by simp
    note reg = register_idle [OF wf0 this quiet0, of "env_reg_at env"]
    note w = other_calls_waiting [OF wf1 reg(2), of "env_waiting env"]
    show ?thesis
    proof (cases "outcomes_for h (env_waiting env)")
      case (Cons r rs)
      then show ?thesis
        using run' reg(1) w wf2 True by (auto simp: Let_def attempt_spec_def completion_of_def split: probe_outcome.splits)
    next
      case Nil
      let ?t3 = "fst (other_calls (env_late env) (fst ?w))"
      have "\<And>h'. slot_of (fst ?w) h' = Waiting ?ch \<longleftrightarrow> h' = h" using w Nil by simp
      note l = other_calls_waiting [OF wf2 this, of "env_late env"]
      have wf3: "tracker_wf ?t3" using wf2 by (rule other_calls_wf)
      have "\<And>h'. slot_of ?t3 h' = Waiting ?ch \<Longrightarrow> h' = h" using l by simp
      note m = mark_not_waiting [OF wf3 this]
      show ?thesis
        using run' reg(1) w wf3 True Nil m tr.wf_time_out [OF wf3]
        by (auto simp: Let_def attempt_spec_def split: if_splits)
    qed
  qed
qed

section \<open>The probes of a run\<close>

definition probed :: "'sf act list \<Rightarrow> (probe_mode \<times> string \<times> u64 \<times> 'sf probe_completion) list" where
  "probed acts = List.map_filter (\<lambda>a. case a of Probed m d x c \<Rightarrow> Some (m, d, x, c) | _ \<Rightarrow> None) acts"

lemma probed_append [simp]: "probed (xs @ ys) = probed xs @ probed ys"
  by (induction xs) (auto simp: probed_def List.map_filter_simps split: option.splits)

lemma probed_simps [simp]:
  "probed [] = []"
  "probed (Probed m d x c # as) = (m, d, x, c) # probed as"
  "probed (Out e # as) = probed as"
  "probed (Sleep s # as) = probed as"
  by (simp_all add: probed_def List.map_filter_simps)

lemma probed_outs [simp]: "probed (map Out es) = []"
  by (induction es) auto

lemma probed_attempt [simp]: "probed (attempt_acts P cfg m d x c outs) = [(m, d, x, c)]"
  by (simp add: attempt_acts_def)

lemma probe_amounts_shape:
  "probe_amounts P cfg pk amounts st = (p, st', acts) \<Longrightarrow>
    \<exists>n\<le>length amounts. map (\<lambda>(m, d, x, c). (m, d, x)) (probed acts) = map (\<lambda>x. (Whitelist, pk, x)) (take n amounts) \<and>
      list_all (\<lambda>(m, d, x, c). \<not> should_break_peer_amounts c) (butlast (probed acts)) \<and>
      (p \<or> n = length amounts \<or> (probed acts \<noteq> [] \<and> should_break_peer_amounts (snd (snd (snd (last (probed acts)))))))"
proof (induction P cfg pk amounts st arbitrary: p st' acts rule: probe_amounts.induct)
  case (2 P cfg pk x xs st)
  let ?env = "attempt_at P (ps_attempt st)"
  show ?case
  proof (cases "prepare_probe (curve_from_slice P) (env_ldk ?env) pk x")
    case None
    then show ?thesis using 2(2) by (intro exI [of _ 0]) (simp add: Let_def)
  next
    case (Some send_result)
    obtain c st1 outs where run: "run_probe_attempt ?env send_result st = (c, st1, outs)"
      by (metis prod.exhaust)
    show ?thesis
    proof (cases "should_break_peer_amounts c")
      case True
      then show ?thesis
        using 2(2) Some run by (intro exI [of _ 1]) (auto simp: Let_def)
    next
      case False
      obtain p1 st2 acts' where rec: "probe_amounts P cfg pk xs st1 = (p1, st2, acts')"
        by (metis prod.exhaust)
      then obtain n where n: "n \<le> length xs"
        "map (\<lambda>(m, d, x, c). (m, d, x)) (probed acts') = map (\<lambda>x. (Whitelist, pk, x)) (take n xs)"
        "list_all (\<lambda>(m, d, x, c). \<not> should_break_peer_amounts c) (butlast (probed acts'))"
        "p1 \<or> n = length xs \<or> (probed acts' \<noteq> [] \<and> should_break_peer_amounts (snd (snd (snd (last (probed acts'))))))"
        using 2(1) [OF refl Some run [symmetric] refl refl refl False] by blast
      have acts: "p = p1" "probed acts = (Whitelist, pk, x, c) # probed acts'"
        using 2(2) Some run rec False by (auto simp: Let_def)
      show ?thesis
        using n False by (intro exI [of _ "Suc n"]) (auto simp: acts)
    qed
  qed
qed simp

definition allowed_probe ::
  "('pk, 'cd, 'htlcs, 'path, 'sf) probing_params \<Rightarrow> bytes \<Rightarrow> probing_config \<Rightarrow> tick_env list \<Rightarrow>
    probe_mode \<times> string \<times> u64 \<times> 'sf probe_completion \<Rightarrow> bool" where
  "allowed_probe P our_node_id cfg ticks = (\<lambda>(mode, dest, amount, _).
     case mode of
       Whitelist \<Rightarrow>
         peer_list (compute_modes cfg) \<and> amount \<in> set (amount_msats cfg) \<and>
         Some dest \<in> extract_peer_pubkey ` set (peers cfg)
     | RandomGraph \<Rightarrow>
         random_graph (compute_modes cfg) \<and> amount = random_min_amount_msat cfg \<and>
         (\<exists>tick\<in>set ticks. \<exists>node\<in>set (graph_nodes tick). \<exists>pk. node \<noteq> our_node_id \<and>
            curve_from_slice P node = Some pk \<and> dest = hex_str (curve_serialize P pk)))"

lemma probe_amounts_set:
  "probe_amounts P cfg pk amounts st = (p, st', acts) \<Longrightarrow> (m, d, x, c) \<in> set (probed acts) \<Longrightarrow>
    m = Whitelist \<and> d = pk \<and> x \<in> set amounts"
proof -
  assume a: "probe_amounts P cfg pk amounts st = (p, st', acts)" and m: "(m, d, x, c) \<in> set (probed acts)"
  from probe_amounts_shape [OF a] obtain n where
    "map (\<lambda>(m, d, x, c). (m, d, x)) (probed acts) = map (\<lambda>x. (Whitelist, pk, x)) (take n amounts)" by blast
  then have "(m, d, x) \<in> set (map (\<lambda>x. (Whitelist, pk, x)) (take n amounts))"
    using m by (metis (mono_tags, lifting) case_prod_conv image_eqI list.set_map)
  then show ?thesis using set_take_subset by fastforce
qed

lemma probe_peers_set:
  "probe_peers P cfg amounts i ps st = (p, st', acts) \<Longrightarrow> (m, d, x, c) \<in> set (probed acts) \<Longrightarrow>
    m = Whitelist \<and> x \<in> set amounts \<and> Some d \<in> extract_peer_pubkey ` set ps"
proof (induction P cfg amounts i ps st arbitrary: p st' acts rule: probe_peers.induct)
  case (2 P cfg amounts i peer ps st)
  show ?case
  proof (cases "extract_peer_pubkey peer")
    case None
    obtain p1 st1 acts1 where "probe_peers P cfg amounts (Suc i) ps st = (p1, st1, acts1)"
      by (metis prod.exhaust)
    with 2 None show ?thesis by (auto simp: Let_def)
  next
    case (Some pk)
    obtain p1 st1 acts1 where a: "probe_amounts P cfg pk amounts st = (p1, st1, acts1)"
      by (metis prod.exhaust)
    obtain p2 st2 acts2 where b: "probe_peers P cfg amounts (Suc i) ps st1 = (p2, st2, acts2)"
      by (metis prod.exhaust)
    have "set (probed acts) \<subseteq> set (probed acts1) \<union> (if p1 then {} else set (probed acts2))"
      using 2(3) Some a b by (auto simp: Let_def split: if_splits)
    then consider "(m, d, x, c) \<in> set (probed acts1)" | "\<not> p1" "(m, d, x, c) \<in> set (probed acts2)"
      using 2(4) by (auto split: if_splits)
    then show ?thesis
    proof cases
      case 1
      then show ?thesis using probe_amounts_set [OF a] Some by (auto intro: rev_image_eqI)
    next
      case 2
      then show ?thesis using "2.IH"(2) [OF Some a [symmetric] refl refl] b by auto
    qed
  qed
qed simp

lemma probe_recipients_set:
  "probe_recipients P cfg rs st = (p, st', acts) \<Longrightarrow> (m, d, x, c) \<in> set (probed acts) \<Longrightarrow>
    m = RandomGraph \<and> x = random_min_amount_msat cfg \<and> d \<in> (\<lambda>pk. hex_str (curve_serialize P pk)) ` set rs"
proof (induction rs arbitrary: st p st' acts)
  case (Cons r rs)
  let ?env = "attempt_at P (ps_attempt st)"
  obtain send_result where s: "send_probe (env_ldk ?env) r (random_min_amount_msat cfg) = Some send_result"
    using Cons.prems by (cases "send_probe (env_ldk ?env) r (random_min_amount_msat cfg)") (auto simp: Let_def)
  obtain c1 st1 outs where run: "run_probe_attempt ?env send_result st = (c1, st1, outs)"
    by (metis prod.exhaust)
  obtain p1 st2 acts1 where rec: "probe_recipients P cfg rs st1 = (p1, st2, acts1)"
    by (metis prod.exhaust)
  have "probed acts = (RandomGraph, hex_str (curve_serialize P r), random_min_amount_msat cfg, c1) # probed acts1"
    using Cons.prems(1) s run rec by (auto simp: Let_def)
  with Cons.prems(2) Cons.IH [OF rec] show ?case by auto
qed simp

lemma random_recipients_set:
  "random_recipients P our cfg tick = Some rs \<Longrightarrow> pk \<in> set rs \<Longrightarrow>
    \<exists>node\<in>set (graph_nodes tick). node \<noteq> our \<and> curve_from_slice P node = Some pk"
proof -
  let ?f = "\<lambda>node_id. if node_id = our then None else curve_from_slice P node_id"
  assume "random_recipients P our cfg tick = Some rs" "pk \<in> set rs"
  then have "pk \<in> set (List.map_filter ?f (graph_nodes tick))"
    unfolding random_recipients_def Let_def by (blast dest: reservoir_sample_subset)
  then show ?thesis by (auto simp: List.map_filter_def split: if_splits)
qed

lemma probe_tick_allowed:
  assumes "probe_tick P our cfg (compute_modes cfg) (sort (amount_msats cfg)) tick st = (p, st', acts)"
  shows "list_all (allowed_probe P our cfg [tick]) (probed acts)"
proof -
  obtain p1 st1 acts1 where a: "probe_peers P cfg (sort (amount_msats cfg)) 0 (peers cfg) st = (p1, st1, acts1)"
    by (metis prod.exhaust)
  define st0 where "st0 = (if peer_list (compute_modes cfg) then st1 else st)"
  define rs where "rs = (case random_recipients P our cfg tick of None \<Rightarrow> [] | Some rs \<Rightarrow> rs)"
  obtain p2 st2 acts2 where b: "probe_recipients P cfg rs st0 = (p2, st2, acts2)"
    by (metis prod.exhaust)
  have "set (probed acts) \<subseteq>
      (if peer_list (compute_modes cfg) then set (probed acts1) else {}) \<union>
      (if random_graph (compute_modes cfg) then set (probed acts2) else {})"
    using assms a b by (auto simp: probe_tick_def Let_def st0_def rs_def split: if_splits option.splits)
  moreover have "allowed_probe P our cfg [tick] x"
    if "x \<in> set (probed acts1)" "peer_list (compute_modes cfg)" for x
  proof -
    obtain m d y c where x: "x = (m, d, y, c)" by (cases x)
    show ?thesis using probe_peers_set [OF a, of m d y c] that by (simp add: allowed_probe_def x)
  qed
  moreover have "allowed_probe P our cfg [tick] x"
    if "x \<in> set (probed acts2)" "random_graph (compute_modes cfg)" for x
  proof -
    obtain m d y c where x: "x = (m, d, y, c)" by (cases x)
    with probe_recipients_set [OF b, of m d y c] that obtain pk where
      pk: "pk \<in> set rs" "d = hex_str (curve_serialize P pk)"
      and my: "m = RandomGraph" "y = random_min_amount_msat cfg" by auto
    from pk(1) obtain node where "node \<in> set (graph_nodes tick)" "node \<noteq> our" "curve_from_slice P node = Some pk"
      using random_recipients_set [of P our cfg tick rs pk] by (cases "random_recipients P our cfg tick") (auto simp: rs_def)
    then show ?thesis
      using that(2) pk(2) my by (auto simp: allowed_probe_def x)
  qed
  ultimately show ?thesis
    unfolding list_all_iff
    by (cases "peer_list (compute_modes cfg)"; cases "random_graph (compute_modes cfg)") auto
qed

lemma allowed_probe_mono: "allowed_probe P our cfg ticks x \<Longrightarrow> set ticks \<subseteq> set ticks' \<Longrightarrow> allowed_probe P our cfg ticks' x"
  by (cases x) (auto simp: allowed_probe_def split: probe_mode.splits)

lemma probe_ticks_allowed:
  "probe_ticks P our cfg (compute_modes cfg) (sort (amount_msats cfg)) ticks st = (p, st', acts) \<Longrightarrow>
    list_all (allowed_probe P our cfg ticks) (probed acts)"
proof (induction ticks arbitrary: st p st' acts)
  case (Cons tick ticks)
  obtain p1 st1 acts1 where a:
    "probe_tick P our cfg (compute_modes cfg) (sort (amount_msats cfg)) tick st = (p1, st1, acts1)"
    by (metis prod.exhaust)
  obtain p2 st2 acts2 where b:
    "probe_ticks P our cfg (compute_modes cfg) (sort (amount_msats cfg)) ticks st1 = (p2, st2, acts2)"
    by (metis prod.exhaust)
  have "set (probed acts) \<subseteq> set (probed acts1) \<union> set (probed acts2)"
    using Cons.prems a b by (auto split: if_splits)
  moreover have "allowed_probe P our cfg (tick # ticks) x" if "x \<in> set (probed acts1)" for x
    using probe_tick_allowed [OF a] that by (auto simp: list_all_iff intro: allowed_probe_mono)
  moreover have "allowed_probe P our cfg (tick # ticks) x" if "x \<in> set (probed acts2)" for x
    using Cons.IH [OF b] that by (auto simp: list_all_iff intro: allowed_probe_mono)
  ultimately show ?case unfolding list_all_iff by blast
qed simp

lemma send_probe_returns: "\<not> scorer_poisoned view \<Longrightarrow> \<exists>r. send_probe view pk x = Some r"
  by (simp add: send_probe_def Let_def)

lemma prepare_probe_returns: "\<not> scorer_poisoned view \<Longrightarrow> \<exists>r. prepare_probe f view s x = Some r"
  using send_probe_returns by (auto simp: prepare_probe_def split: option.splits)

text \<open>No part of the loop panics while the scorer's lock is sound.\<close>

lemma probe_amounts_survives:
  assumes "\<And>n. \<not> scorer_poisoned (env_ldk (attempt_at P n))"
  shows "\<not> fst (probe_amounts P cfg pk xs st)"
proof (induction xs arbitrary: st)
  case (Cons x xs)
  obtain r where "prepare_probe (curve_from_slice P) (env_ldk (attempt_at P (ps_attempt st))) pk x = Some r"
    using prepare_probe_returns [OF assms] by blast
  with Cons show ?case by (simp add: Let_def case_prod_beta)
qed simp

lemma probe_peers_survives:
  assumes "\<And>n. \<not> scorer_poisoned (env_ldk (attempt_at P n))"
  shows "\<not> fst (probe_peers P cfg xs i ps st)"
  by (induction ps arbitrary: st i)
    (simp_all add: Let_def case_prod_beta probe_amounts_survives [OF assms] split: option.split)

lemma probe_recipients_survives:
  assumes "\<And>n. \<not> scorer_poisoned (env_ldk (attempt_at P n))"
  shows "\<not> fst (probe_recipients P cfg rs st)"
proof (induction rs arbitrary: st)
  case (Cons x rs)
  obtain r where "send_probe (env_ldk (attempt_at P (ps_attempt st))) x (random_min_amount_msat cfg) = Some r"
    using send_probe_returns [OF assms] by blast
  with Cons show ?case by (simp add: Let_def case_prod_beta)
qed simp

lemma random_recipients_None:
  "random_recipients P our cfg tick = None \<longleftrightarrow>
    random_nodes_per_interval cfg \<noteq> 0 \<and> \<not> vec_capacity_ok (key_alloc P) (unat (random_nodes_per_interval cfg))"
  by (simp add: random_recipients_def reservoir_sample_None unat_gt_0)

lemma probe_tick_panics_iff:
  assumes "\<And>n. \<not> scorer_poisoned (env_ldk (attempt_at P n))"
  shows "fst (probe_tick P our cfg modes xs tick st) \<longleftrightarrow>
    random_graph modes \<and> random_nodes_per_interval cfg \<noteq> 0 \<and> \<not> vec_capacity_ok (key_alloc P) (unat (random_nodes_per_interval cfg))"
  using probe_peers_survives [OF assms] probe_recipients_survives [OF assms] random_recipients_None [of P our cfg tick]
  by (auto simp: probe_tick_def Let_def case_prod_beta split: option.split)

lemma probe_ticks_panics_iff:
  assumes "\<And>n. \<not> scorer_poisoned (env_ldk (attempt_at P n))"
  shows "fst (probe_ticks P our cfg modes xs ticks st) \<longleftrightarrow> ticks \<noteq> [] \<and>
    random_graph modes \<and> random_nodes_per_interval cfg \<noteq> 0 \<and> \<not> vec_capacity_ok (key_alloc P) (unat (random_nodes_per_interval cfg))"
  by (induction ticks arbitrary: st) (auto simp: probe_tick_panics_iff [OF assms] case_prod_beta)

text \<open>When the loop dies. With a scorer lock that is never poisoned, the task panics exactly when a mode is enabled and its
  timer panics, or random probing is enabled with a number of nodes whose sample cannot be allocated, in its first tick.\<close>

lemma probing_loop_panics_iff:
  assumes "\<And>n. \<not> scorer_poisoned (env_ldk (attempt_at P n))"
  shows "fst (spawn_probing_loop P our_node_id cfg ticks st) \<longleftrightarrow>
    (peer_list (compute_modes cfg) \<or> random_graph (compute_modes cfg)) \<and> interval_panics P (interval_sec cfg) \<or>
    \<not> interval_panics P (interval_sec cfg) \<and> ticks \<noteq> [] \<and> random_graph (compute_modes cfg) \<and>
    \<not> vec_capacity_ok (key_alloc P) (unat (random_nodes_per_interval cfg))"
  using probe_ticks_panics_iff [OF assms]
  by (auto simp: spawn_probing_loop_def compute_modes_def Let_def case_prod_beta)

section \<open>Properties\<close>

text \<open>C14: the outcome of an attempt under every schedule. The task reports the last result that
  arrived before it registered, else the first that arrived while it waited, else a timeout;
  whatever the other tasks do, its channel is no longer waiting in the tracker afterwards (unless
  the lock was poisoned at the clean-up), and a timeout leaves a tombstone.\<close>

theorem attempt_outcome:
  assumes "tracker_wf (ps_tracker st)" "slot_of (ps_tracker st) h = Idle"
    and "\<forall>h'. slot_of (ps_tracker st) h' \<noteq> Waiting (ps_next st)"
    and "env_reg_lock env"
    and "run_probe_attempt env (Inr h) st = (completion, st', outs)"
  shows "completion = attempt_spec h (env_before env) (env_waiting env) \<and> tracker_wf (ps_tracker st') \<and>
    (completion \<noteq> Timeout h \<or> env_mark_lock env \<longrightarrow>
      (\<forall>h'. slot_of (ps_tracker st') h' \<noteq> Waiting (ps_next st))) \<and>
    (completion = Timeout h \<and> env_mark_lock env \<longrightarrow>
      slot_of (ps_tracker st') h = Expired (snd (env_mark_at env)))"
  using assms by (rule attempt_result)

definition demo_view :: "(bytes, unit, unit, unit, unit) ldk_view" where
  "demo_view = \<lparr>list_usable_channels = [()], compute_inflight_htlcs = (), get_our_node_id = [2],
     find_route = \<lambda>_ _ _ _ _. Inr [()], ldk_send_probe = \<lambda>_. Inr [7], scorer_poisoned = False\<rparr>"

definition demo_attempt :: "(bytes, unit, unit, unit, unit) attempt_env" where
  "demo_attempt = \<lparr>env_ldk = demo_view, env_before = [(1, [9], OutcomeSuccess)], env_reg_at = 2,
     env_reg_lock = True, env_waiting = [(3, [7], OutcomeFailed)], env_late = [], env_mark_at = (4, 5),
     env_mark_lock = True\<rparr>"

definition demo_state :: probing_state where
  "demo_state = \<lparr>ps_tracker = tracker_new, ps_next = 0, ps_attempt = 0\<rparr>"

theorem attempt_outcome_witness:
  "tracker_wf (ps_tracker demo_state) \<and> slot_of (ps_tracker demo_state) [7] = Idle \<and>
    env_reg_lock demo_attempt \<and>
    fst (run_probe_attempt demo_attempt (Inr [7]) demo_state) = Failed [7]"
proof -
  obtain c st' outs where run: "run_probe_attempt demo_attempt (Inr [7]) demo_state = (c, st', outs)"
    by (metis prod.exhaust)
  have pre: "tracker_wf (ps_tracker demo_state)" "slot_of (ps_tracker demo_state) [7] = Idle"
    "\<forall>h'. slot_of (ps_tracker demo_state) h' \<noteq> Waiting (ps_next demo_state)" "env_reg_lock demo_attempt"
    by (simp_all add: demo_state_def demo_attempt_def)
  have "attempt_spec [7] (env_before demo_attempt) (env_waiting demo_attempt) = Failed [7]"
    by (simp add: attempt_spec_def demo_attempt_def completion_of_def)
  with attempt_outcome [OF pre run] pre run show ?thesis by simp
qed


definition demo_cfg :: probing_config where
  "demo_cfg = \<lparr>interval_sec = 300, peers = [''02@h:1''], amount_msats = [5, 3], random_min_amount_msat = 0,
     random_nodes_per_interval = 1, timeout_sec = 60, probe_delay_sec = 1, peer_delay_sec = 2\<rparr>"

definition demo_params :: "(bytes, unit, unit, unit, unit) probing_params" where
  "demo_params = \<lparr>curve_from_slice = Some, curve_serialize = id, key_alloc = \<lparr>elem_size = 64, alloc_ok = \<lambda>bytes. bytes < 2 ^ 40\<rparr>,
     interval_panics = \<lambda>secs. secs = 0, debug_send_failure = \<lambda>_. [],
     attempt_at = \<lambda>n. demo_attempt\<rparr>"



end
