(* ===== verification/Float64.thy ===== *)
theory Float64
  imports Rust_Prelude Complex_Main
begin

text \<open>
  The \<^verbatim>\<open>f64\<close> arithmetic the source uses: a finite value is its rational number and each operation
  is the exact one followed by \<open>f64_round\<close>, rounding to the nearest multiple of the unit in the last
  place, ties to even (53 bits of precision, least exponent -1074). No upper bound is put on the
  exponent: the source only converts such results to integers with the saturating cast, which
  sends an infinity and any value past the range to the same integer. Shown: the relative error of a rounding.
\<close>

section \<open>Rounding\<close>

fun nat_log2 :: "nat \<Rightarrow> nat" where
  "nat_log2 n = (if n < 2 then 0 else Suc (nat_log2 (n div 2)))"

declare nat_log2.simps [simp del]

definition rat_log2 :: "rat \<Rightarrow> int" where
  "rat_log2 x =
     (let (a, b) = quotient_of x;
          k = int (nat_log2 (nat a)) - int (nat_log2 (nat b))
      in if 2 powi k \<le> x then k else k - 1)"

definition round_half_even :: "rat \<Rightarrow> int" where
  "round_half_even m =
     (let f = \<lfloor>m\<rfloor>; d = m - of_int f
      in if d < 1 / 2 then f else if 1 / 2 < d then f + 1 else if even f then f else f + 1)"

definition f64_ulp :: "rat \<Rightarrow> rat" where
  "f64_ulp x = 2 powi (max (rat_log2 \<bar>x\<bar> - 52) (- 1074))"

definition f64_round :: "rat \<Rightarrow> rat" where
  "f64_round x = (if x = 0 then 0 else of_int (round_half_even (x / f64_ulp x)) * f64_ulp x)"

definition f64_mul :: "rat \<Rightarrow> rat \<Rightarrow> rat" where
  "f64_mul x y = f64_round (x * y)"

definition f64_div :: "rat \<Rightarrow> rat \<Rightarrow> rat" where
  "f64_div x y = f64_round (x / y)"

text \<open>\<^verbatim>\<open>u64 as f64\<close>, \<^verbatim>\<open>f64::round\<close> (half away from zero) and the saturating \<^verbatim>\<open>f64 as u32\<close>.\<close>

definition f64_of_u64 :: "u64 \<Rightarrow> rat" where
  "f64_of_u64 n = f64_round (of_nat (unat n))"

definition f64_round_half_away :: "rat \<Rightarrow> int" where
  "f64_round_half_away x = (if 0 \<le> x then \<lfloor>x + 1 / 2\<rfloor> else - \<lfloor>- x + 1 / 2\<rfloor>)"

definition int_as_u32 :: "int \<Rightarrow> u32" where
  "int_as_u32 v = (if v < 0 then 0 else if 2 ^ 32 - 1 < v then - 1 else word_of_int v)"

section \<open>The error of a rounding\<close>

lemma nat_log2_bounds: "0 < n \<Longrightarrow> 2 ^ nat_log2 n \<le> n \<and> n < 2 ^ Suc (nat_log2 n)"
proof (induction n rule: nat_log2.induct)
  case (1 n)
  show ?case
  proof (cases "n < 2")
    case True
    then show ?thesis using 1 by (subst (1 2) nat_log2.simps) simp
  next
    case False
    then have "2 ^ nat_log2 (n div 2) \<le> n div 2 \<and> n div 2 < 2 ^ Suc (nat_log2 (n div 2))"
      using 1 by simp
    moreover have "nat_log2 n = Suc (nat_log2 (n div 2))" using False by (subst nat_log2.simps) simp
    ultimately show ?thesis by (simp, linarith)
  qed
qed

lemma rat_log2_bounds:
  assumes "0 < x"
  shows "2 powi rat_log2 x \<le> x \<and> x < 2 powi (rat_log2 x + 1)"
proof -
  obtain a b where q: "quotient_of x = (a, b)" by (cases "quotient_of x")
  have b: "0 < b" using q quotient_of_denom_pos by blast
  have x: "x = of_int a / of_int b" using q by (rule quotient_of_div)
  have a: "0 < a" using assms x b by (simp add: zero_less_divide_iff)
  let ?i = "nat_log2 (nat a)" and ?j = "nat_log2 (nat b)"
  have na: "int (nat a) = a" and nb: "int (nat b) = b" using a b by simp_all
  have "2 ^ ?i \<le> nat a \<and> nat a < 2 ^ Suc ?i" and "2 ^ ?j \<le> nat b \<and> nat b < 2 ^ Suc ?j"
    using a b by (simp_all only: nat_log2_bounds zero_less_nat_eq)
  then have ia: "2 ^ ?i \<le> a \<and> a < 2 ^ Suc ?i" and jb: "2 ^ ?j \<le> b \<and> b < 2 ^ Suc ?j"
    using na nb by (metis of_nat_le_iff of_nat_less_iff of_nat_numeral of_nat_power)+
  have ra: "(2 :: rat) ^ ?i \<le> of_int a" "of_int a < (2 :: rat) ^ Suc ?i"
    and rb: "(2 :: rat) ^ ?j \<le> of_int b" "of_int b < (2 :: rat) ^ Suc ?j"
    using ia jb by (metis of_int_le_iff of_int_less_iff of_int_numeral of_int_power)+
  have k: "(2 :: rat) powi (int ?i - int ?j) = 2 ^ ?i / 2 ^ ?j" by (simp add: power_int_diff)
  have up: "x < 2 powi (int ?i - int ?j + 1)"
  proof -
    have "x < 2 ^ Suc ?i / of_int b" using ra(2) b x by (simp add: divide_strict_right_mono)
    also have "\<dots> \<le> 2 ^ Suc ?i / 2 ^ ?j" using rb(1) by (intro divide_left_mono) (use b in auto)
    finally show ?thesis by (simp add: power_int_add k mult.commute)
  qed
  have low: "2 powi (int ?i - int ?j - 1) \<le> x"
  proof -
    have "(2 :: rat) ^ ?i / 2 ^ Suc ?j \<le> 2 ^ ?i / of_int b"
      using rb b by (intro divide_left_mono) auto
    also have "\<dots> \<le> x" using ra(1) b x by (simp add: divide_right_mono)
    finally show ?thesis by (simp add: power_int_diff [of "2 :: rat" "int ?i - int ?j" 1] k)
  qed
  show ?thesis
    using up low by (auto simp: rat_log2_def q Let_def)
qed

lemma round_half_even_error: "\<bar>of_int (round_half_even m) - m\<bar> \<le> 1 / 2"
proof -
  have "of_int \<lfloor>m\<rfloor> \<le> m" "m < of_int \<lfloor>m\<rfloor> + 1" by linarith+
  then show ?thesis by (auto simp: round_half_even_def Let_def abs_if) linarith
qed

lemma f64_ulp_pos: "0 < f64_ulp x"
  by (simp add: f64_ulp_def)

lemma f64_ulp_le: "x \<noteq> 0 \<Longrightarrow> f64_ulp x \<le> \<bar>x\<bar> / 2 ^ 52 + 2 powi (- 1074)"
proof -
  assume x: "x \<noteq> 0"
  have "2 powi (rat_log2 \<bar>x\<bar> - 52) \<le> \<bar>x\<bar> / 2 ^ 52"
    using rat_log2_bounds [of "\<bar>x\<bar>"] x by (simp add: power_int_diff divide_right_mono)
  moreover have "f64_ulp x \<le> 2 powi (rat_log2 \<bar>x\<bar> - 52) + 2 powi (- 1074)"
    by (simp add: f64_ulp_def max_def)
  ultimately show ?thesis by linarith
qed

lemma f64_round_error: "\<bar>f64_round x - x\<bar> \<le> \<bar>x\<bar> / 2 ^ 53 + 2 powi (- 1075)"
proof (cases "x = 0")
  case False
  let ?u = "f64_ulp x"
  have "f64_round x - x = (of_int (round_half_even (x / ?u)) - x / ?u) * ?u"
    using False f64_ulp_pos [of x] by (simp add: f64_round_def left_diff_distrib)
  then have "\<bar>f64_round x - x\<bar> = \<bar>of_int (round_half_even (x / ?u)) - x / ?u\<bar> * ?u"
    using f64_ulp_pos [of x] by (simp add: abs_mult)
  also have "\<dots> \<le> 1 / 2 * ?u"
    by (rule mult_right_mono [OF round_half_even_error]) (use f64_ulp_pos [of x] in simp)
  also have "\<dots> \<le> 1 / 2 * (\<bar>x\<bar> / 2 ^ 52 + 2 powi (- 1074))"
    by (rule mult_left_mono [OF f64_ulp_le [OF False]]) simp
  also have "\<dots> = \<bar>x\<bar> / 2 ^ 53 + 2 powi (- 1075)"
    by (simp add: distrib_left power_int_minus)
  finally show ?thesis .
qed (simp add: f64_round_def)

lemma f64_round_half_away_error: "\<bar>of_int (f64_round_half_away x) - x\<bar> \<le> 1 / 2"
  by (simp add: f64_round_half_away_def abs_if) linarith

lemma unat_int_as_u32: "0 \<le> v \<Longrightarrow> v < 2 ^ 32 \<Longrightarrow> int (unat (int_as_u32 v)) = v"
  by (simp add: int_as_u32_def unsigned_of_int take_bit_int_eq_self)

end
