(* ===== verification/Rapid_Sync.thy ===== *)
theory Rapid_Sync
  imports Logging Float64
begin

text \<open>
  \<^verbatim>\<open>src/rapid_sync.rs\<close>: the download of gossip snapshots with retries, their application to the
  network graph, and the time stamp kept in \<^verbatim>\<open>rapid_sync_state\<close>. The HTTP client and the
  snapshot parser are parameters; the state file and the faults of its I/O are explicit. Shown: the
  retry policy, what a download returns, how often progress is logged, the round trip of the time
  stamp, and that no failed or partial save makes the next run skip data.
\<close>

section \<open>Constants and errors\<close>

definition MAX_RETRIES :: nat where "MAX_RETRIES = 3"
definition INITIAL_BACKOFF_MS :: u64 where "INITIAL_BACKOFF_MS = 1000"
definition MAX_BACKOFF_MS :: u64 where "MAX_BACKOFF_MS = 60000"

definition DEFAULT_RAPID_SYNC_URL :: string where
  "DEFAULT_RAPID_SYNC_URL = ''https://rapidsync.lightningdevkit.org/snapshot/''"

datatype io_error = NotFound | InvalidData int_error | OtherIo string

datatype 'ge rapid_sync_error =
  DownloadFailed string
| ParseFailed 'ge
| IoError io_error
| RetryExhausted

section \<open>One download\<close>

record http_response =
  resp_success :: bool
  resp_status :: string
  resp_status_str :: string
  resp_content_length :: "u64 option"
  resp_chunks :: "(bytes, string) result list"

text \<open>The figures of the progress lines: \<^verbatim>\<open>{:.1}\<close> of a size in megabytes, which rounds the exact value of the
  float half to even, and the percentage, truncated by \<^verbatim>\<open>as u32\<close>.\<close>

definition show_mb :: "u64 \<Rightarrow> string" where
  "show_mb n =
     (let tenths = nat (round_half_even (f64_div (f64_of_u64 n) 1048576 * 10))
      in show_nat (tenths div 10) @ ''.'' @ show_nat (tenths mod 10))"

definition progress_pct :: "u64 \<Rightarrow> u64 \<Rightarrow> u32" where
  "progress_pct downloaded content_length =
     int_as_u32 \<lfloor>f64_mul (f64_div (f64_of_u64 downloaded) (f64_of_u64 content_length)) 100\<rfloor>"

record 'ge sync_params =
  http_get :: "string \<Rightarrow> (http_response, string) result"
  debug_ge :: "'ge \<Rightarrow> string"
  show_io :: "io_error \<Rightarrow> string"

fun read_chunks ::
  "u64 \<Rightarrow> u64 \<Rightarrow> u64 \<Rightarrow> u64 \<Rightarrow> bytes \<Rightarrow> (bytes, string) result list \<Rightarrow>
    (bytes, 'ge rapid_sync_error) result \<times> outputs" where
  "read_chunks content_length step next_threshold downloaded data [] = (Inr data, [])"
| "read_chunks content_length step next_threshold downloaded data (chunk # chunks) =
     (case chunk of
        Inl e \<Rightarrow> (Inl (DownloadFailed (''Failed to read chunk: '' @ e)), [])
      | Inr c \<Rightarrow>
          let downloaded' = downloaded + word_of_nat (length c); data' = data @ c
          in if content_length > 0 \<and> downloaded' \<ge> next_threshold
             then let (r, out) = read_chunks content_length step (saturating_add next_threshold step)
                                   downloaded' data' chunks
                  in (r, Log Info (''Download progress: '' @ show_mb downloaded' @ ''MB / '' @ show_mb content_length @
                           ''MB ('' @ show_nat (unat (progress_pct downloaded' content_length)) @ ''%)'') # out)
             else read_chunks content_length step next_threshold downloaded' data' chunks)"

definition progress_step :: "u64 \<Rightarrow> u64" where
  "progress_step content_length = (if content_length > 0 then max (content_length div 10) 1 else - 1)"

definition download_snapshot_attempt ::
  "'ge sync_params \<Rightarrow> string \<Rightarrow> u32 \<Rightarrow> (bytes, 'ge rapid_sync_error) result \<times> outputs" where
  "download_snapshot_attempt P sync_url last_sync =
     (let url = sync_url @ show_nat (unat last_sync);
          out0 = [Log Info (''Downloading rapid gossip snapshot from: '' @ url)]
      in case http_get P url of
           Inl e \<Rightarrow> (Inl (DownloadFailed (''HTTP request failed: '' @ e)), out0)
         | Inr response \<Rightarrow>
             if \<not> resp_success response
             then (Inl (DownloadFailed (''HTTP '' @ resp_status response @ '' - '' @ resp_status_str response)), out0)
             else
               let content_length = (case resp_content_length response of None \<Rightarrow> 0 | Some n \<Rightarrow> n);
                   step = progress_step content_length;
                   (r, out) = read_chunks content_length step step 0 [] (resp_chunks response)
               in case r of
                    Inl e \<Rightarrow> (Inl e, out0 @ out)
                  | Inr data \<Rightarrow>
                      (Inr data, out0 @ out @ [Log Info (''Download complete: '' @ show_mb (word_of_nat (length data)) @ ''MB'')]))"

section \<open>Retries\<close>

datatype sync_act = SOut out_event | SleepMs u64

definition show_sync_error :: "'ge sync_params \<Rightarrow> 'ge rapid_sync_error \<Rightarrow> string" where
  "show_sync_error P e =
     (case e of
        DownloadFailed s \<Rightarrow> ''download failed: '' @ s
      | ParseFailed g \<Rightarrow> ''parse failed: '' @ debug_ge P g
      | IoError i \<Rightarrow> ''I/O error: '' @ show_io P i
      | RetryExhausted \<Rightarrow> ''retry attempts exhausted'')"

text \<open>
  \<open>attempt n\<close> is the \<open>n\<close>-th call of \<^verbatim>\<open>download_snapshot_attempt\<close>: the network may answer each
  call differently.
\<close>

function retry_loop ::
  "('ge rapid_sync_error \<Rightarrow> string) \<Rightarrow> (nat \<Rightarrow> (bytes, 'ge rapid_sync_error) result \<times> outputs) \<Rightarrow> nat \<Rightarrow> u64 \<Rightarrow>
    (bytes, 'ge rapid_sync_error) result \<times> sync_act list" where
  "retry_loop show_e attempt retry_count backoff_ms =
     (let (r, out) = attempt retry_count
      in case r of
           Inr data \<Rightarrow> (Inr data, map SOut out)
         | Inl e \<Rightarrow>
             let retry_count' = retry_count + 1
             in if retry_count' \<ge> MAX_RETRIES
                then (Inl RetryExhausted, map SOut out @
                       [SOut (Log Error (''Rapid gossip sync download failed after '' @ show_nat MAX_RETRIES @ '' attempts''))])
                else
                  let (r', acts) = retry_loop show_e attempt retry_count' (min (backoff_ms * 2) MAX_BACKOFF_MS)
                  in (r', map SOut out @
                       [SOut (Log Warn (''Rapid gossip sync download failed (attempt '' @ show_nat retry_count' @ ''/'' @
                          show_nat MAX_RETRIES @ ''): '' @ show_e e @ ''. Retrying in '' @
                          show_nat (unat backoff_ms) @ ''ms...'')),
                        SleepMs backoff_ms] @ acts))"
  by pat_completeness auto
termination
  by (relation "measure (\<lambda>(_, _, n, _). MAX_RETRIES - n)") auto

declare retry_loop.simps [simp del]

definition download_with_retry ::
  "(nat \<Rightarrow> 'ge sync_params) \<Rightarrow> string \<Rightarrow> u32 \<Rightarrow> (bytes, 'ge rapid_sync_error) result \<times> sync_act list" where
  "download_with_retry P sync_url last_sync =
     retry_loop (show_sync_error (P 0)) (\<lambda>n. download_snapshot_attempt (P n) sync_url last_sync) 0 INITIAL_BACKOFF_MS"

section \<open>The time stamp file\<close>

text \<open>
  The file is missing or holds its contents; reading it may fail (\<open>read_fault\<close>). A save may fail
  to create the file, to write all of it (\<open>short_write = Some k\<close>: \<open>k\<close> bytes arrive) or to sync it.
\<close>

record ts_io =
  read_fault :: "string option"
  create_fault :: "string option"
  short_write :: "(nat \<times> string) option"
  sync_fault :: "string option"

definition load_last_sync_timestamp :: "ts_io \<Rightarrow> string option \<Rightarrow> (u32, io_error) result" where
  "load_last_sync_timestamp io file =
     (case read_fault io of
        Some e \<Rightarrow> Inl (OtherIo e)
      | None \<Rightarrow>
          (case file of
             None \<Rightarrow> Inr 0
           | Some content \<Rightarrow> map_err InvalidData (parse_u32 (trim content))))"

definition save_last_sync_timestamp :: "ts_io \<Rightarrow> u32 \<Rightarrow> string option \<Rightarrow> (unit, io_error) result \<times> string option" where
  "save_last_sync_timestamp io timestamp file =
     (case create_fault io of
        Some e \<Rightarrow> (Inl (OtherIo e), file)
      | None \<Rightarrow>
          let text = show_nat (unat timestamp)
          in case short_write io of
               Some (k, e) \<Rightarrow> (Inl (OtherIo e), Some (take k text))
             | None \<Rightarrow>
                 (case sync_fault io of
                    Some e \<Rightarrow> (Inl (OtherIo e), Some text)
                  | None \<Rightarrow> (Inr (), Some text)))"

section \<open>A synchronisation\<close>

text \<open>
  \<open>update_network_graph\<close> applies a snapshot to the graph and returns the snapshot's own time
  stamp; on an error the graph may have changed as well.
\<close>

record 'g sync_state =
  sync_graph :: 'g
  sync_file :: "string option"

definition sync_network_graph ::
  "(nat \<Rightarrow> 'ge sync_params) \<Rightarrow> (bytes \<Rightarrow> 'g \<Rightarrow> (u32, 'ge) result \<times> 'g) \<Rightarrow> ts_io \<Rightarrow> string \<Rightarrow> 'g sync_state \<Rightarrow>
    (u32, 'ge rapid_sync_error) result \<times> 'g sync_state \<times> sync_act list" where
  "sync_network_graph P update_network_graph io sync_url st =
     (let last_sync = (case load_last_sync_timestamp io (sync_file st) of Inl _ \<Rightarrow> 0 | Inr t \<Rightarrow> t);
          acts0 = [SOut (Log Info (''Starting rapid gossip sync from timestamp: '' @ show_nat (unat last_sync)))];
          (r, acts1) = download_with_retry P sync_url last_sync
      in case r of
           Inl e \<Rightarrow> (Inl e, st, acts0 @ acts1)
         | Inr snapshot_data \<Rightarrow>
             let acts2 = [SOut (Log Info (''Downloaded snapshot of '' @ show_nat (length snapshot_data) @
                            '' bytes, applying to network graph...''))];
                 (u, g) = update_network_graph snapshot_data (sync_graph st);
                 st1 = st\<lparr>sync_graph := g\<rparr>
             in case u of
                  Inl e \<Rightarrow> (Inl (ParseFailed e), st1, acts0 @ acts1 @ acts2)
                | Inr new_timestamp \<Rightarrow>
                    let (s, file) = save_last_sync_timestamp io new_timestamp (sync_file st1);
                        st2 = st1\<lparr>sync_file := file\<rparr>
                    in case s of
                         Inl e \<Rightarrow> (Inl (IoError e), st2, acts0 @ acts1 @ acts2)
                       | Inr _ \<Rightarrow>
                           (Inr new_timestamp, st2, acts0 @ acts1 @ acts2 @
                             [SOut (Log Info (''Rapid gossip sync completed. New timestamp: '' @
                                show_nat (unat new_timestamp)))]))"

text \<open>\<^verbatim>\<open>new\<close>: the client may fail to build (\<open>client_fault\<close>); the manager exists only after a first sync.\<close>

definition rapid_sync_new ::
  "(nat \<Rightarrow> 'ge sync_params) \<Rightarrow> (bytes \<Rightarrow> 'g \<Rightarrow> (u32, 'ge) result \<times> 'g) \<Rightarrow> ts_io \<Rightarrow> string option \<Rightarrow>
    ('ge rapid_sync_error \<Rightarrow> string) \<Rightarrow> string option \<Rightarrow> 'g sync_state \<Rightarrow>
    (string, 'ge rapid_sync_error) result \<times> 'g sync_state \<times> sync_act list" where
  "rapid_sync_new P update_network_graph io client_fault debug_err sync_url st =
     (case client_fault of
        Some e \<Rightarrow> (Inl (DownloadFailed (''Failed to create HTTP client: '' @ e)), st, [])
      | None \<Rightarrow>
          let url = (case sync_url of None \<Rightarrow> DEFAULT_RAPID_SYNC_URL | Some u \<Rightarrow> u);
              (r, st', acts) = sync_network_graph P update_network_graph io url st
          in case r of
               Inr timestamp \<Rightarrow>
                 (Inr url, st', acts @ [SOut (Log Info (''Initial rapid gossip sync completed successfully. Timestamp: '' @
                    show_nat (unat timestamp)))])
             | Inl e \<Rightarrow>
                 (Inl e, st', acts @ [SOut (Log Error (''Initial rapid gossip sync failed: '' @ debug_err e))]))"

section \<open>Lemmas\<close>

lemma chunks_Cons:
  "(\<exists>cs. Inr c # chunks = map Inr cs \<and> d = data @ concat cs) \<longleftrightarrow>
    (\<exists>cs. chunks = map Inr cs \<and> d = (data @ c) @ concat cs)"
  by (auto simp: Cons_eq_map_conv)

lemma read_chunks_Inr:
  "fst (read_chunks cl step nt dl data chunks) = Inr d \<longleftrightarrow>
    (\<exists>cs. chunks = map Inr cs \<and> d = data @ concat cs)"
proof (induction chunks arbitrary: nt dl data)
  case (Cons chunk chunks)
  show ?case
  proof (cases chunk)
    case (Inr c)
    then show ?thesis
      by (simp add: Let_def case_prod_beta Cons.IH chunks_Cons del: append_assoc)
  qed (auto simp: Cons_eq_map_conv)
qed auto

text \<open>Each progress line needs another step of bytes.\<close>

lemma read_chunks_progress:
  "unat dl + (\<Sum>c\<leftarrow>chunks. case c of Inl _ \<Rightarrow> 0 | Inr b \<Rightarrow> length b) \<le> tot \<Longrightarrow> tot < 2 ^ 64 - 1 \<Longrightarrow>
    snd (read_chunks cl step nt dl data chunks :: (bytes, 'ge rapid_sync_error) result \<times> outputs) \<noteq> [] \<Longrightarrow>
    unat nt + (length (snd (read_chunks cl step nt dl data chunks :: (bytes, 'ge rapid_sync_error) result \<times> outputs)) - 1) * unat step \<le> tot"
proof (induction chunks arbitrary: nt dl data)
  case (Cons chunk chunks)
  from Cons.prems(3) obtain c where c: "chunk = Inr c" by (cases chunk) auto
  let ?dl = "dl + word_of_nat (length c)" and ?nt = "saturating_add nt step"
  have dl: "unat ?dl = unat dl + length c"
    using Cons.prems(1,2) by (simp add: c unat_word_ariths unsigned_of_nat take_bit_nat_eq_self)
  let ?rest = "\<Sum>c\<leftarrow>chunks. case c of Inl _ \<Rightarrow> 0 | Inr b \<Rightarrow> length b"
  have le: "unat ?dl + ?rest \<le> tot" using Cons.prems(1) by (simp add: c dl)
  show ?case
  proof (cases "cl > 0 \<and> ?dl \<ge> nt")
    case False
    then have "(read_chunks cl step nt dl data (chunk # chunks) :: (bytes, 'ge rapid_sync_error) result \<times> outputs) = read_chunks cl step nt ?dl (data @ c) chunks"
      by (simp add: c Let_def) blast
    then show ?thesis using Cons.IH [OF le Cons.prems(2)] Cons.prems(3) by simp
  next
    case True
    let ?out = "snd (read_chunks cl step ?nt ?dl (data @ c) chunks :: (bytes, 'ge rapid_sync_error) result \<times> outputs)"
    have nt: "unat nt \<le> tot" using True le by (simp add: word_le_nat_alt)
    have "unat nt + length ?out * unat step \<le> tot"
    proof (cases "?out = []")
      case False
      have IH: "unat ?nt + (length ?out - 1) * unat step \<le> tot"
        by (rule Cons.IH [OF le Cons.prems(2) False])
      then have "unat ?nt < 2 ^ 64 - 1" using Cons.prems(2) by simp
      then have "unat ?nt = unat nt + unat step"
        by (auto simp: unat_saturating_add)
      with IH False show ?thesis by (cases ?out) auto
    qed (insert nt, simp)
    moreover have "length (snd (read_chunks cl step nt dl data (chunk # chunks) :: (bytes, 'ge rapid_sync_error) result \<times> outputs)) = Suc (length ?out)"
      using True by (simp add: c Let_def case_prod_beta)
    ultimately show ?thesis by simp
  qed
qed simp

lemma parse_u32_show [simp]: "parse_u32 (show_nat (unat (t :: u32))) = Inr t"
proof -
  have "unat t \<le> 2 ^ 32 - 1" using unsigned_less [of t, where ?'a = nat] by simp
  then show ?thesis by (simp add: parse_u32_def parse_uint_show_nat)
qed

lemma take_show_nat:
  "k \<noteq> 0 \<Longrightarrow> \<exists>m\<le>n. take k (show_nat n) = show_nat m"
proof (induction n rule: less_induct)
  case (less n)
  show ?case
  proof (cases "length (show_nat n) \<le> k")
    case False
    then have n: "\<not> n < 10" using less.prems by (subst (asm) show_nat.simps) (auto split: if_splits)
    then have s: "show_nat n = show_nat (n div 10) @ [digit_char (n mod 10)]"
      by (subst show_nat.simps) simp
    with False have "take k (show_nat n) = take k (show_nat (n div 10))" by simp
    moreover have "n div 10 < n" using n by simp
    ultimately show ?thesis using less.IH [of "n div 10"] less.prems by (metis le_trans less_imp_le)
  qed auto
qed

lemma parse_u32_show_le:
  assumes "m \<le> unat (t :: u32)"
  shows "\<exists>v. parse_u32 (show_nat m) = Inr v \<and> v \<le> t"
proof -
  have "m < 2 ^ 32" using assms unsigned_less [of t, where ?'a = nat] by simp
  then show ?thesis
    using assms by (simp add: parse_u32_def parse_uint_show_nat word_le_nat_alt unat_word_of_nat)
qed

lemma step_lines_bound:
  assumes "k * max (n div 10) 1 \<le> (n :: nat)"
  shows "k \<le> 19"
proof (cases "n < 10")
  case False
  then have q: "1 \<le> n div 10" by simp
  then have "k * (n div 10) \<le> n" using assms by (simp add: max_def split: if_splits)
  also have "n < 10 * (n div 10) + 10" using mod_less_divisor [of 10 n] div_mult_mod_eq [of n 10] by linarith
  also have "\<dots> \<le> 20 * (n div 10)" using q by simp
  finally show ?thesis by simp
qed (use assms in simp)

lemma unat_progress_step: "0 < cl \<Longrightarrow> unat (progress_step cl) = max (unat cl div 10) 1"
  by (simp add: progress_step_def max_def word_le_nat_alt unat_div)

definition sleeps :: "sync_act list \<Rightarrow> u64 list" where
  "sleeps acts = List.map_filter (\<lambda>a. case a of SleepMs d \<Rightarrow> Some d | _ \<Rightarrow> None) acts"

lemma sleeps_simps [simp]:
  "sleeps [] = []" "sleeps (SleepMs d # as) = d # sleeps as" "sleeps (SOut e # as) = sleeps as"
  by (simp_all add: sleeps_def List.map_filter_simps)

lemma sleeps_append [simp]: "sleeps (xs @ ys) = sleeps xs @ sleeps ys"
  by (induction xs) (auto simp: sleeps_def List.map_filter_simps split: option.splits)

lemma sleeps_outs [simp]: "sleeps (map SOut es) = []"
  by (induction es) auto

lemma retry_ok:
  "fst (attempt n) = Inr d \<Longrightarrow> fst (retry_loop show_e attempt n b) = Inr d \<and> sleeps (snd (retry_loop show_e attempt n b)) = []"
  by (subst (1 2) retry_loop.simps) (simp add: case_prod_beta)

lemma retry_last:
  "fst (attempt n) = Inl e \<Longrightarrow> MAX_RETRIES \<le> Suc n \<Longrightarrow>
    fst (retry_loop show_e attempt n b) = Inl RetryExhausted \<and> sleeps (snd (retry_loop show_e attempt n b)) = []"
  by (subst (1 2) retry_loop.simps) (simp add: case_prod_beta Let_def)

lemma retry_again:
  "fst (attempt n) = Inl e \<Longrightarrow> Suc n < MAX_RETRIES \<Longrightarrow>
    fst (retry_loop show_e attempt n b) = fst (retry_loop show_e attempt (Suc n) (min (b * 2) MAX_BACKOFF_MS)) \<and>
    sleeps (snd (retry_loop show_e attempt n b)) =
      b # sleeps (snd (retry_loop show_e attempt (Suc n) (min (b * 2) MAX_BACKOFF_MS)))"
  by (subst (1 3) retry_loop.simps) (simp add: case_prod_beta Let_def)

lemma retry_loop_error: "fst (retry_loop show_e attempt n b) = Inl e \<Longrightarrow> e = RetryExhausted"
proof (induction "MAX_RETRIES - n" arbitrary: n b rule: less_induct)
  case less
  show ?case
  proof (cases "fst (attempt n)")
    case (Inr d)
    then show ?thesis using less.prems retry_ok [of attempt n d show_e b] by simp
  next
    case (Inl e')
    then show ?thesis
      using less.prems less.hyps [of "Suc n"] retry_last [of attempt n e' show_e b] retry_again [of attempt n e' show_e b]
      by (cases "MAX_RETRIES \<le> Suc n") auto
  qed
qed

lemma download_error: "fst (download_with_retry P url t) = Inl e \<Longrightarrow> e = RetryExhausted"
  unfolding download_with_retry_def by (rule retry_loop_error)

lemma sync_applies:
  assumes "fst (download_with_retry P url (case load_last_sync_timestamp io (sync_file st) of Inl _ \<Rightarrow> 0 | Inr t \<Rightarrow> t)) = Inr data"
    and "upd data (sync_graph st) = (u, g)"
    and "sync_network_graph P upd io url st = (r, st', acts)"
  shows "(r, st') =
    (case u of
       Inl e \<Rightarrow> (Inl (ParseFailed e), st\<lparr>sync_graph := g\<rparr>)
     | Inr t \<Rightarrow>
         (case save_last_sync_timestamp io t (sync_file st) of (s, f) \<Rightarrow>
            (case s of Inl e \<Rightarrow> Inl (IoError e) | Inr _ \<Rightarrow> Inr t, st\<lparr>sync_graph := g, sync_file := f\<rparr>)))"
  using assms by (auto simp: sync_network_graph_def Let_def case_prod_beta split: sum.split_asm sum.split)

lemma load_saved:
  "save_last_sync_timestamp io t file = (Inr x, f) \<Longrightarrow> load_last_sync_timestamp (io\<lparr>read_fault := None\<rparr>) f = Inr t"
  by (auto simp: save_last_sync_timestamp_def load_last_sync_timestamp_def Let_def split: option.splits)

section \<open>Properties\<close>

text \<open>C32: the retry policy. A download makes at most three attempts; it returns the data of the
  first that succeeds, after sleeping one second before the second and two before the third, and
  reports exhaustion exactly when all three failed.\<close>

theorem download_retry_policy:
  "(let A = (\<lambda>n. fst (download_snapshot_attempt (P n) url last_sync));
        (r, acts) = download_with_retry P url last_sync
    in if is_ok (A 0) then r = A 0 \<and> sleeps acts = []
       else if is_ok (A 1) then r = A 1 \<and> sleeps acts = [1000]
       else if is_ok (A 2) then r = A 2 \<and> sleeps acts = [1000, 2000]
       else r = Inl RetryExhausted \<and> sleeps acts = [1000, 2000])"
proof -
  let ?at = "\<lambda>n. download_snapshot_attempt (P n) url last_sync"
  let ?s = "show_sync_error (P 0)"
  note ok = retry_ok [of ?at _ _ ?s] and last = retry_last [of ?at _ _ ?s] and again = retry_again [of ?at _ _ ?s]
  have b: "min 2000 MAX_BACKOFF_MS = 2000" by (simp add: MAX_BACKOFF_MS_def)
  show ?thesis
    using ok [of 0 _ 1000] ok [of 1 _ 2000] ok [of 2] last [of 2] again [of 0 _ 1000] again [of 1 _ 2000]
    by (auto simp: download_with_retry_def INITIAL_BACKOFF_MS_def MAX_RETRIES_def Let_def case_prod_beta b
        is_ok_def numeral_2_eq_2 split: sum.splits)
qed

text \<open>What a download returns. An attempt succeeds exactly when the server answers the request
  for \<open>url\<close> followed by the decimal time stamp with a success status and every chunk arrives, and
  then it returns the chunks in order and nothing else.\<close>

theorem download_attempt_data:
  "fst (download_snapshot_attempt P url last_sync) = Inr data \<longleftrightarrow>
    (\<exists>resp cs. http_get P (url @ show_nat (unat last_sync)) = Inr resp \<and> resp_success resp \<and>
      resp_chunks resp = map Inr cs \<and> data = concat cs)"
proof (cases "http_get P (url @ show_nat (unat last_sync))")
  case (Inr resp)
  let ?cl = "case resp_content_length resp of None \<Rightarrow> 0 | Some n \<Rightarrow> n"
  let ?r = "read_chunks ?cl (progress_step ?cl) (progress_step ?cl) 0 [] (resp_chunks resp)"
  have "fst (download_snapshot_attempt P url last_sync) =
      (if resp_success resp then fst ?r
       else Inl (DownloadFailed (''HTTP '' @ resp_status resp @ '' - '' @ resp_status_str resp)))"
    by (simp add: download_snapshot_attempt_def Let_def Inr case_prod_beta split: sum.split)
  then show ?thesis by (simp add: Inr read_chunks_Inr)
qed (simp add: download_snapshot_attempt_def Let_def)

text \<open>Progress is logged at most a few times. However the body is cut into chunks, a download
  whose body has the announced length logs no more than nineteen progress lines.\<close>

theorem progress_lines_bounded:
  assumes "0 < cl" "cl < - 1"
    and "(\<Sum>c\<leftarrow>chunks. case c of Inl _ \<Rightarrow> 0 | Inr b \<Rightarrow> length b) \<le> unat cl"
  shows "length (snd (read_chunks cl (progress_step cl) (progress_step cl) 0 [] chunks
    :: (bytes, 'ge rapid_sync_error) result \<times> outputs)) \<le> 19"
proof -
  let ?out = "snd (read_chunks cl (progress_step cl) (progress_step cl) 0 [] chunks :: (bytes, 'ge rapid_sync_error) result \<times> outputs)"
  have lt: "unat cl < 2 ^ 64 - 1"
    using assms(2) by (simp add: word_less_nat_alt unsigned_minus_1_eq_mask mask_eq_exp_minus_1)
  have "?out \<noteq> [] \<Longrightarrow> unat (progress_step cl) + (length ?out - 1) * unat (progress_step cl) \<le> unat cl"
    using assms(3) by (intro read_chunks_progress [OF _ lt]) simp_all
  then have "length ?out * unat (progress_step cl) \<le> unat cl" by (cases ?out) auto
  then show ?thesis using assms(1) by (intro step_lines_bound [of _ "unat cl"]) (simp add: unat_progress_step)
qed

definition demo_sync :: "unit sync_params" where
  "demo_sync = \<lparr>http_get = \<lambda>_. Inr \<lparr>resp_success = True, resp_status = [], resp_status_str = [],
       resp_content_length = Some 3, resp_chunks = [Inr [1, 2], Inr [3]]\<rparr>,
     debug_ge = \<lambda>_. [], show_io = \<lambda>_. []\<rparr>"

theorem progress_lines_bounded_witness:
  "length (snd (read_chunks 3 (progress_step 3) (progress_step 3) 0 [] [Inr [1, 2], Inr [3]]
    :: (bytes, unit rapid_sync_error) result \<times> outputs)) \<le> 19"
  by (rule progress_lines_bounded) simp_all

text \<open>C29: the time stamp survives. After a synchronisation that returns \<open>t\<close> the next one starts
  from \<open>t\<close>; one that fails before the snapshot was applied leaves the file alone; and the file
  changes only after the graph took a snapshot.\<close>

theorem sync_timestamp_roundtrip:
  assumes "sync_network_graph P upd io url st = (r, st', acts)"
  shows "(case r of
      Inr t \<Rightarrow> load_last_sync_timestamp (io\<lparr>read_fault := None\<rparr>) (sync_file st') = Inr t \<and>
        (\<exists>data. upd data (sync_graph st) = (Inr t, sync_graph st'))
    | Inl (IoError e) \<Rightarrow> (\<exists>data t. upd data (sync_graph st) = (Inr t, sync_graph st'))
    | Inl _ \<Rightarrow> sync_file st' = sync_file st)"
proof -
  let ?last = "case load_last_sync_timestamp io (sync_file st) of Inl _ \<Rightarrow> 0 | Inr t \<Rightarrow> t"
  let ?d = "download_with_retry P url ?last"
  show ?thesis
  proof (cases "fst ?d")
    case (Inl e)
    then have "e = RetryExhausted" by (rule download_error)
    then show ?thesis using assms Inl by (auto simp: sync_network_graph_def Let_def case_prod_beta)
  next
    case (Inr data)
    obtain u g where u: "upd data (sync_graph st) = (u, g)" by (cases "upd data (sync_graph st)")
    note res = sync_applies [OF Inr u assms]
    show ?thesis
    proof (cases u)
      case (Inr t)
      obtain s f where s: "save_last_sync_timestamp io t (sync_file st) = (s, f)"
        by (cases "save_last_sync_timestamp io t (sync_file st)")
      then show ?thesis using res u Inr load_saved [of io t "sync_file st" _ f] by (cases s) auto
    qed (use res in simp)
  qed
qed

definition demo_ts_io :: ts_io where
  "demo_ts_io = \<lparr>read_fault = None, create_fault = None, short_write = None, sync_fault = None\<rparr>"

theorem sync_timestamp_roundtrip_witness:
  "fst (sync_network_graph (\<lambda>_. demo_sync) (\<lambda>d g. (Inr 42, g @ d)) demo_ts_io ''u/''
      \<lparr>sync_graph = [], sync_file = None\<rparr>) = Inr 42 \<and>
    load_last_sync_timestamp demo_ts_io (sync_file (fst (snd (sync_network_graph (\<lambda>_. demo_sync)
      (\<lambda>d g. (Inr 42, g @ d)) demo_ts_io ''u/'' \<lparr>sync_graph = [], sync_file = None\<rparr>)))) = Inr 42"
proof -
  let ?run = "sync_network_graph (\<lambda>_. demo_sync) (\<lambda>d g. (Inr 42, g @ d)) demo_ts_io ''u/''
      \<lparr>sync_graph = [], sync_file = None\<rparr>"
  have "fst (download_snapshot_attempt demo_sync ''u/'' 0) = Inr [1, 2, 3]"
    by (simp add: download_snapshot_attempt_def demo_sync_def Let_def case_prod_beta read_chunks_Inr split: sum.split)
  then have d: "fst (download_with_retry (\<lambda>_. demo_sync) ''u/''
      (case load_last_sync_timestamp demo_ts_io (sync_file \<lparr>sync_graph = [], sync_file = None\<rparr>) of Inl _ \<Rightarrow> 0 | Inr t \<Rightarrow> t)) = Inr [1, 2, 3]"
    using retry_ok [of "\<lambda>n. download_snapshot_attempt demo_sync ''u/'' 0" 0]
    by (simp add: download_with_retry_def load_last_sync_timestamp_def demo_ts_io_def)
  have io: "demo_ts_io\<lparr>read_fault := None\<rparr> = demo_ts_io" by (simp add: demo_ts_io_def)
  obtain r st' acts where run: "?run = (r, st', acts)" by (metis prod.exhaust)
  have "r = Inr 42"
    using sync_applies [OF d refl run] by (simp add: save_last_sync_timestamp_def demo_ts_io_def Let_def)
  then show ?thesis using sync_timestamp_roundtrip [OF run] by (simp add: run io)
qed

text \<open>No save makes the next run skip gossip. Whatever happens while the stamp is written
  (the file cannot be created, only some bytes arrive, the sync fails), the stamp read back later is
  the old one, none, or one that is not after the new one.\<close>

theorem save_never_skips:
  "(case load_last_sync_timestamp io' (snd (save_last_sync_timestamp io t file)) of
      Inl e \<Rightarrow> True
    | Inr v \<Rightarrow> v \<le> t \<or> load_last_sync_timestamp io' file = Inr v)"
proof -
  have "v \<le> t" if "load_last_sync_timestamp io' (Some (take k (show_nat (unat t)))) = Inr v" for k v
  proof (cases "k = 0")
    case False
    then obtain m where "m \<le> unat t" "take k (show_nat (unat t)) = show_nat m" using take_show_nat by blast
    then show ?thesis
      using that parse_u32_show_le [of m t] by (auto simp: load_last_sync_timestamp_def split: option.splits)
  next
    case True
    then show ?thesis
      using that by (simp add: load_last_sync_timestamp_def parse_u32_def parse_uint_def trim_def split: option.splits)
  qed
  from this this [of "length (show_nat (unat t))"] show ?thesis
    by (auto simp: save_last_sync_timestamp_def Let_def split: option.splits sum.splits)
qed

end
