(* ===== verification/Sweep_Migration.thy ===== *)
theory Sweep_Migration
  imports Logging Hex_Utils
begin

text \<open>
  \<^verbatim>\<open>src/sweep.rs\<close>: the one-time migration of spendable outputs from three directories of an
  older format to the output sweeper. The file system is a state (directories of files, and plain
  files); every system call that can fail asks \<open>sweep_env\<close> whether it does. The key-value store, the
  decoder of descriptors and the sweeper are parameters. Shown: exactly which descriptors of the three directories a
  fault-free migration hands to the sweeper; the sentinel makes it run once and is never
  written when it fails; and which files it deletes without having migrated them.
\<close>

section \<open>State and environment\<close>

type_synonym dir = "(string, bytes) hmap"

record sweep_fs =
  fs_dirs :: "(string, dir) hmap"
  fs_plain :: "(string, bytes) hmap"

record ('e, 'pe, 'd, 'de) sweep_env =
  read_dir_fault :: "string \<Rightarrow> 'e option"
  entry_fault :: "string \<Rightarrow> string \<Rightarrow> 'e option"
  mkdir_fault :: "string \<Rightarrow> 'e option"
  rename_fault :: "string \<Rightarrow> 'e option"
  file_fault :: "string \<Rightarrow> string \<Rightarrow> 'e option"
  metadata_ok :: "string \<Rightarrow> string \<Rightarrow> bool"
  seek_fault :: "string \<Rightarrow> nat \<Rightarrow> 'e option"
  remove_fault :: "string \<Rightarrow> dir \<Rightarrow> ('e \<times> dir) option"
  write_fault :: "string \<Rightarrow> ('e \<times> bytes option) option"
  show_io_error :: "'e \<Rightarrow> string"
  show_persist_error :: "'pe \<Rightarrow> string"
  debug_decode_error :: "'de \<Rightarrow> string"
  secure_random_bytes :: bytes
  kv_write :: "string \<Rightarrow> string \<Rightarrow> string \<Rightarrow> bytes \<Rightarrow> sweep_fs \<Rightarrow> (sweep_fs, 'pe) result"
  read_descriptor :: "bytes \<Rightarrow> ('d \<times> nat, 'de) result"
  best_block_height :: u32
  track_spendable_outputs :: "'d list \<Rightarrow> u32 option \<Rightarrow> bool"

datatype ('e, 'pe) sweep_migration_error = Io string 'e | Persist 'pe | TrackSpendable

definition DEPRECATED_PENDING_SPENDABLE_OUTPUT_DIR :: string where
  "DEPRECATED_PENDING_SPENDABLE_OUTPUT_DIR = ''pending_spendable_outputs''"

definition MIGRATION_SENTINEL_FNAME :: string where
  "MIGRATION_SENTINEL_FNAME = ''.spendable_outputs_migrated''"

section \<open>The steps\<close>

text \<open>A failed \<^verbatim>\<open>fs::write\<close> may have created the file and written a part of it.\<close>

definition write_sentinel :: "('e, 'pe, 'd, 'de) sweep_env \<Rightarrow> string \<Rightarrow> sweep_fs \<Rightarrow> sweep_fs \<times> outputs" where
  "write_sentinel env path fs =
     (case write_fault env path of
        Some (e, left) \<Rightarrow>
          (case left of None \<Rightarrow> fs | Some bs \<Rightarrow> fs\<lparr>fs_plain := hm_insert path bs (fs_plain fs)\<rparr>,
           [Log Warn (''Failed to write migration sentinel '' @ path @ '': '' @ show_io_error env e @
                     ''. Migration will re-run on next startup.'')])
      | None \<Rightarrow> (fs\<lparr>fs_plain := hm_insert path (as_bytes ''ok'') (fs_plain fs)\<rparr>, []))"

definition dir_exists :: "sweep_fs \<Rightarrow> string \<Rightarrow> bool" where
  "dir_exists fs d = (hm_get (fs_dirs fs) d \<noteq> None)"

text \<open>\<^verbatim>\<open>fs::read_dir\<close>: \<open>Inl None\<close> is \<^verbatim>\<open>NotFound\<close>.\<close>

definition read_dir :: "('e, 'pe, 'd, 'de) sweep_env \<Rightarrow> string \<Rightarrow> sweep_fs \<Rightarrow> (string list, 'e option) result" where
  "read_dir env d fs =
     (case hm_get (fs_dirs fs) d of
        None \<Rightarrow> Inl None
      | Some files \<Rightarrow> (case read_dir_fault env d of Some e \<Rightarrow> Inl (Some e) | None \<Rightarrow> Inr (map fst files)))"

definition create_dir :: "string \<Rightarrow> sweep_fs \<Rightarrow> sweep_fs" where
  "create_dir d fs = (if dir_exists fs d then fs else fs\<lparr>fs_dirs := hm_insert d [] (fs_dirs fs)\<rparr>)"

definition rename_file :: "string \<Rightarrow> string \<Rightarrow> string \<Rightarrow> sweep_fs \<Rightarrow> sweep_fs" where
  "rename_file from to name fs =
     (case hm_get (fs_dirs fs) from of
        None \<Rightarrow> fs
      | Some src \<Rightarrow>
          (case hm_get src name of
             None \<Rightarrow> fs
           | Some content \<Rightarrow>
               fs\<lparr>fs_dirs := hm_modify to (hm_insert name content)
                    (hm_insert from (hm_remove name src) (fs_dirs fs))\<rparr>))"

fun move_loop ::
  "('e, 'pe, 'd, 'de) sweep_env \<Rightarrow> string \<Rightarrow> string \<Rightarrow> string list \<Rightarrow> sweep_fs \<Rightarrow>
    (unit, ('e, 'pe) sweep_migration_error) result \<times> sweep_fs \<times> outputs" where
  "move_loop env pending processing [] fs = (Inr (), fs, [])"
| "move_loop env pending processing (name # names) fs =
     (case entry_fault env pending name of
        Some e \<Rightarrow>
          let (r, fs', out) = move_loop env pending processing names fs
          in (r, fs', Log Warn (''Skipping unreadable pending spendable entry: '' @ show_io_error env e) # out)
      | None \<Rightarrow>
          if length name \<noteq> 64 then move_loop env pending processing names fs
          else case mkdir_fault env processing of
                 Some e \<Rightarrow> (Inl (Io ''creating processing dir'' e), fs, [])
               | None \<Rightarrow>
                   let fs1 = create_dir processing fs
                   in case rename_fault env name of
                        Some e \<Rightarrow>
                          let (r, fs', out) = move_loop env pending processing names fs1
                          in (r, fs', Log Warn (''Skipping spendable entry \"'' @ name @ ''\" (rename failed): '' @
                                show_io_error env e) # out)
                      | None \<Rightarrow> move_loop env pending processing names (rename_file pending processing name fs1))"

definition move_pending_to_processing ::
  "('e, 'pe, 'd, 'de) sweep_env \<Rightarrow> string \<Rightarrow> string \<Rightarrow> sweep_fs \<Rightarrow>
    (unit, ('e, 'pe) sweep_migration_error) result \<times> sweep_fs \<times> outputs" where
  "move_pending_to_processing env pending processing fs =
     (case read_dir env pending fs of
        Inl None \<Rightarrow> (Inr (), fs, [])
      | Inl (Some e) \<Rightarrow> (Inl (Io ''reading pending dir'' e), fs, [])
      | Inr names \<Rightarrow> move_loop env pending processing names fs)"

definition file_content :: "sweep_fs \<Rightarrow> string \<Rightarrow> string \<Rightarrow> bytes" where
  "file_content fs d name =
     (case hm_get (fs_dirs fs) d of
        None \<Rightarrow> []
      | Some files \<Rightarrow> (case hm_get files name of None \<Rightarrow> [] | Some c \<Rightarrow> c))"

fun concat_loop ::
  "('e, 'pe, 'd, 'de) sweep_env \<Rightarrow> string \<Rightarrow> sweep_fs \<Rightarrow> string list \<Rightarrow> bytes \<times> outputs" where
  "concat_loop env processing fs [] = ([], [])"
| "concat_loop env processing fs (name # names) =
     (let (bs, out) = concat_loop env processing fs names
      in case entry_fault env processing name of
           Some e \<Rightarrow> (bs, Log Warn (''Skipping unreadable processing spendable entry: '' @ show_io_error env e) # out)
         | None \<Rightarrow>
             (case file_fault env processing name of
                Some e \<Rightarrow> (bs, Log Warn (''Skipping unreadable processing entry '' @ processing @ ''/'' @ name @ '': '' @
                             show_io_error env e) # out)
              | None \<Rightarrow> (file_content fs processing name @ bs, out)))"

definition best_effort_remove_dir :: "('e, 'pe, 'd, 'de) sweep_env \<Rightarrow> string \<Rightarrow> sweep_fs \<Rightarrow> sweep_fs \<times> outputs" where
  "best_effort_remove_dir env d fs =
     (case hm_get (fs_dirs fs) d of
        None \<Rightarrow> (fs, [])
      | Some files \<Rightarrow>
          (case remove_fault env d files of
             None \<Rightarrow> (fs\<lparr>fs_dirs := hm_remove d (fs_dirs fs)\<rparr>, [])
           | Some (e, rest) \<Rightarrow>
               (fs\<lparr>fs_dirs := hm_insert d rest (fs_dirs fs)\<rparr>,
                [Log Warn (''Failed to remove directory '' @ d @ '': '' @ show_io_error env e)])))"

text \<open>The bytes are written without a length prefix, so the stored value is the concatenation itself.\<close>

definition concatenate_processing_outputs ::
  "('e, 'pe, 'd, 'de) sweep_env \<Rightarrow> string \<Rightarrow> sweep_fs \<Rightarrow>
    (unit, ('e, 'pe) sweep_migration_error) result \<times> sweep_fs \<times> outputs" where
  "concatenate_processing_outputs env processing fs =
     (case read_dir env processing fs of
        Inl None \<Rightarrow> (Inr (), fs, [])
      | Inl (Some e) \<Rightarrow> (Inl (Io ''reading processing dir'' e), fs, [])
      | Inr names \<Rightarrow>
          let (outputs, out) = concat_loop env processing fs names
          in if outputs = [] then (Inr (), fs, out)
             else let key = hex_str (secure_random_bytes env)
                  in case kv_write env ''spendable_outputs'' [] key outputs fs of
                       Inl e \<Rightarrow> (Inl (Persist e), fs, out)
                     | Inr fs' \<Rightarrow>
                         let (fs'', out') = best_effort_remove_dir env processing fs'
                         in (Inr (), fs'', out @ out'))"

text \<open>\<open>None\<close>: the loop never ends, as it would with a decoder that succeeds without consuming.\<close>

partial_function (option) read_outputs_loop ::
  "('e, 'pe, 'd, 'de) sweep_env \<Rightarrow> string \<Rightarrow> nat \<Rightarrow> bytes \<Rightarrow> nat \<Rightarrow> 'd list \<Rightarrow> ('d list \<times> outputs) option" where
  "read_outputs_loop env path metadata_len data pos outputs =
     (case seek_fault env path pos of
        Some e \<Rightarrow> Some (outputs, [Log Warn (''Aborting spendable file '' @ path @ '': stream_position failed: '' @
                     show_io_error env e)])
      | None \<Rightarrow>
          if pos \<ge> metadata_len then Some (outputs, [])
          else (case read_descriptor env (drop pos data) of
                  Inl e \<Rightarrow> Some (outputs, [Log Warn (''Aborting spendable file '' @ path @
                             '': decode failed at offset '' @ show_nat pos @ '': '' @ debug_decode_error env e @ ''. '' @
                             show_nat (length outputs) @ '' descriptors recovered so far.'')])
                | Inr (descriptor, n) \<Rightarrow>
                    read_outputs_loop env path metadata_len data (pos + n) (outputs @ [descriptor])))"

definition read_outputs_from_file ::
  "('e, 'pe, 'd, 'de) sweep_env \<Rightarrow> sweep_fs \<Rightarrow> string \<Rightarrow> string \<Rightarrow> 'd list \<Rightarrow> ('d list \<times> outputs) option" where
  "read_outputs_from_file env fs d name outputs =
     (let path = d @ ''/'' @ name; data = file_content fs d name
      in case file_fault env d name of
           Some e \<Rightarrow> Some (outputs, [Log Warn (''Skipping spendable file '' @ path @ '': open failed: '' @ show_io_error env e)])
         | None \<Rightarrow>
             read_outputs_loop env path (if metadata_ok env d name then length data else 0) data 0 outputs)"

fun read_all_loop ::
  "('e, 'pe, 'd, 'de) sweep_env \<Rightarrow> sweep_fs \<Rightarrow> string \<Rightarrow> string list \<Rightarrow> 'd list \<Rightarrow> ('d list \<times> outputs) option" where
  "read_all_loop env fs d [] outputs = Some (outputs, [])"
| "read_all_loop env fs d (name # names) outputs =
     (case entry_fault env d name of
        Some e \<Rightarrow> map_option (\<lambda>(os, out). (os, Log Warn (''Skipping unreadable spendable entry: '' @ show_io_error env e) # out))
                    (read_all_loop env fs d names outputs)
      | None \<Rightarrow>
          (case read_outputs_from_file env fs d name outputs of
             None \<Rightarrow> None
           | Some (outputs', out) \<Rightarrow> map_option (\<lambda>(os, out'). (os, out @ out')) (read_all_loop env fs d names outputs')))"

definition read_all_spendable_outputs ::
  "('e, 'pe, 'd, 'de) sweep_env \<Rightarrow> string \<Rightarrow> sweep_fs \<Rightarrow> ('d list \<times> outputs) option" where
  "read_all_spendable_outputs env d fs =
     (case read_dir env d fs of
        Inl None \<Rightarrow> Some ([], [])
      | Inl (Some e) \<Rightarrow> Some ([], [Log Warn (''Skipping spendable_outputs directory (read failed): '' @ show_io_error env e)])
      | Inr names \<Rightarrow> read_all_loop env fs d names [])"

section \<open>The migration\<close>

record ('e, 'pe, 'd) migration_result =
  mig_result :: "(nat, ('e, 'pe) sweep_migration_error) result"
  mig_fs :: sweep_fs
  mig_tracked :: "'d list"
  mig_out :: outputs

definition pending_dir :: "string \<Rightarrow> string" where
  "pending_dir dir = dir @ ''/'' @ DEPRECATED_PENDING_SPENDABLE_OUTPUT_DIR"

definition processing_dir :: "string \<Rightarrow> string" where
  "processing_dir dir = dir @ ''/processing_spendable_outputs''"

definition spendables_dir :: "string \<Rightarrow> string" where
  "spendables_dir dir = dir @ ''/spendable_outputs''"

definition sentinel_path :: "string \<Rightarrow> string" where
  "sentinel_path dir = dir @ ''/'' @ MIGRATION_SENTINEL_FNAME"

definition try_migrate_deprecated_spendable_outputs ::
  "('e, 'pe, 'd, 'de) sweep_env \<Rightarrow> string \<Rightarrow> sweep_fs \<Rightarrow> ('e, 'pe, 'd) migration_result option" where
  "try_migrate_deprecated_spendable_outputs env ldk_data_dir fs =
     (let sentinel = sentinel_path ldk_data_dir;
          pending = pending_dir ldk_data_dir;
          processing = processing_dir ldk_data_dir;
          spendables = spendables_dir ldk_data_dir;
          res = (\<lambda>r fs tracked out. Some \<lparr>mig_result = r, mig_fs = fs, mig_tracked = tracked, mig_out = out\<rparr>)
      in if hm_get (fs_plain fs) sentinel \<noteq> None
         then res (Inr 0) fs [] [Log Debug ''Spendable-outputs migration already completed; skipping'']
         else
           let out0 = [Log Info ''Beginning migration of deprecated spendable outputs'']
           in if \<not> dir_exists fs pending \<and> \<not> dir_exists fs processing \<and> \<not> dir_exists fs spendables
              then let (fs', out) = write_sentinel env sentinel fs
                   in res (Inr 0) fs' [] (out0 @ [Log Info ''No deprecated spendable outputs to migrate''] @ out)
              else
                let (r1, fs1, out1) = move_pending_to_processing env pending processing fs
                in case r1 of
                     Inl e \<Rightarrow> res (Inl e) fs1 [] (out0 @ out1)
                   | Inr _ \<Rightarrow>
                let (r2, fs2, out2) = concatenate_processing_outputs env processing fs1
                in case r2 of
                     Inl e \<Rightarrow> res (Inl e) fs2 [] (out0 @ out1 @ out2)
                   | Inr _ \<Rightarrow>
                case read_all_spendable_outputs env spendables fs2 of
                  None \<Rightarrow> None
                | Some (outputs, out3) \<Rightarrow>
                let migrated_count = length outputs
                in if migrated_count > 0 \<and>
                      \<not> track_spendable_outputs env outputs (Some (best_block_height env + 2))
                   then res (Inl TrackSpendable) fs2 [] (out0 @ out1 @ out2 @ out3)
                   else
                     let (fs3, out4) = best_effort_remove_dir env spendables fs2;
                         (fs4, out5) = best_effort_remove_dir env pending fs3;
                         (fs5, out6) = write_sentinel env sentinel fs4
                     in res (Inr migrated_count) fs5 outputs
                          (out0 @ out1 @ out2 @ out3 @ out4 @ out5 @ out6 @
                           [Log Info (''Successfully migrated '' @ show_nat migrated_count @ '' deprecated spendable outputs'')]))"

definition show_migration_error :: "('e, 'pe, 'd, 'de) sweep_env \<Rightarrow> ('e, 'pe) sweep_migration_error \<Rightarrow> string" where
  "show_migration_error env e =
     (case e of
        Io ctx s \<Rightarrow> ''I/O error while '' @ ctx @ '': '' @ show_io_error env s
      | Persist p \<Rightarrow> ''failed to persist migrated outputs: '' @ show_persist_error env p
      | TrackSpendable \<Rightarrow> ''failed to track migrated outputs with sweeper'')"

definition migrate_deprecated_spendable_outputs ::
  "('e, 'pe, 'd, 'de) sweep_env \<Rightarrow> string \<Rightarrow> sweep_fs \<Rightarrow> (sweep_fs \<times> 'd list \<times> outputs) option" where
  "migrate_deprecated_spendable_outputs env ldk_data_dir fs =
     map_option (\<lambda>m. (mig_fs m, mig_tracked m,
         mig_out m @
         (case mig_result m of
            Inr _ \<Rightarrow> []
          | Inl e \<Rightarrow> [Log Error (''Deprecated spendable outputs migration failed: '' @ show_migration_error env e @
                       ''. On-disk state is preserved; node continues.'')])))
       (try_migrate_deprecated_spendable_outputs env ldk_data_dir fs)"

section \<open>Decoding\<close>

definition dir_of :: "sweep_fs \<Rightarrow> string \<Rightarrow> dir" where
  "dir_of fs d = (case hm_get (fs_dirs fs) d of None \<Rightarrow> [] | Some files \<Rightarrow> files)"

text \<open>The descriptors of a byte string up to its end or to the first one that does not decode.\<close>

function recovered :: "(bytes \<Rightarrow> ('d \<times> nat, 'de) result) \<Rightarrow> bytes \<Rightarrow> 'd list" where
  "recovered rd bs =
     (if bs = [] then []
      else case rd bs of Inl e \<Rightarrow> [] | Inr (d, n) \<Rightarrow> if n = 0 then [] else d # recovered rd (drop n bs))"
  by pat_completeness auto
termination by (relation "measure (\<lambda>(rd, bs). length bs)") (auto simp: length_greater_0_conv)

declare recovered.simps [simp del]

lemma recovered_Nil [simp]: "recovered rd [] = []"
  by (simp add: recovered.simps)

text \<open>A byte string is the encoding of a list of descriptors.\<close>

inductive decodes :: "(bytes \<Rightarrow> ('d \<times> nat, 'de) result) \<Rightarrow> bytes \<Rightarrow> 'd list \<Rightarrow> bool" for rd where
  nil: "decodes rd [] []"
| cons: "rd bs = Inr (d, n) \<Longrightarrow> 0 < n \<Longrightarrow> n \<le> length bs \<Longrightarrow> decodes rd (drop n bs) ds \<Longrightarrow> decodes rd bs (d # ds)"

definition self_delimiting :: "(bytes \<Rightarrow> ('d \<times> nat, 'de) result) \<Rightarrow> bool" where
  "self_delimiting rd \<longleftrightarrow> (\<forall>a b d n. rd a = Inr (d, n) \<longrightarrow> n \<le> length a \<longrightarrow> rd (a @ b) = Inr (d, n))"

lemma decodes_append:
  "decodes rd a xs \<Longrightarrow> self_delimiting rd \<Longrightarrow> decodes rd b ys \<Longrightarrow> decodes rd (a @ b) (xs @ ys)"
  by (induction rule: decodes.induct) (auto simp: self_delimiting_def intro!: decodes.cons)

lemma decodes_concat:
  "self_delimiting rd \<Longrightarrow> list_all (\<lambda>c. decodes rd c (f c)) cs \<Longrightarrow> decodes rd (concat cs) (concat (map f cs))"
  by (induction cs) (auto intro: decodes.nil decodes_append)

lemma decodes_recovered: "decodes rd bs ds \<Longrightarrow> recovered rd bs = ds"
proof (induction rule: decodes.induct)
  case (cons bs d n ds)
  then show ?case by (subst recovered.simps) auto
qed simp

text \<open>With a decoder that consumes something whenever it succeeds, every reader returns, whatever
  the files hold and whichever system calls fail.\<close>

definition consuming :: "(bytes \<Rightarrow> ('d \<times> nat, 'de) result) \<Rightarrow> bool" where
  "consuming rd \<longleftrightarrow> (\<forall>bs d n. rd bs = Inr (d, n) \<longrightarrow> 0 < n)"

lemma read_outputs_loop_returns:
  assumes progress: "consuming (read_descriptor env)"
  shows "\<exists>r. read_outputs_loop env path len data pos outs = Some r"
proof (induction "len - pos" arbitrary: pos outs rule: less_induct)
  case less
  show ?case
  proof (cases "seek_fault env path pos = None \<and> pos < len")
    case True
    show ?thesis
    proof (cases "read_descriptor env (drop pos data)")
      case (Inr dn)
      obtain d n where dn: "dn = (d, n)" by (cases dn)
      have "len - (pos + n) < len - pos" using progress Inr dn True by (fastforce simp: consuming_def)
      from less [OF this, of "outs @ [d]"] show ?thesis
        using True Inr dn by (subst read_outputs_loop.simps) simp
    qed (use True in \<open>subst read_outputs_loop.simps, simp\<close>)
  qed (subst read_outputs_loop.simps, auto split: option.split)
qed

lemma read_all_loop_returns:
  assumes progress: "consuming (read_descriptor env)"
  shows "\<exists>r. read_all_loop env fs d names outs = Some r"
proof (induction names arbitrary: outs)
  case (Cons name names)
  have "\<exists>r. read_outputs_from_file env fs d name outs = Some r"
    using read_outputs_loop_returns [OF progress] by (cases "file_fault env d name") (simp_all add: read_outputs_from_file_def Let_def)
  then obtain o1 out1 where opened: "read_outputs_from_file env fs d name outs = Some (o1, out1)" by force
  from Cons.IH [of outs] Cons.IH [of o1] show ?case
    by (auto simp: opened split: option.split)
qed simp

definition no_faults :: "('e, 'pe, 'd, 'de) sweep_env \<Rightarrow> bool" where
  "no_faults env \<longleftrightarrow>
     (\<forall>d. read_dir_fault env d = None) \<and> (\<forall>d n. entry_fault env d n = None) \<and>
     (\<forall>d. mkdir_fault env d = None) \<and> (\<forall>n. rename_fault env n = None) \<and>
     (\<forall>d n. file_fault env d n = None) \<and> (\<forall>d n. metadata_ok env d n) \<and>
     (\<forall>p n. seek_fault env p n = None) \<and> (\<forall>d f. remove_fault env d f = None) \<and>
     (\<forall>p. write_fault env p = None)"

lemma file_content_in:
  "hm_get (fs_dirs fs) d = Some files \<Longrightarrow> hm_wf files \<Longrightarrow> (n, c) \<in> set files \<Longrightarrow> file_content fs d n = c"
  using hm_get_Some_in [of files n c] by (simp add: file_content_def)

lemma map_file_content:
  "hm_get (fs_dirs fs) d = Some files \<Longrightarrow> hm_wf files \<Longrightarrow> map (file_content fs d) (map fst files) = map snd files"
  by (auto simp: file_content_in)

lemma concat_loop_ok:
  "no_faults env \<Longrightarrow> concat_loop env d fs names = (concat (map (file_content fs d) names), [])"
  by (induction names) (simp_all add: no_faults_def)

lemma read_outputs_loop_recovered:
  assumes "consuming (read_descriptor env)" "\<And>p n. seek_fault env p n = None"
  shows "\<exists>out. read_outputs_loop env path (length data) data pos outs =
    Some (outs @ recovered (read_descriptor env) (drop pos data), out)"
proof (induction "length data - pos" arbitrary: pos outs rule: less_induct)
  case less
  show ?case
  proof (cases "pos < length data")
    case True
    show ?thesis
    proof (cases "read_descriptor env (drop pos data)")
      case (Inr dn)
      obtain d n where dn: "dn = (d, n)" by (cases dn)
      have n: "0 < n" using assms(1) Inr dn by (fastforce simp: consuming_def)
      then have "length data - (pos + n) < length data - pos" using True by simp
      from less [OF this, of "outs @ [d]"] show ?thesis
        using True Inr dn assms(2) n
        by (subst read_outputs_loop.simps, subst recovered.simps) (simp add: add.commute)
    qed (use True assms(2) in \<open>subst read_outputs_loop.simps, subst recovered.simps, simp\<close>)
  qed (use assms(2) in \<open>subst read_outputs_loop.simps, simp\<close>)
qed

lemma read_all_loop_recovered:
  assumes "no_faults env" "consuming (read_descriptor env)"
  shows "\<exists>out. read_all_loop env fs d names outs =
    Some (outs @ concat (map (\<lambda>n. recovered (read_descriptor env) (file_content fs d n)) names), out)"
proof (induction names arbitrary: outs)
  case (Cons n names)
  let ?ds = "recovered (read_descriptor env) (file_content fs d n)"
  obtain out where "read_outputs_from_file env fs d n outs = Some (outs @ ?ds, out)"
    using read_outputs_loop_recovered [OF assms(2), of "d @ ''/'' @ n" "file_content fs d n" 0 outs] assms(1)
    by (auto simp: read_outputs_from_file_def Let_def no_faults_def)
  moreover obtain out' where "read_all_loop env fs d names (outs @ ?ds) =
      Some (outs @ ?ds @ concat (map (\<lambda>n. recovered (read_descriptor env) (file_content fs d n)) names), out')"
    using Cons.IH [of "outs @ ?ds"] by auto
  ultimately show ?case using assms(1) by (auto simp: no_faults_def)
qed simp

lemma read_all_recovered:
  assumes "no_faults env" "consuming (read_descriptor env)" "hm_wf (dir_of fs d)"
  shows "\<exists>out. read_all_spendable_outputs env d fs =
    Some (concat (map (recovered (read_descriptor env) \<circ> snd) (dir_of fs d)), out)"
proof (cases "hm_get (fs_dirs fs) d")
  case None
  then show ?thesis by (simp add: read_all_spendable_outputs_def read_dir_def dir_of_def)
next
  case (Some files)
  then have files: "dir_of fs d = files" by (simp add: dir_of_def)
  have "map (\<lambda>n. recovered (read_descriptor env) (file_content fs d n)) (map fst files) =
      map (recovered (read_descriptor env)) (map (file_content fs d) (map fst files))" by simp
  also have "\<dots> = map (recovered (read_descriptor env) \<circ> snd) files"
    unfolding map_file_content [OF Some assms(3) [unfolded files]] by simp
  finally have m: "map (\<lambda>n. recovered (read_descriptor env) (file_content fs d n)) (map fst files) =
      map (recovered (read_descriptor env) \<circ> snd) files" .
  show ?thesis
    using read_all_loop_recovered [OF assms(1,2), of fs d "map fst files" "[]", unfolded m] assms(1)
    by (simp add: read_all_spendable_outputs_def read_dir_def Some no_faults_def files)
qed

section \<open>Moving and concatenating\<close>

lemma hm_insert_fresh: "k \<notin> fst ` set m \<Longrightarrow> hm_insert k v m = m @ [(k, v)]"
  by (induction m) (auto simp: hm_insert_def)

definition unpath :: "sweep_fs \<Rightarrow> string set \<Rightarrow> sweep_fs \<Rightarrow> bool" where
  "unpath fs ds fs' \<longleftrightarrow> fs_plain fs' = fs_plain fs \<and> (\<forall>d. d \<notin> ds \<longrightarrow> hm_get (fs_dirs fs') d = hm_get (fs_dirs fs) d)"

text \<open>The files that arrive in the processing directory: those whose names have 64 bytes, over what is there.\<close>

definition staged :: "dir \<Rightarrow> dir \<Rightarrow> dir" where
  "staged pending processing = fold (\<lambda>(n, c). hm_insert n c) (filter (\<lambda>(n, c). length n = 64) pending) processing"

lemma move_loop_stages:
  assumes "no_faults env" "pending \<noteq> processing"
  shows "hm_get (fs_dirs fs) pending = Some P \<Longrightarrow> list_all (\<lambda>(n, c). hm_get P n = Some c) R \<Longrightarrow> distinct (map fst R) \<Longrightarrow>
    \<exists>fs'. move_loop env pending processing (map fst R) fs = (Inr (), fs', []) \<and>
      dir_of fs' processing = staged R (dir_of fs processing) \<and> unpath fs {pending, processing} fs'"
proof (induction R arbitrary: fs P)
  case Nil
  then show ?case by (simp add: unpath_def staged_def)
next
  case (Cons nc R)
  obtain n c where nc: "nc = (n, c)" by (cases nc)
  have rest: "list_all (\<lambda>(n, c). hm_get P n = Some c) R" "distinct (map fst R)" "n \<notin> fst ` set R"
    and c: "hm_get P n = Some c" using Cons.prems by (auto simp: nc)
  show ?case
  proof (cases "length n = 64")
    case False
    with Cons.IH [OF Cons.prems(1) rest(1,2)] assms(1) show ?thesis
      by (simp add: nc no_faults_def staged_def)
  next
    case True
    let ?fs1 = "rename_file pending processing n (create_dir processing fs)"
    have pend: "hm_get (fs_dirs (create_dir processing fs)) pending = Some P"
      using Cons.prems(1) assms(2) by (simp add: create_dir_def)
    have proc: "hm_get (fs_dirs (create_dir processing fs)) processing = Some (dir_of fs processing)"
      by (auto simp: create_dir_def dir_exists_def dir_of_def)
    have new: "hm_get (fs_dirs ?fs1) pending = Some (hm_remove n P)" "dir_of ?fs1 processing = hm_insert n c (dir_of fs processing)"
      "unpath fs {pending, processing} ?fs1"
      using pend proc c assms(2) by (simp_all add: rename_file_def dir_of_def unpath_def) (simp add: create_dir_def)
    have "list_all (\<lambda>(m, b). hm_get (hm_remove n P) m = Some b) R"
      using rest(1,3) by (force simp: list_all_iff)
    from Cons.IH [OF new(1) this rest(2)] obtain fs' where
      IH: "move_loop env pending processing (map fst R) ?fs1 = (Inr (), fs', [])"
        "dir_of fs' processing = staged R (dir_of ?fs1 processing)" "unpath ?fs1 {pending, processing} fs'" by blast
    have "move_loop env pending processing (map fst (nc # R)) fs = move_loop env pending processing (map fst R) ?fs1"
      using assms(1) True by (simp add: nc no_faults_def Let_def)
    then show ?thesis using IH new True by (auto simp: unpath_def nc staged_def)
  qed
qed

lemma move_pending_stages:
  assumes "no_faults env" "pending \<noteq> processing" "hm_wf (dir_of fs pending)"
  shows "\<exists>fs'. move_pending_to_processing env pending processing fs = (Inr (), fs', []) \<and>
      dir_of fs' processing = staged (dir_of fs pending) (dir_of fs processing) \<and> unpath fs {pending, processing} fs'"
proof (cases "hm_get (fs_dirs fs) pending")
  case None
  then show ?thesis by (simp add: move_pending_to_processing_def read_dir_def dir_of_def unpath_def staged_def)
next
  case (Some P)
  then have P: "dir_of fs pending = P" by (simp add: dir_of_def)
  with assms(3) have "list_all (\<lambda>(n, c). hm_get P n = Some c) P" "distinct (map fst P)"
    by (auto simp: list_all_iff hm_wf_def hm_get_def)
  with move_loop_stages [OF assms(1,2) Some] P assms(1) Some show ?thesis
    by (simp add: move_pending_to_processing_def read_dir_def no_faults_def)
qed

lemma staged_wf: "hm_wf Q \<Longrightarrow> hm_wf (staged P Q)"
proof -
  have "hm_wf (fold (\<lambda>(n, c). hm_insert n c) R Q)" if "hm_wf Q" for R :: dir
    using that by (induction R arbitrary: Q) auto
  then show "hm_wf Q \<Longrightarrow> hm_wf (staged P Q)" by (simp add: staged_def)
qed

lemma staged_disjoint:
  "list_all (\<lambda>(n, c). length n = 64) P \<Longrightarrow> distinct (map fst P) \<Longrightarrow> fst ` set Q \<inter> fst ` set P = {} \<Longrightarrow> staged P Q = Q @ P"
proof (induction P arbitrary: Q)
  case (Cons nc P)
  obtain n c where nc: "nc = (n, c)" by (cases nc)
  with Cons.prems have "hm_insert n c Q = Q @ [(n, c)]" by (intro hm_insert_fresh) auto
  with Cons.IH [of "Q @ [(n, c)]"] Cons.prems show ?case by (force simp: staged_def nc)
qed (simp add: staged_def)

text \<open>What the key-value store of \<^verbatim>\<open>lightning-persister\<close> does with a value of the namespace.\<close>

definition fs_store_write :: "string \<Rightarrow> string \<Rightarrow> string \<Rightarrow> string \<Rightarrow> bytes \<Rightarrow> sweep_fs \<Rightarrow> (sweep_fs, 'pe) result" where
  "fs_store_write data_dir ns sub key bs fs =
     (let d = data_dir @ ''/'' @ ns in Inr (fs\<lparr>fs_dirs := hm_insert d (hm_insert key bs (dir_of fs d)) (fs_dirs fs)\<rparr>))"

lemma concatenate_ok:
  fixes env :: "('e, 'pe, 'd, 'de) sweep_env"
  assumes nf: "no_faults env" and wf: "hm_wf (dir_of fs processing)"
    and kv: "kv_write env = fs_store_write dir" and ne: "processing \<noteq> spendables_dir dir"
  defines "blob \<equiv> concat (map snd (dir_of fs processing))"
  shows "\<exists>fs'. concatenate_processing_outputs env processing fs = (Inr (), fs', []) \<and>
    dir_of fs' (spendables_dir dir) =
      (if blob = [] then dir_of fs (spendables_dir dir)
       else hm_insert (hex_str (secure_random_bytes env)) blob (dir_of fs (spendables_dir dir))) \<and>
    unpath fs {processing, spendables_dir dir} fs'"
proof (cases "hm_get (fs_dirs fs) processing")
  case None
  then show ?thesis
    by (simp add: concatenate_processing_outputs_def read_dir_def dir_of_def unpath_def blob_def)
next
  case (Some Q)
  then have Q: "dir_of fs processing = Q" by (simp add: dir_of_def)
  have names: "read_dir env processing fs = Inr (map fst Q)" using nf Some by (simp add: read_dir_def no_faults_def)
  have cat: "concat_loop env processing fs (map fst Q) = (blob, [])"
    unfolding concat_loop_ok [OF nf] map_file_content [OF Some wf [unfolded Q]] blob_def Q ..
  show ?thesis
  proof (cases "blob = []")
    case True
    then show ?thesis by (simp add: concatenate_processing_outputs_def names cat unpath_def)
  next
    case False
    then show ?thesis
      using nf ne
      by (simp add: concatenate_processing_outputs_def names cat kv fs_store_write_def Let_def Some
          best_effort_remove_dir_def no_faults_def dir_of_def [of "sweep_fs.fs_dirs_update _ _"] unpath_def
          spendables_dir_def)
  qed
qed

section \<open>The whole migration\<close>

lemma dirs_distinct [simp]:
  "pending_dir dir \<noteq> processing_dir dir" "processing_dir dir \<noteq> spendables_dir dir"
  "pending_dir dir \<noteq> spendables_dir dir"
  "processing_dir dir \<noteq> pending_dir dir" "spendables_dir dir \<noteq> processing_dir dir"
  "spendables_dir dir \<noteq> pending_dir dir"
  by (simp_all add: pending_dir_def processing_dir_def spendables_dir_def DEPRECATED_PENDING_SPENDABLE_OUTPUT_DIR_def)

lemma unpath_dir_of: "unpath fs ds fs' \<Longrightarrow> d \<notin> ds \<Longrightarrow> dir_of fs' d = dir_of fs d"
  by (simp add: unpath_def dir_of_def)

lemma remove_dir_ok:
  "no_faults env \<Longrightarrow> \<exists>fs'. best_effort_remove_dir env d fs = (fs', []) \<and> fs_plain fs' = fs_plain fs \<and>
    hm_get (fs_dirs fs') = (hm_get (fs_dirs fs))(d := None)"
  by (auto simp: best_effort_remove_dir_def no_faults_def fun_eq_iff split: option.split)

lemma sentinel_ok: "no_faults env \<Longrightarrow> write_sentinel env p fs = (fs\<lparr>fs_plain := hm_insert p (as_bytes ''ok'') (fs_plain fs)\<rparr>, [])"
  by (simp add: write_sentinel_def no_faults_def)

text \<open>
  The spendable files when the descriptors are read: the files of the processing directory and those moved there, one behind
  the other, have become one more file, under a random name.
\<close>

definition spendables_read :: "('e, 'pe, 'd, 'de) sweep_env \<Rightarrow> string \<Rightarrow> sweep_fs \<Rightarrow> dir" where
  "spendables_read env dir fs =
     (let blob = concat (map snd (staged (dir_of fs (pending_dir dir)) (dir_of fs (processing_dir dir))))
      in if blob = [] then dir_of fs (spendables_dir dir)
         else hm_insert (hex_str (secure_random_bytes env)) blob (dir_of fs (spendables_dir dir)))"

lemma move_loop_plain: "fs_plain (fst (snd (move_loop env p q names fs))) = fs_plain fs"
  by (induction names arbitrary: fs)
    (simp_all add: Let_def case_prod_beta create_dir_def rename_file_def split: option.split)

lemma move_pending_plain: "fs_plain (fst (snd (move_pending_to_processing env p q fs))) = fs_plain fs"
  by (simp add: move_pending_to_processing_def move_loop_plain split: sum.split option.split)

lemma remove_dir_plain: "fs_plain (fst (best_effort_remove_dir env d fs)) = fs_plain fs"
  by (simp add: best_effort_remove_dir_def split: option.split)

lemma concatenate_plain:
  assumes "\<And>ns sub k bs fs fs'. kv_write env ns sub k bs fs = Inr fs' \<Longrightarrow> fs_plain fs' = fs_plain fs"
  shows "fs_plain (fst (snd (concatenate_processing_outputs env q fs))) = fs_plain fs"
  using assms
  by (auto simp: concatenate_processing_outputs_def Let_def case_prod_beta remove_dir_plain split: sum.split option.split)

section \<open>Properties\<close>


text \<open>Nothing is lost when every file decodes to its end, every pending name has 64 bytes and no two names collide.\<close>

lemma nothing_lost:
  assumes "self_delimiting (read_descriptor env)"
    and "hm_wf (dir_of fs (processing_dir dir) @ dir_of fs (pending_dir dir))"
    and "list_all (\<lambda>(n, c). length n = 64) (dir_of fs (pending_dir dir))"
    and "hex_str (secure_random_bytes env) \<notin> fst ` set (dir_of fs (spendables_dir dir))"
    and "list_all (\<lambda>(n, c). decodes (read_descriptor env) c (f c))
       (dir_of fs (spendables_dir dir) @ dir_of fs (processing_dir dir) @ dir_of fs (pending_dir dir))"
  shows "concat (map (recovered (read_descriptor env) \<circ> snd) (spendables_read env dir fs)) =
    concat (map (f \<circ> snd) (dir_of fs (spendables_dir dir) @ dir_of fs (processing_dir dir) @ dir_of fs (pending_dir dir)))"
proof -
  let ?S = "dir_of fs (spendables_dir dir)" and ?QP = "dir_of fs (processing_dir dir) @ dir_of fs (pending_dir dir)"
  have staged: "staged (dir_of fs (pending_dir dir)) (dir_of fs (processing_dir dir)) = ?QP"
    using assms(2,3) by (intro staged_disjoint) (auto simp: hm_wf_def)
  have "decodes (read_descriptor env) (concat (map snd ?QP)) (concat (map f (map snd ?QP)))"
    using assms(5) by (intro decodes_concat [OF assms(1)]) (auto simp: list_all_iff)
  then have blob: "recovered (read_descriptor env) (concat (map snd ?QP)) = concat (map (f \<circ> snd) ?QP)"
    by (simp add: decodes_recovered)
  have S: "map (recovered (read_descriptor env) \<circ> snd) ?S = map (f \<circ> snd) ?S"
    using assms(5) by (fastforce simp: list_all_iff intro: decodes_recovered)
  have read: "spendables_read env dir fs =
      (if concat (map snd ?QP) = [] then ?S else ?S @ [(hex_str (secure_random_bytes env), concat (map snd ?QP))])"
    by (simp only: spendables_read_def Let_def staged hm_insert_fresh [OF assms(4)])
  have cS: "concat (map (recovered (read_descriptor env) \<circ> snd) ?S) = concat (map (f \<circ> snd) ?S)" by (simp only: S)
  show ?thesis
  proof (cases "concat (map snd ?QP) = []")
    case True
    have "concat (map (f \<circ> snd) ?QP) = []" using blob unfolding True by simp
    with cS show ?thesis unfolding read if_P [OF True] by simp
  next
    case False
    show ?thesis unfolding read if_not_P [OF False] using cS blob by simp
  qed
qed

definition byte_env :: "string \<Rightarrow> (unit, unit, u8, unit) sweep_env" where
  "byte_env dir = \<lparr>read_dir_fault = \<lambda>_. None, entry_fault = \<lambda>_ _. None, mkdir_fault = \<lambda>_. None,
     rename_fault = \<lambda>_. None, file_fault = \<lambda>_ _. None, metadata_ok = \<lambda>_ _. True, seek_fault = \<lambda>_ _. None,
     remove_fault = \<lambda>_ _. None, write_fault = \<lambda>_. None, show_io_error = \<lambda>_. [], show_persist_error = \<lambda>_. [],
     debug_decode_error = \<lambda>_. [], secure_random_bytes = [7], kv_write = fs_store_write dir,
     read_descriptor = \<lambda>bs. case bs of [] \<Rightarrow> Inl () | b # _ \<Rightarrow> if b = 0 then Inl () else Inr (b, 1),
     best_block_height = 100, track_spendable_outputs = \<lambda>_ _. True\<rparr>"

definition demo_fs :: sweep_fs where
  "demo_fs = \<lparr>fs_dirs = [(''d/spendable_outputs'', [(''k'', [1])]),
     (''d/pending_spendable_outputs'', [(replicate 64 CHR ''a'', [2, 0, 3]), (''tmp'', [4])])], fs_plain = []\<rparr>"

lemma demo_dirs:
  "dir_of demo_fs (spendables_dir ''d'') = [(''k'', [1])]" "dir_of demo_fs (processing_dir ''d'') = []"
  "dir_of demo_fs (pending_dir ''d'') = [(replicate 64 CHR ''a'', [2, 0, 3]), (''tmp'', [4])]"
  by (simp_all add: dir_of_def demo_fs_def hm_get_def spendables_dir_def processing_dir_def pending_dir_def
      DEPRECATED_PENDING_SPENDABLE_OUTPUT_DIR_def)

lemma byte_consuming: "consuming (read_descriptor (byte_env d))"
  by (auto simp: consuming_def byte_env_def split: list.splits if_splits)


text \<open>C34: the sentinel. With it the migration does nothing and reports zero; without it a run that
  ends in an error has tracked nothing and has not written it, so that the next start tries
  again.\<close>

theorem sentinel_guards:
  assumes "try_migrate_deprecated_spendable_outputs env dir fs = Some m"
    and "\<And>ns sub k bs fs fs'. kv_write env ns sub k bs fs = Inr fs' \<Longrightarrow> fs_plain fs' = fs_plain fs"
  shows "(hm_get (fs_plain fs) (sentinel_path dir) \<noteq> None \<longrightarrow>
      mig_result m = Inr 0 \<and> mig_fs m = fs \<and> mig_tracked m = []) \<and>
    (\<not> is_ok (mig_result m) \<longrightarrow> mig_tracked m = [] \<and> fs_plain (mig_fs m) = fs_plain fs)"
proof -
  obtain r1 fs1 out1 where m: "move_pending_to_processing env (pending_dir dir) (processing_dir dir) fs = (r1, fs1, out1)"
    by (metis prod.exhaust)
  obtain r2 fs2 out2 where c: "concatenate_processing_outputs env (processing_dir dir) fs1 = (r2, fs2, out2)"
    by (metis prod.exhaust)
  have p1: "fs_plain fs1 = fs_plain fs" using move_pending_plain [of env "pending_dir dir" "processing_dir dir" fs] m by simp
  have p2: "fs_plain fs2 = fs_plain fs1" using concatenate_plain [where env = env and q = "processing_dir dir" and fs = fs1, OF assms(2)] c by simp
  show ?thesis
    using assms(1) p1 p2
    by (auto simp: try_migrate_deprecated_spendable_outputs_def Let_def m c case_prod_beta
        split: if_splits sum.splits option.splits)
qed

theorem sentinel_guards_witness:
  "\<exists>m. try_migrate_deprecated_spendable_outputs (byte_env ''d'') ''d''
      \<lparr>fs_dirs = fs_dirs demo_fs, fs_plain = [(sentinel_path ''d'', [])]\<rparr> = Some m \<and> mig_tracked m = []"
proof -
  let ?fs = "\<lparr>fs_dirs = fs_dirs demo_fs, fs_plain = [(sentinel_path ''d'', [])]\<rparr>"
  obtain m where m: "try_migrate_deprecated_spendable_outputs (byte_env ''d'') ''d'' ?fs = Some m"
    by (simp add: try_migrate_deprecated_spendable_outputs_def Let_def hm_get_def)
  have "mig_tracked m = []"
    using sentinel_guards [OF m] by (simp add: byte_env_def fs_store_write_def Let_def hm_get_def)
  with m show ?thesis by blast
qed

text \<open>C38: what a successful migration deletes. A spendable file whose contents do not decode is
  skipped with a warning, and then removed together with its directory: the run reports success
  with zero outputs, nothing was tracked, the sentinel is written and the file is gone.\<close>

theorem undecodable_file_deleted:
  assumes "no_faults env" "hm_get (fs_plain fs) (sentinel_path dir) = None"
    and "hm_get (fs_dirs fs) (pending_dir dir) = None" "hm_get (fs_dirs fs) (processing_dir dir) = None"
    and "hm_get (fs_dirs fs) (spendables_dir dir) = Some [(name, c)]"
    and "c \<noteq> []" "read_descriptor env c = Inl e"
  shows "\<exists>m. try_migrate_deprecated_spendable_outputs env dir fs = Some m \<and> mig_result m = Inr 0 \<and>
    mig_tracked m = [] \<and> hm_get (fs_plain (mig_fs m)) (sentinel_path dir) \<noteq> None \<and>
    \<not> dir_exists (mig_fs m) (spendables_dir dir)"
proof -
  let ?d = "spendables_dir dir"
  have fc: "file_content fs ?d name = c" using assms(5) by (simp add: file_content_def hm_get_def)
  have loop: "\<exists>out. read_outputs_loop env path (length c) c 0 [] = Some ([], out)" for path
    using assms(1,6,7) by (subst read_outputs_loop.simps) (simp add: no_faults_def)
  have "\<exists>out. read_all_spendable_outputs env ?d fs = Some ([], out)"
    using loop [of "?d @ ''/'' @ name"] assms(1,5) fc
    by (auto simp: read_all_spendable_outputs_def read_dir_def no_faults_def read_outputs_from_file_def Let_def)
  then obtain out where rd: "read_all_spendable_outputs env ?d fs = Some ([], out)" by blast
  obtain fs3 where r3: "best_effort_remove_dir env ?d fs = (fs3, [])" "hm_get (fs_dirs fs3) = (hm_get (fs_dirs fs))(?d := None)"
    using remove_dir_ok [OF assms(1)] by blast
  have r4: "best_effort_remove_dir env (pending_dir dir) fs3 = (fs3, [])"
    using r3(2) assms(3) by (simp add: best_effort_remove_dir_def)
  have mv: "move_pending_to_processing env (pending_dir dir) (processing_dir dir) fs = (Inr (), fs, [])"
    using assms(3) by (simp add: move_pending_to_processing_def read_dir_def)
  have cc: "concatenate_processing_outputs env (processing_dir dir) fs = (Inr (), fs, [])"
    using assms(4) by (simp add: concatenate_processing_outputs_def read_dir_def)
  show ?thesis
    using assms(2,5) mv cc rd r3 r4 sentinel_ok [OF assms(1)]
    by (simp add: try_migrate_deprecated_spendable_outputs_def Let_def dir_exists_def)
qed

theorem undecodable_file_deleted_witness:
  "\<exists>m. try_migrate_deprecated_spendable_outputs (byte_env ''d'') ''d''
      \<lparr>fs_dirs = [(spendables_dir ''d'', [(''k'', [0])])], fs_plain = []\<rparr> = Some m \<and>
    mig_result m = Inr 0 \<and> \<not> dir_exists (mig_fs m) (spendables_dir ''d'')"
proof -
  let ?fs = "\<lparr>fs_dirs = [(spendables_dir ''d'', [(''k'', [0])])], fs_plain = []\<rparr>"
  have "\<exists>m. try_migrate_deprecated_spendable_outputs (byte_env ''d'') ''d'' ?fs = Some m \<and> mig_result m = Inr 0 \<and>
    mig_tracked m = [] \<and> hm_get (fs_plain (mig_fs m)) (sentinel_path ''d'') \<noteq> None \<and>
    \<not> dir_exists (mig_fs m) (spendables_dir ''d'')"
    by (rule undecodable_file_deleted [where name = "''k''" and c = "[0]" and e = "()"]) (simp_all add: no_faults_def byte_env_def hm_get_def)
  then show ?thesis by blast
qed

text \<open>A sentinel that could not be written completely still counts. The log line says that the migration will
  run again at the next start; when the failed write created the file, it will not.\<close>

lemma partial_sentinel_counts:
  assumes "write_fault env (sentinel_path dir) = Some (e, Some bs)"
  shows "map_option mig_out (try_migrate_deprecated_spendable_outputs env' dir
      (fst (write_sentinel env (sentinel_path dir) fs))) =
    Some [Log Debug ''Spendable-outputs migration already completed; skipping'']"
  using assms by (simp add: write_sentinel_def try_migrate_deprecated_spendable_outputs_def Let_def)

end
