(* ===== verification/Payments.thy ===== *)
theory Payments
  imports Logging Hex_Utils
begin

text \<open>
  Payment bookkeeping: \<^verbatim>\<open>src/state.rs\<close>, the readers of \<^verbatim>\<open>src/disk.rs\<close>, the commands of
  \<^verbatim>\<open>src/cli/commands/payment.rs\<close>, the payment arms of \<^verbatim>\<open>src/events/mod.rs\<close> and the
  reconciliation at startup (\<^verbatim>\<open>src/main.rs\<close>). The state is the two in-memory tables and what the
  store holds of them; the serialisation (\<open>encode\<close>, \<open>decode\<close>) and the channel manager's answers are
  parameters, as is the fault of each write; \<open>'b\<close> is the serialised form of a table. Shown: the tables' invariant in every interleaving,
  the order of persisting and paying, and what survives a restart.
\<close>

section \<open>State\<close>

datatype htlc_status = Pending | Succeeded | FailedStatus

datatype millisat_amount = MillisatAmount "u64 option"

definition show_millisat :: "millisat_amount \<Rightarrow> string" where
  "show_millisat a = (case a of MillisatAmount None \<Rightarrow> ''unknown'' | MillisatAmount (Some amt) \<Rightarrow> show_nat (unat amt))"

text \<open>On disk an amount is the optional number it wraps; \<open>read_option\<close> and \<open>write_option\<close> are LDK's codec for it.\<close>

definition millisat_read :: "('r \<Rightarrow> (u64 option \<times> 'r, 'e) result) \<Rightarrow> 'r \<Rightarrow> (millisat_amount \<times> 'r, 'e) result" where
  "millisat_read read_option r = and_then (read_option r) (\<lambda>(amt, r'). Inr (MillisatAmount amt, r'))"

definition millisat_write :: "(u64 option \<Rightarrow> 'w \<Rightarrow> ('w, 'e) result) \<Rightarrow> millisat_amount \<Rightarrow> 'w \<Rightarrow> ('w, 'e) result" where
  "millisat_write write_option a w = (case a of MillisatAmount amt \<Rightarrow> write_option amt w)"

lemma millisat_read_write:
  assumes "\<And>amt w. write_option amt w = Inr (w @ enc amt)" and "\<And>amt rest. read_option (enc amt @ rest) = Inr (amt, rest)"
  shows "and_then (millisat_write write_option a []) (\<lambda>bs. millisat_read read_option (bs @ rest)) = Inr (a, rest)"
  by (cases a) (simp add: millisat_write_def millisat_read_def assms)

record payment_info =
  preimage :: "bytes option"
  secret :: "bytes option"
  status :: htlc_status
  amt_msat :: millisat_amount

type_synonym payments = "(bytes, payment_info) hmap"

text \<open>\<open>disk_in\<close> and \<open>disk_out\<close>: the files \<^verbatim>\<open>inbound_payments\<close> and \<^verbatim>\<open>outbound_payments\<close>.\<close>

record 'b pay_state =
  inbound :: payments
  outbound :: payments
  disk_in :: "'b option"
  disk_out :: "'b option"

text \<open>What a command does besides changing the tables, in order.\<close>

datatype 'b pay_act =
  POut out_event
| PWrite string 'b
| PPay bytes "u64 option"
| PSpontaneous bytes bytes u64

definition persist_out :: "(payments \<Rightarrow> 'b) \<Rightarrow> string option \<Rightarrow> 'b pay_state \<Rightarrow> 'b pay_state" where
  "persist_out encode fault s =
     (case fault of None \<Rightarrow> s\<lparr>disk_out := Some (encode (outbound s))\<rparr> | Some _ \<Rightarrow> s)"

definition persist_in :: "(payments \<Rightarrow> 'b) \<Rightarrow> string option \<Rightarrow> 'b pay_state \<Rightarrow> 'b pay_state" where
  "persist_in encode fault s =
     (case fault of None \<Rightarrow> s\<lparr>disk_in := Some (encode (inbound s))\<rparr> | Some _ \<Rightarrow> s)"

section \<open>Commands\<close>

record invoice =
  inv_payment_hash :: bytes
  inv_payment_secret :: bytes
  inv_amount_msat :: "u64 option"
  inv_payee :: bytes

definition err_prompt :: "string \<Rightarrow> 'b pay_act list" where
  "err_prompt m = map POut (user_err m @ prompt)"

text \<open>The error branch shared by the two commands: record the failure and persist it.\<close>

definition mark_failed ::
  "(payments \<Rightarrow> 'b) \<Rightarrow> string option \<Rightarrow> bytes \<Rightarrow> 'b pay_state \<Rightarrow> 'b pay_state \<times> 'b pay_act list" where
  "mark_failed encode fault payment_id s =
     (let s1 = s\<lparr>outbound := hm_modify payment_id (\<lambda>p. p\<lparr>status := FailedStatus\<rparr>) (outbound s)\<rparr>
      in (persist_out encode fault s1,
          PWrite ''outbound_payments'' (encode (outbound s1)) #
          (case fault of None \<Rightarrow> [] | Some e \<Rightarrow> map POut (user_err (''failed to persist outbound payments: '' @ e)))))"

text \<open>
  \<open>pay\<close> is \<^verbatim>\<open>pay_for_bolt11_invoice\<close>; between that call and the error branch other tasks may run
  (\<open>interfere\<close>). \<open>w1\<close> and \<open>w2\<close> are the faults of the two writes.
\<close>

definition send_payment ::
  "(payments \<Rightarrow> 'b) \<Rightarrow> (invoice \<Rightarrow> bytes \<Rightarrow> u64 option \<Rightarrow> (unit, string) result) \<Rightarrow> string option \<Rightarrow>
    string option \<Rightarrow> ('b pay_state \<Rightarrow> 'b pay_state) \<Rightarrow> invoice \<Rightarrow> u64 option \<Rightarrow> 'b pay_state \<Rightarrow> 'b pay_state \<times> 'b pay_act list" where
  "send_payment encode pay w1 w2 interfere invoice required_amount_msat s =
     (let payment_id = inv_payment_hash invoice;
          proceed = (\<lambda>amt.
            let s1 = s\<lparr>outbound := hm_insert payment_id
                  \<lparr>preimage = None, secret = Some (inv_payment_secret invoice), status = Pending,
                   amt_msat = MillisatAmount (Some amt)\<rparr> (outbound s)\<rparr>;
                s2 = persist_out encode w1 s1;
                wr = PWrite ''outbound_payments'' (encode (outbound s1))
            in case w1 of
                 Some e \<Rightarrow> (s2, wr # err_prompt (''failed to persist outbound payments: '' @ e))
               | None \<Rightarrow>
                   (case pay invoice payment_id required_amount_msat of
                      Inr _ \<Rightarrow>
                        (s2, [wr, PPay payment_id required_amount_msat] @
                          map POut (user_out (''EVENT: initiated sending '' @ show_nat (unat amt) @ '' msats to '' @
                            hex_str (inv_payee invoice)) @ prompt))
                    | Inl e \<Rightarrow>
                        let (s3, acts) = mark_failed encode w2 payment_id (interfere s2)
                        in (s3, [wr, PPay payment_id required_amount_msat] @
                              err_prompt (''failed to send payment: '' @ e) @ acts)))
      in case (inv_amount_msat invoice, required_amount_msat) of
           (Some inv_amt, Some req_amt) \<Rightarrow>
             if inv_amt \<noteq> req_amt
             then (s, err_prompt (''Amount didn'' @ [CHR 0x27] @ ''t match invoice value of '' @
                        show_nat (unat inv_amt) @ ''msat''))
             else proceed inv_amt
         | (Some inv_amt, None) \<Rightarrow> proceed inv_amt
         | (None, Some req_amt) \<Rightarrow> proceed req_amt
         | (None, None) \<Rightarrow> (s, err_prompt ''Need an amount to pay an amountless invoice''))"

definition keysend ::
  "(payments \<Rightarrow> 'b) \<Rightarrow> (bytes \<Rightarrow> bytes) \<Rightarrow> (bytes \<Rightarrow> bytes \<Rightarrow> bytes \<Rightarrow> u64 \<Rightarrow> (bytes, string) result) \<Rightarrow>
    string option \<Rightarrow> string option \<Rightarrow> ('b pay_state \<Rightarrow> 'b pay_state) \<Rightarrow> bytes \<Rightarrow> bytes \<Rightarrow> u64 \<Rightarrow> 'b pay_state \<Rightarrow>
    'b pay_state \<times> 'b pay_act list" where
  "keysend encode sha256 send_spontaneous w1 w2 interfere random_bytes payee_pubkey amt s =
     (let payment_preimage = random_bytes;
          payment_id = sha256 payment_preimage;
          s1 = s\<lparr>outbound := hm_insert payment_id
                 \<lparr>preimage = None, secret = None, status = Pending, amt_msat = MillisatAmount (Some amt)\<rparr> (outbound s)\<rparr>;
          s2 = persist_out encode w1 s1;
          wr = PWrite ''outbound_payments'' (encode (outbound s1))
      in case w1 of
           Some e \<Rightarrow> (s2, wr # err_prompt (''failed to persist outbound payments: '' @ e))
         | None \<Rightarrow>
             (case send_spontaneous payment_preimage payment_id payee_pubkey amt of
                Inr _ \<Rightarrow>
                  (s2, [wr, PSpontaneous payment_id payee_pubkey amt] @
                    map POut (user_out (''EVENT: initiated sending '' @ show_nat (unat amt) @ '' msats to '' @
                      hex_str payee_pubkey) @ prompt))
              | Inl e \<Rightarrow>
                  let (s3, acts) = mark_failed encode w2 payment_id (interfere s2)
                  in (s3, [wr, PSpontaneous payment_id payee_pubkey amt] @
                        err_prompt (''failed to send payment: '' @ e) @ acts)))"

definition get_invoice ::
  "(u64 \<Rightarrow> u32 \<Rightarrow> (invoice \<times> string, string) result) \<Rightarrow> u64 \<Rightarrow> u32 \<Rightarrow> 'b pay_state \<Rightarrow> 'b pay_state \<times> 'b pay_act list" where
  "get_invoice create_bolt11_invoice amt expiry_secs s =
     (case create_bolt11_invoice amt expiry_secs of
        Inl e \<Rightarrow> (s, map POut (user_err (''failed to create invoice: '' @ e)))
      | Inr (iv, text) \<Rightarrow>
          (s\<lparr>inbound := hm_insert (inv_payment_hash iv)
               \<lparr>preimage = None, secret = Some (inv_payment_secret iv), status = Pending,
                amt_msat = MillisatAmount (Some amt)\<rparr> (inbound s)\<rparr>,
           map POut (user_out (''SUCCESS: generated invoice: '' @ text))))"

section \<open>Events\<close>

datatype payment_purpose =
  Bolt11InvoicePayment "bytes option" bytes
| Bolt12OfferPayment "bytes option" bytes
| Bolt12RefundPayment "bytes option" bytes
| SpontaneousPayment bytes

fun purpose_parts :: "payment_purpose \<Rightarrow> bytes option \<times> bytes option" where
  "purpose_parts (Bolt11InvoicePayment p sec) = (p, Some sec)"
| "purpose_parts (Bolt12OfferPayment p sec) = (p, Some sec)"
| "purpose_parts (Bolt12RefundPayment p sec) = (p, Some sec)"
| "purpose_parts (SpontaneousPayment p) = (Some p, None)"

definition newline :: string where "newline = [CHR 0x0A]"

definition on_payment_claimed ::
  "(payments \<Rightarrow> 'b) \<Rightarrow> string option \<Rightarrow> bytes \<Rightarrow> payment_purpose \<Rightarrow> u64 \<Rightarrow> 'b pay_state \<Rightarrow> 'b pay_state \<times> 'b pay_act list" where
  "on_payment_claimed encode fault payment_hash purpose amount_msat s =
     (let (payment_preimage, payment_secret) = purpose_parts purpose;
          info = (case hm_get (inbound s) payment_hash of
                    Some p \<Rightarrow> p\<lparr>status := Succeeded, preimage := payment_preimage, secret := payment_secret\<rparr>
                  | None \<Rightarrow> \<lparr>preimage = payment_preimage, secret = payment_secret, status = Succeeded,
                             amt_msat = MillisatAmount (Some amount_msat)\<rparr>);
          s1 = s\<lparr>inbound := hm_insert payment_hash info (inbound s)\<rparr>
      in (persist_in encode fault s1,
          map POut (user_out (newline @ ''EVENT: claimed payment from payment hash '' @ hex_str payment_hash @
            '' of '' @ show_nat (unat amount_msat) @ '' millisatoshis'') @ prompt) @
          PWrite ''inbound_payments'' (encode (inbound s1)) #
          (case fault of None \<Rightarrow> [] | Some e \<Rightarrow> map POut (user_err (''failed to persist inbound payment state: '' @ e)))))"

text \<open>The handler walks the whole table and touches the entries whose key is the payment id.\<close>

definition on_payment_sent ::
  "(payments \<Rightarrow> 'b) \<Rightarrow> string option \<Rightarrow> bytes \<Rightarrow> bytes \<Rightarrow> u64 option \<Rightarrow> bytes option \<Rightarrow> 'b pay_state \<Rightarrow>
    'b pay_state \<times> 'b pay_act list" where
  "on_payment_sent encode fault payment_preimage payment_hash fee_paid_msat payment_id s =
     (case payment_id of
        None \<Rightarrow> (s, map POut (user_warn ''PaymentSent event missing payment_id''))
      | Some pid \<Rightarrow>
          let s1 = s\<lparr>outbound := hm_map (\<lambda>k p. if k = pid
                then p\<lparr>preimage := Some payment_preimage, status := Succeeded\<rparr> else p) (outbound s)\<rparr>;
              fee = (case fee_paid_msat of None \<Rightarrow> [] | Some f \<Rightarrow> '' (fee '' @ show_nat (unat f) @ '' msat)'');
              out = concat (map (\<lambda>(k, p). if k = pid
                then user_out (newline @ ''EVENT: successfully sent payment of '' @ show_millisat (amt_msat p) @
                       '' millisatoshis'' @ fee @ '' from payment hash '' @ hex_str payment_hash @
                       '' with preimage '' @ hex_str payment_preimage) @ prompt
                else []) (outbound s))
          in (persist_out encode fault s1,
              map POut out @ PWrite ''outbound_payments'' (encode (outbound s1)) #
              (case fault of None \<Rightarrow> [] | Some e \<Rightarrow> map POut (user_err (''failed to persist outbound payment state: '' @ e)))))"

definition on_payment_failed ::
  "(payments \<Rightarrow> 'b) \<Rightarrow> string option \<Rightarrow> bytes option \<Rightarrow> string option \<Rightarrow> bytes \<Rightarrow> 'b pay_state \<Rightarrow> 'b pay_state \<times> 'b pay_act list" where
  "on_payment_failed encode fault payment_hash reason payment_id s =
     (let why = (case reason of None \<Rightarrow> ''RetriesExhausted'' | Some r \<Rightarrow> r);
          msg = (case payment_hash of
                   Some hash \<Rightarrow> newline @ ''EVENT: Failed to send payment to payment ID '' @ hex_str payment_id @
                     '', payment hash '' @ hex_str hash @ '': '' @ why
                 | None \<Rightarrow> newline @ ''EVENT: Failed fetch invoice for payment ID '' @ hex_str payment_id @ '': '' @ why);
          s1 = s\<lparr>outbound := hm_modify payment_id (\<lambda>p. p\<lparr>status := FailedStatus\<rparr>) (outbound s)\<rparr>
      in (persist_out encode fault s1,
          map POut (user_out msg @ prompt) @ PWrite ''outbound_payments'' (encode (outbound s1)) #
          (case fault of None \<Rightarrow> [] | Some e \<Rightarrow> map POut (user_err (''failed to persist outbound payment failure state: '' @ e)))))"

section \<open>Reading at startup\<close>

text \<open>
  The shape of the four readers: \<open>opened\<close> is the contents when the file opens, \<open>exists\<close> whether the
  path exists all the same; \<open>what\<close> and \<open>fresh\<close> complete the two warnings.
\<close>

definition read_or_fresh ::
  "string \<Rightarrow> string \<Rightarrow> string \<Rightarrow> 'b option \<Rightarrow> bool \<Rightarrow> ('b \<Rightarrow> 'a option) \<Rightarrow> 'a \<Rightarrow> 'a \<times> outputs" where
  "read_or_fresh what path fresh_msg opened path_exists decode fresh =
     (case opened of
        Some content \<Rightarrow>
          (case decode content of
             Some x \<Rightarrow> (x, [])
           | None \<Rightarrow> (fresh, [Log Warn (''Failed to deserialize '' @ what @ '' from '' @ path @ ''. '' @ fresh_msg)]))
      | None \<Rightarrow>
          (fresh, if path_exists
                  then [Log Warn (''Failed to open '' @ what @ '' at '' @ path @ ''. '' @ fresh_msg)] else []))"

definition read_network :: "string \<Rightarrow> 'b option \<Rightarrow> bool \<Rightarrow> ('b \<Rightarrow> 'g option) \<Rightarrow> 'g \<Rightarrow> 'g \<times> outputs" where
  "read_network path opened path_exists decode new_graph =
     read_or_fresh ''network graph'' path ''Starting with empty graph.'' opened path_exists decode new_graph"

definition read_inbound_payment_info :: "string \<Rightarrow> 'b option \<Rightarrow> bool \<Rightarrow> ('b \<Rightarrow> payments option) \<Rightarrow> payments \<times> outputs" where
  "read_inbound_payment_info path opened path_exists decode =
     read_or_fresh ''inbound payment info'' path ''Starting with empty state.'' opened path_exists decode hm_new"

definition read_outbound_payment_info :: "string \<Rightarrow> 'b option \<Rightarrow> bool \<Rightarrow> ('b \<Rightarrow> payments option) \<Rightarrow> payments \<times> outputs" where
  "read_outbound_payment_info path opened path_exists decode =
     read_or_fresh ''outbound payment info'' path ''Starting with empty state.'' opened path_exists decode hm_new"

definition read_scorer :: "string \<Rightarrow> 'b option \<Rightarrow> bool \<Rightarrow> ('b \<Rightarrow> 's option) \<Rightarrow> 's \<Rightarrow> 's \<times> outputs" where
  "read_scorer path opened path_exists decode new_scorer =
     read_or_fresh ''scorer'' path ''Starting with fresh scorer.'' opened path_exists decode new_scorer"

text \<open>Pending payments the channel manager no longer knows are marked failed.\<close>

definition reconcile_outbound :: "bytes list \<Rightarrow> payments \<Rightarrow> payments" where
  "reconcile_outbound recent_payment_ids ps =
     hm_map (\<lambda>pid p. if status p = Pending \<and> pid \<notin> set recent_payment_ids then p\<lparr>status := FailedStatus\<rparr> else p) ps"

text \<open>
  The part of startup that loads the tables; \<open>None\<close> when the outbound table cannot be persisted. The file of a
  table may be impossible to open (and then \<^verbatim>\<open>path.exists()\<close> may deny that it is there, when its metadata cannot be
  read either), or reading it may break off, which the decoder sees as a failure.
\<close>

datatype file_read = Readable | CannotOpen | CannotSee | CannotRead

definition opened_file :: "file_read \<Rightarrow> 'b option \<Rightarrow> 'b option" where
  "opened_file io disk = (if io = CannotOpen \<or> io = CannotSee then None else disk)"

definition seen_file :: "file_read \<Rightarrow> 'b option \<Rightarrow> bool" where
  "seen_file io disk = (disk \<noteq> None \<and> io \<noteq> CannotSee)"

definition read_table :: "file_read \<Rightarrow> ('b \<Rightarrow> payments option) \<Rightarrow> 'b \<Rightarrow> payments option" where
  "read_table io decode b = (if io = CannotRead then None else decode b)"

record load_io =
  in_file :: file_read
  out_file :: file_read
  out_fault :: "string option"

definition load_payments ::
  "(payments \<Rightarrow> 'b) \<Rightarrow> ('b \<Rightarrow> payments option) \<Rightarrow> string \<Rightarrow> load_io \<Rightarrow> bytes list \<Rightarrow> 'b pay_state \<Rightarrow>
    'b pay_state option \<times> outputs" where
  "load_payments encode decode dir io recent_payment_ids s =
     (let (ins, out1) = read_inbound_payment_info (dir @ ''/inbound_payments'') (opened_file (in_file io) (disk_in s))
            (seen_file (in_file io) (disk_in s)) (read_table (in_file io) decode);
          (outs, out2) = read_outbound_payment_info (dir @ ''/outbound_payments'') (opened_file (out_file io) (disk_out s))
            (seen_file (out_file io) (disk_out s)) (read_table (out_file io) decode);
          s1 = s\<lparr>inbound := ins, outbound := reconcile_outbound recent_payment_ids outs\<rparr>
      in case out_fault io of
           None \<Rightarrow> (Some (persist_out encode None s1), out1 @ out2)
         | Some e \<Rightarrow> (None, out1 @ out2 @ user_err (''Failed to persist outbound payments: '' @ e)))"

section \<open>Interleavings\<close>

text \<open>
  The tables are behind asynchronous locks that are released before every wait, so an execution is
  a sequence of the locked sections: a new pending entry, a failure mark, the three event handlers, a
  new invoice, a restart that reads the files back. Every write may fail.
\<close>

inductive pay_step :: "(payments \<Rightarrow> 'b) \<Rightarrow> ('b \<Rightarrow> payments option) \<Rightarrow> 'b pay_state \<Rightarrow> 'b pay_state \<Rightarrow> bool"
  for encode decode where
  begin_send: "pay_step encode decode s (persist_out encode fault (s\<lparr>outbound := hm_insert pid
      \<lparr>preimage = None, secret = sec, status = Pending, amt_msat = amt\<rparr> (outbound s)\<rparr>))"
| fail_send: "pay_step encode decode s (fst (mark_failed encode fault pid s))"
| claimed: "pay_step encode decode s (fst (on_payment_claimed encode fault h purpose amt s))"
| sent: "pay_step encode decode s (fst (on_payment_sent encode fault pre h fee pid s))"
| failed: "pay_step encode decode s (fst (on_payment_failed encode fault h reason pid s))"
| invoiced: "pay_step encode decode s (fst (get_invoice create amt expiry s))"
| save_in: "pay_step encode decode s (persist_in encode fault s)"
| restart: "load_payments encode decode dir fault recent s = (Some s', out) \<Longrightarrow> pay_step encode decode s s'"

inductive pay_reachable :: "(payments \<Rightarrow> 'b) \<Rightarrow> ('b \<Rightarrow> payments option) \<Rightarrow> 'b pay_state \<Rightarrow> bool"
  for encode decode where
  start: "pay_reachable encode decode \<lparr>inbound = hm_new, outbound = hm_new, disk_in = None, disk_out = None\<rparr>"
| step: "pay_reachable encode decode s \<Longrightarrow> pay_step encode decode s s' \<Longrightarrow> pay_reachable encode decode s'"

definition outbound_ok :: "payments \<Rightarrow> bool" where
  "outbound_ok ps \<longleftrightarrow> hm_wf ps \<and> (\<forall>k p. hm_get ps k = Some p \<longrightarrow> status p = Succeeded \<longrightarrow> preimage p \<noteq> None)"

definition inbound_ok :: "payments \<Rightarrow> bool" where
  "inbound_ok ps \<longleftrightarrow> hm_wf ps \<and> (\<forall>k p. hm_get ps k = Some p \<longrightarrow> status p \<noteq> FailedStatus)"

definition pay_inv :: "('b \<Rightarrow> payments option) \<Rightarrow> 'b pay_state \<Rightarrow> bool" where
  "pay_inv decode s \<longleftrightarrow>
     outbound_ok (outbound s) \<and> inbound_ok (inbound s) \<and>
     (\<forall>b ps. disk_out s = Some b \<longrightarrow> decode b = Some ps \<longrightarrow> outbound_ok ps) \<and>
     (\<forall>b ps. disk_in s = Some b \<longrightarrow> decode b = Some ps \<longrightarrow> inbound_ok ps)"

text \<open>What the tables rely on from the serialisation: reading back what was written.\<close>

definition codec_ok :: "(payments \<Rightarrow> 'b) \<Rightarrow> ('b \<Rightarrow> payments option) \<Rightarrow> bool" where
  "codec_ok encode decode \<longleftrightarrow> (\<forall>ps. decode (encode ps) = Some ps)"

lemma outbound_ok_new [simp]: "outbound_ok hm_new" by (simp add: outbound_ok_def)

lemma inbound_ok_new [simp]: "inbound_ok hm_new" by (simp add: inbound_ok_def)

lemma outbound_ok_insert:
  "outbound_ok ps \<Longrightarrow> (status p = Succeeded \<longrightarrow> preimage p \<noteq> None) \<Longrightarrow> outbound_ok (hm_insert k p ps)"
  by (auto simp: outbound_ok_def)

lemma outbound_ok_modify:
  "outbound_ok ps \<Longrightarrow> (\<And>p. status (f p) \<noteq> Succeeded) \<Longrightarrow> outbound_ok (hm_modify k f ps)"
  by (auto simp: outbound_ok_def split: if_splits)

lemma outbound_ok_map:
  "outbound_ok ps \<Longrightarrow> (\<And>k p. status (f k p) = Succeeded \<Longrightarrow> (status p = Succeeded \<and> preimage (f k p) = preimage p) \<or> preimage (f k p) \<noteq> None) \<Longrightarrow>
    outbound_ok (hm_map f ps)"
  by (fastforce simp: outbound_ok_def)

lemma inbound_ok_insert: "inbound_ok ps \<Longrightarrow> status p \<noteq> FailedStatus \<Longrightarrow> inbound_ok (hm_insert k p ps)"
  by (auto simp: inbound_ok_def)

lemma pay_inv_persist:
  assumes "codec_ok encode decode" "pay_inv decode s"
  shows "pay_inv decode (persist_out encode fault s)" "pay_inv decode (persist_in encode fault s)"
  using assms by (auto simp: codec_ok_def pay_inv_def persist_out_def persist_in_def split: option.splits)

lemma reconcile_ok: "outbound_ok ps \<Longrightarrow> outbound_ok (reconcile_outbound ids ps)"
  unfolding reconcile_outbound_def by (rule outbound_ok_map) (auto split: if_splits)

lemma read_or_fresh_cases:
  "fst (read_or_fresh what path msg opened ex decode fresh) = fresh \<or>
    (\<exists>b. opened = Some b \<and> decode b = Some (fst (read_or_fresh what path msg opened ex decode fresh)))"
  by (auto simp: read_or_fresh_def split: option.splits)

lemma read_or_fresh_io:
  assumes "decode b = Some x"
  shows "fst (read_or_fresh what path msg (opened_file f (Some b)) (seen_file f (Some b)) (read_table f decode) fresh) = (if f = Readable then x else fresh) \<and>
    (snd (read_or_fresh what path msg (opened_file f (Some b)) (seen_file f (Some b)) (read_table f decode) fresh) = [] \<longleftrightarrow> f = Readable \<or> f = CannotSee)"
  using assms by (cases f) (simp_all add: read_or_fresh_def opened_file_def seen_file_def read_table_def)

lemma read_table_keeps:
  assumes "P fresh" "\<And>b x. d = Some b \<Longrightarrow> decode b = Some x \<Longrightarrow> P x"
  shows "P (fst (read_or_fresh what path msg (opened_file f d) e (read_table f decode) fresh))"
proof -
  have sub: "opened_file f d = Some b \<Longrightarrow> d = Some b" "read_table f decode b = Some x \<Longrightarrow> decode b = Some x" for b x
    by (auto simp: opened_file_def read_table_def split: if_splits)
  show ?thesis
    using read_or_fresh_cases [of what path msg "opened_file f d" e "read_table f decode" fresh] assms sub by fastforce
qed

lemma load_payments_inv:
  assumes codec: "codec_ok encode decode" and inv: "pay_inv decode s"
    and load: "load_payments encode decode dir fault recent s = (Some s', out)"
  shows "pay_inv decode s'"
proof -
  let ?i = "fst (read_inbound_payment_info (dir @ ''/inbound_payments'') (opened_file (in_file fault) (disk_in s))
    (seen_file (in_file fault) (disk_in s)) (read_table (in_file fault) decode))"
  let ?o = "fst (read_outbound_payment_info (dir @ ''/outbound_payments'') (opened_file (out_file fault) (disk_out s))
    (seen_file (out_file fault) (disk_out s)) (read_table (out_file fault) decode))"
  have "inbound_ok ?i"
    unfolding read_inbound_payment_info_def
    by (rule read_table_keeps [where P = inbound_ok]) (use inv in \<open>auto simp: pay_inv_def\<close>)
  moreover have "outbound_ok ?o"
    unfolding read_outbound_payment_info_def
    by (rule read_table_keeps [where P = outbound_ok]) (use inv in \<open>auto simp: pay_inv_def\<close>)
  moreover have "s' = persist_out encode None (s\<lparr>inbound := ?i, outbound := reconcile_outbound recent ?o\<rparr>)"
    using load by (auto simp: load_payments_def Let_def case_prod_beta split: option.splits)
  ultimately show ?thesis
    using inv codec by (auto simp: codec_ok_def pay_inv_def persist_out_def reconcile_ok)
qed

lemma pay_inv_step:
  assumes codec: "codec_ok encode decode" and "pay_step encode decode s s'" "pay_inv decode s"
  shows "pay_inv decode s'"
  using assms(2,3)
proof (induction rule: pay_step.induct)
  case (begin_send s fault pid sec amt)
  then show ?case by (intro pay_inv_persist [OF codec]) (simp add: pay_inv_def outbound_ok_insert)
next
  case (fail_send s fault pid)
  then show ?case
    by (simp add: mark_failed_def Let_def) (intro pay_inv_persist [OF codec], simp add: pay_inv_def outbound_ok_modify)
next
  case (claimed s fault h purpose amt)
  then show ?case
    by (simp add: on_payment_claimed_def Let_def case_prod_beta)
      (intro pay_inv_persist [OF codec], auto simp: pay_inv_def intro!: inbound_ok_insert split: option.splits)
next
  case (sent s fault pre h fee pid)
  show ?case
  proof (cases pid)
    case None
    with sent show ?thesis by (simp add: on_payment_sent_def)
  next
    case (Some k0)
    have "outbound_ok (hm_map (\<lambda>k p. if k = k0 then p\<lparr>preimage := Some pre, status := Succeeded\<rparr> else p) (outbound s))"
      using sent by (intro outbound_ok_map) (auto simp: pay_inv_def split: if_splits)
    then show ?thesis
      using sent by (simp add: on_payment_sent_def Some Let_def) (intro pay_inv_persist [OF codec], simp add: pay_inv_def)
  qed
next
  case (failed s fault h reason pid)
  then show ?case
    by (simp add: on_payment_failed_def Let_def) (intro pay_inv_persist [OF codec], simp add: pay_inv_def outbound_ok_modify)
next
  case (invoiced s create amt expiry)
  then show ?case
    by (auto simp: get_invoice_def pay_inv_def inbound_ok_insert split: sum.splits)
next
  case (save_in s fault)
  then show ?case by (intro pay_inv_persist [OF codec])
next
  case (restart dir fault recent s s' out)
  show ?case by (rule load_payments_inv [OF codec restart.prems restart.hyps])
qed

lemma pay_reachable_inv:
  assumes "codec_ok encode decode" "pay_reachable encode decode s"
  shows "pay_inv decode s"
  using assms(2)
proof induction
  case (step s s')
  then show ?case by (blast intro: pay_inv_step [OF assms(1)])
qed (simp add: pay_inv_def)

section \<open>Properties\<close>

text \<open>C10: in every interleaving of sends, failures, events, invoices, writes that may fail and
  restarts, an outbound payment recorded as succeeded carries its preimage, an inbound payment is
  never recorded as failed, and the tables have one entry per key.\<close>

theorem payment_tables_invariant:
  assumes "codec_ok encode decode" "pay_reachable encode decode s"
  shows "outbound_ok (outbound s) \<and> inbound_ok (inbound s)"
  using pay_reachable_inv [OF assms] by (simp add: pay_inv_def)

theorem payment_tables_invariant_witness:
  "pay_reachable id Some
      (persist_out id None (\<lparr>inbound = hm_new, outbound = hm_insert [1]
        \<lparr>preimage = None, secret = None, status = Pending, amt_msat = MillisatAmount None\<rparr> hm_new,
        disk_in = None, disk_out = None\<rparr>)) \<and>
    outbound_ok (hm_insert [1] \<lparr>preimage = None, secret = None, status = Pending, amt_msat = MillisatAmount None\<rparr> hm_new)"
proof -
  let ?s0 = "\<lparr>inbound = hm_new, outbound = hm_new, disk_in = None, disk_out = None\<rparr>"
  let ?p = "\<lparr>preimage = None, secret = None, status = Pending, amt_msat = MillisatAmount None\<rparr>"
  let ?s1 = "persist_out id None (\<lparr>inbound = hm_new, outbound = hm_insert [1] ?p hm_new, disk_in = None, disk_out = None\<rparr>)"
  have "pay_step id Some ?s0 ?s1"
    using pay_step.begin_send [of id Some ?s0 None "[1]" None "MillisatAmount None"] by simp
  then have r: "pay_reachable id Some ?s1" using pay_reachable.intros by blast
  have "codec_ok id Some" by (simp add: codec_ok_def)
  from payment_tables_invariant [OF this r] r show ?thesis by (simp add: persist_out_def)
qed

text \<open>C11: a payment is recorded before it is made. Whenever \<open>send_payment\<close> asks the channel manager
  to pay, the first thing it did was to write the table in which the payment is pending with the
  amount of the invoice (or the requested amount when the invoice has none), and that write had
  succeeded; otherwise it never pays.\<close>

theorem paid_only_after_persisting:
  assumes "PPay pid req \<in> set (snd (send_payment encode pay w1 w2 interfere iv required s))"
  shows "w1 = None \<and> pid = inv_payment_hash iv \<and> req = required \<and>
    (\<exists>amt ps rest. snd (send_payment encode pay w1 w2 interfere iv required s) =
        PWrite ''outbound_payments'' (encode ps) # PPay pid req # rest \<and>
      hm_get ps pid = Some \<lparr>preimage = None, secret = Some (inv_payment_secret iv), status = Pending,
        amt_msat = MillisatAmount (Some amt)\<rparr> \<and>
      (inv_amount_msat iv = Some amt \<and> required \<in> {None, Some amt} \<or> inv_amount_msat iv = None \<and> required = Some amt))"
proof -
  have no: "PPay pid req \<notin> set (err_prompt m)" for m by (simp add: err_prompt_def user_err_def prompt_def)
  have no': "PPay pid req \<notin> set (snd (mark_failed encode f p t))" for f p t
    by (simp add: mark_failed_def Let_def user_err_def split: option.split)
  show ?thesis
    using assms
    by (cases "inv_amount_msat iv"; cases required)
      (auto simp: send_payment_def Let_def case_prod_beta no no' split: if_splits option.splits sum.splits)
qed

definition demo_invoice :: invoice where
  "demo_invoice = \<lparr>inv_payment_hash = [1], inv_payment_secret = [2], inv_amount_msat = Some 5, inv_payee = [3]\<rparr>"

definition empty_state :: "payments pay_state" where
  "empty_state = \<lparr>inbound = hm_new, outbound = hm_new, disk_in = None, disk_out = None\<rparr>"

theorem paid_only_after_persisting_witness:
  "PPay [1] None \<in> set (snd (send_payment id (\<lambda>_ _ _. Inr ()) None None id demo_invoice None empty_state)) \<and>
    [1] = inv_payment_hash demo_invoice"
proof -
  have p: "PPay [1] None \<in> set (snd (send_payment id (\<lambda>_ _ _. Inr ()) None None id demo_invoice None empty_state))"
    by (simp add: send_payment_def demo_invoice_def Let_def)
  from paid_only_after_persisting [OF p] p show ?thesis by simp
qed

text \<open>C12: what a restart restores. With the tables on disk and the re-persisting write succeeding, loading
  gives back the inbound table as it was when its file can be opened and read, and the empty one otherwise, leaving the
  file alone. The outbound table comes back with exactly the pending payments that the channel manager no longer lists
  turned into failures when its file can be opened and read, and empty otherwise; in both cases the file is overwritten
  with the table in memory. A warning is logged for every file that is not read, unless its existence
  cannot be determined either: then the table is dropped in silence.\<close>

theorem restart_restores:
  assumes "codec_ok encode decode" "disk_in s = Some (encode ins)" "disk_out s = Some (encode outs)" "out_fault io = None"
  shows "\<exists>s' out. load_payments encode decode dir io recent s = (Some s', out) \<and>
    inbound s' = (if in_file io = Readable then ins else hm_new) \<and> disk_in s' = disk_in s \<and>
    hm_get (outbound s') pid =
      (if out_file io = Readable
       then map_option (\<lambda>p. if status p = Pending \<and> pid \<notin> set recent then p\<lparr>status := FailedStatus\<rparr> else p) (hm_get outs pid)
       else None) \<and>
    disk_out s' = Some (encode (outbound s')) \<and>
    (out = [] \<longleftrightarrow> in_file io \<in> {Readable, CannotSee} \<and> out_file io \<in> {Readable, CannotSee})"
proof -
  note read = read_or_fresh_io [of decode]
  have dec: "decode (encode ps) = Some ps" for ps using assms(1) by (simp add: codec_ok_def)
  show ?thesis
    using read [OF dec, of _ _ _ "in_file io" ins hm_new] read [OF dec, of _ _ _ "out_file io" outs hm_new] assms(2-4)
    by (auto simp: load_payments_def read_inbound_payment_info_def read_outbound_payment_info_def Let_def case_prod_beta
        persist_out_def reconcile_outbound_def)
qed

text \<open>One payment is still known to the channel manager, one is not; then the outbound file cannot be opened, with a warning or in silence.\<close>

definition demo_outs :: payments where
  "demo_outs = hm_insert [1] \<lparr>preimage = None, secret = None, status = Pending, amt_msat = MillisatAmount None\<rparr>
     (hm_insert [2] \<lparr>preimage = None, secret = None, status = Pending, amt_msat = MillisatAmount None\<rparr> hm_new)"

theorem restart_restores_witness:
  "(\<exists>s' out. load_payments id Some ''d'' \<lparr>in_file = Readable, out_file = Readable, out_fault = None\<rparr> [[1]]
      (empty_state\<lparr>disk_in := Some [], disk_out := Some demo_outs\<rparr>) = (Some s', out) \<and>
      map_option status (hm_get (outbound s') [2]) = Some FailedStatus) \<and>
   (\<exists>s' out. load_payments id Some ''d'' \<lparr>in_file = Readable, out_file = Readable, out_fault = None\<rparr> [[1]]
      (empty_state\<lparr>disk_in := Some [], disk_out := Some demo_outs\<rparr>) = (Some s', out) \<and>
      map_option status (hm_get (outbound s') [1]) = Some Pending) \<and>
   (\<exists>s' out. load_payments id Some ''d'' \<lparr>in_file = Readable, out_file = CannotOpen, out_fault = None\<rparr> [[1]]
      (empty_state\<lparr>disk_in := Some [], disk_out := Some demo_outs\<rparr>) = (Some s', out) \<and>
      hm_get (outbound s') [1] = None \<and> disk_out s' = Some (outbound s') \<and> out \<noteq> []) \<and>
   (\<exists>s' out. load_payments id Some ''d'' \<lparr>in_file = Readable, out_file = CannotSee, out_fault = None\<rparr> [[1]]
      (empty_state\<lparr>disk_in := Some [], disk_out := Some demo_outs\<rparr>) = (Some s', out) \<and>
      hm_get (outbound s') [1] = None \<and> disk_out s' = Some (outbound s') \<and> out = [])"
proof -
  let ?s = "empty_state\<lparr>disk_in := Some [], disk_out := Some demo_outs\<rparr>"
  have c: "codec_ok id Some" by (simp add: codec_ok_def)
  note r = restart_restores [OF c, of ?s "[]" demo_outs _ "''d''" "[[1]]"]
  have "map_option status (hm_get demo_outs [1]) = Some Pending" "map_option status (hm_get demo_outs [2]) = Some Pending"
    by (simp_all add: demo_outs_def)
  then show ?thesis
    using r [of "\<lparr>in_file = Readable, out_file = Readable, out_fault = None\<rparr>" "[1]"]
      r [of "\<lparr>in_file = Readable, out_file = Readable, out_fault = None\<rparr>" "[2]"]
      r [of "\<lparr>in_file = Readable, out_file = CannotOpen, out_fault = None\<rparr>" "[1]"]
      r [of "\<lparr>in_file = Readable, out_file = CannotSee, out_fault = None\<rparr>" "[1]"]
    by auto
qed

text \<open>C37: paying an invoice again forgets that it was paid. For a payment recorded as succeeded with
  its preimage, a second \<open>send_payment\<close> of the same invoice that the channel manager refuses (it
  reports duplicates) leaves the entry failed and without the preimage, in memory and on disk.\<close>

theorem resend_forgets_success:
  assumes "hm_get (outbound s) (inv_payment_hash iv) = Some p" "status p = Succeeded" "preimage p = Some pre"
    and "inv_amount_msat iv = Some amt" "pay iv (inv_payment_hash iv) None = Inl e"
  shows "(let s' = fst (send_payment encode pay None None id iv None s)
          in (\<exists>q. hm_get (outbound s') (inv_payment_hash iv) = Some q \<and> status q = FailedStatus \<and> preimage q = None) \<and>
             disk_out s' = Some (encode (outbound s')))"
  using assms by (simp add: send_payment_def Let_def mark_failed_def persist_out_def case_prod_beta)

theorem resend_forgets_success_witness:
  "(let s = empty_state\<lparr>outbound := [([1], \<lparr>preimage = Some [9], secret = None, status = Succeeded,
         amt_msat = MillisatAmount (Some 5)\<rparr>)]\<rparr>;
        s' = fst (send_payment id (\<lambda>_ _ _. Inl ''DuplicatePayment'') None None id demo_invoice None s)
    in \<exists>q. hm_get (outbound s') [1] = Some q \<and> status q = FailedStatus \<and> preimage q = None)"
  using resend_forgets_success [of "empty_state\<lparr>outbound := [([1], \<lparr>preimage = Some [9], secret = None,
      status = Succeeded, amt_msat = MillisatAmount (Some 5)\<rparr>)]\<rparr>" demo_invoice
      "\<lparr>preimage = Some [9], secret = None, status = Succeeded, amt_msat = MillisatAmount (Some 5)\<rparr>" "[9]" 5
      "\<lambda>_ _ _. Inl ''DuplicatePayment''" "''DuplicatePayment''" id]
  by (simp add: demo_invoice_def hm_get_def Let_def)

end
