(* ===== verification/Dns_Bootstrap.thy ===== *)
theory Dns_Bootstrap
  imports Node_Config Logging
begin

text \<open>
  \<^verbatim>\<open>src/dns_bootstrap/\<close>: peers from DNS seeds. The resolver, the bech32 code and the curve library
  are parameters. Shown: the sampling loop, with its early exits, is the first \<open>num_addrs\<close> elements of
  the list of all eligible records of all seeds in order.
\<close>

section \<open>Errors and parameters\<close>

datatype dns_bootstrap_error =
  SrvQueryFailed string
| HostResolutionFailed string string
| InvalidBech32NodeId string string
| InvalidPublicKey string
| DnsTimeout
| ResolverError string

definition show_dns_error :: "dns_bootstrap_error \<Rightarrow> string" where
  "show_dns_error e =
     (case e of
        SrvQueryFailed s \<Rightarrow> ''SRV query failed: '' @ s
      | HostResolutionFailed h r \<Rightarrow> ''host resolution failed for '' @ h @ '': '' @ r
      | InvalidBech32NodeId h r \<Rightarrow> ''invalid bech32 node ID in '' @ h @ '': '' @ r
      | InvalidPublicKey r \<Rightarrow> ''invalid public key: '' @ r
      | DnsTimeout \<Rightarrow> ''DNS operation timed out''
      | ResolverError s \<Rightarrow> ''resolver error: '' @ s)"

record srv_record =
  target :: string
  port :: u16

text \<open>A lookup times out (\<open>None\<close>), fails with a printed error, or returns its records in order.
  The parameters describe one bootstrap round: within it a name has one answer.\<close>

record ('pk, 'ip) dns_params =
  srv_lookup :: "string \<Rightarrow> (srv_record list, string) result option"
  lookup_ip :: "string \<Rightarrow> ('ip list, string) result option"
  bech32_decode :: "string \<Rightarrow> (string \<times> u8 list, string) result"
  convert_bits :: "u8 list \<Rightarrow> (bytes, string) result"
  pk_from_slice :: "bytes \<Rightarrow> ('pk, string) result"
  pk_serialize :: "'pk \<Rightarrow> bytes"

section \<open>Decoding and queries\<close>

text \<open>The node id of a key is its serialisation; splitting always yields a first label.\<close>

definition decode_pubkey_from_hostname ::
  "('pk, 'ip) dns_params \<Rightarrow> string \<Rightarrow> ('pk \<times> bytes, dns_bootstrap_error) result" where
  "decode_pubkey_from_hostname P hostname =
     (let bech32_label = hd (split_char CHR ''.'' hostname)
      in if bech32_label = [] then Inl (InvalidBech32NodeId hostname ''empty first label'')
         else
           and_then (map_err (\<lambda>e. InvalidBech32NodeId hostname (''bech32 decode failed: '' @ e))
             (bech32_decode P bech32_label)) (\<lambda>(hrp, data).
           if hrp \<noteq> ''ln''
           then Inl (InvalidBech32NodeId hostname (''expected HRP '' @ [CHR 0x27] @ ''ln'' @ [CHR 0x27] @
                  '', got '' @ [CHR 0x27] @ hrp @ [CHR 0x27]))
           else
             and_then (map_err (\<lambda>e. InvalidBech32NodeId hostname (''bit conversion failed: '' @ e))
               (convert_bits P data)) (\<lambda>pubkey_bytes.
             and_then (map_err (\<lambda>e. InvalidPublicKey (''secp256k1 parse failed: '' @ e))
               (pk_from_slice P pubkey_bytes)) (\<lambda>pubkey.
               Inr (pubkey, pk_serialize P pubkey)))))"

definition query_srv :: "('pk, 'ip) dns_params \<Rightarrow> string \<Rightarrow> (srv_record list, dns_bootstrap_error) result" where
  "query_srv P seed =
     (let query_name = ''_nodes._tcp.'' @ seed @ ''.''
      in case srv_lookup P query_name of
           None \<Rightarrow> Inl DnsTimeout
         | Some r \<Rightarrow> map_err (\<lambda>e. SrvQueryFailed (query_name @ '': '' @ e)) r)"

definition resolve_host :: "('pk, 'ip) dns_params \<Rightarrow> string \<Rightarrow> ('ip, dns_bootstrap_error) result" where
  "resolve_host P hostname =
     (case lookup_ip P hostname of
        None \<Rightarrow> Inl DnsTimeout
      | Some r \<Rightarrow>
          and_then (map_err (HostResolutionFailed hostname) r) (\<lambda>ips.
            ok_or (HostResolutionFailed hostname ''no A/AAAA records returned'')
              (case ips of [] \<Rightarrow> None | ip # _ \<Rightarrow> Some ip)))"

section \<open>Sampling\<close>

record ('pk, 'ip) bootstrapped_peer =
  bp_pubkey :: 'pk
  bp_addr :: "'ip \<times> u16"

fun sample_records ::
  "('pk, 'ip) dns_params \<Rightarrow> nat \<Rightarrow> bytes set \<Rightarrow> srv_record list \<Rightarrow> ('pk, 'ip) bootstrapped_peer list \<Rightarrow>
    ('pk, 'ip) bootstrapped_peer list \<times> outputs" where
  "sample_records P num_addrs ignore [] found = (found, [])"
| "sample_records P num_addrs ignore (srv # srvs) found =
     (if length found \<ge> num_addrs then (found, [])
      else case decode_pubkey_from_hostname P (target srv) of
             Inl e \<Rightarrow>
               let (ps, out) = sample_records P num_addrs ignore srvs found
               in (ps, Log Info (''[dns_bootstrap] Failed to decode pubkey from '' @ target srv @ '': '' @ show_dns_error e) # out)
           | Inr (pubkey, node_id) \<Rightarrow>
               if node_id \<in> ignore then sample_records P num_addrs ignore srvs found
               else case resolve_host P (target srv) of
                      Inl e \<Rightarrow>
                        let (ps, out) = sample_records P num_addrs ignore srvs found
                        in (ps, Log Info (''[dns_bootstrap] Failed to resolve '' @ target srv @ '': '' @ show_dns_error e) # out)
                    | Inr ip \<Rightarrow>
                        sample_records P num_addrs ignore srvs
                          (found @ [\<lparr>bp_pubkey = pubkey, bp_addr = (ip, port srv)\<rparr>]))"

fun sample_seeds ::
  "('pk, 'ip) dns_params \<Rightarrow> nat \<Rightarrow> bytes set \<Rightarrow> string list \<Rightarrow> ('pk, 'ip) bootstrapped_peer list \<Rightarrow>
    ('pk, 'ip) bootstrapped_peer list \<times> outputs" where
  "sample_seeds P num_addrs ignore [] found = (found, [])"
| "sample_seeds P num_addrs ignore (seed # seeds) found =
     (if length found \<ge> num_addrs then (found, [])
      else case query_srv P seed of
             Inl e \<Rightarrow>
               let (ps, out) = sample_seeds P num_addrs ignore seeds found
               in (ps, Log Warn (''[dns_bootstrap] SRV query failed for '' @ seed @ '': '' @ show_dns_error e) # out)
           | Inr srv_records \<Rightarrow>
               if srv_records = []
               then let (ps, out) = sample_seeds P num_addrs ignore seeds found
                    in (ps, Log Info (''[dns_bootstrap] No SRV records returned from '' @ seed) # out)
               else
                 let (ps1, out1) = sample_records P num_addrs ignore srv_records found;
                     (ps2, out2) = sample_seeds P num_addrs ignore seeds ps1
                 in (ps2, Log Info (''[dns_bootstrap] Got '' @ show_nat (length srv_records) @
                       '' SRV records from '' @ seed) # out1 @ out2))"

definition sample_node_addrs ::
  "('pk, 'ip) dns_params \<Rightarrow> dns_bootstrap_config \<Rightarrow> nat \<Rightarrow> bytes set \<Rightarrow>
    (('pk, 'ip) bootstrapped_peer list, dns_bootstrap_error) result \<times> outputs" where
  "sample_node_addrs P config num_addrs ignore =
     (let (found, out) = sample_seeds P num_addrs ignore (dns_seeds config) []
      in (if found = [] then Inl (SrvQueryFailed ''no peers discovered from any DNS seed'') else Inr found, out))"

text \<open>Construction: \<open>system_conf\<close> is what reading the system's resolver configuration gives.\<close>

definition SrvQueryExecutor_new :: "(unit, string) result \<Rightarrow> (unit, dns_bootstrap_error) result" where
  "SrvQueryExecutor_new system_conf = map_err (\<lambda>e. ResolverError (''system resolver init: '' @ e)) system_conf"

definition DnsBootstrapper_new :: "(unit, string) result \<Rightarrow> dns_bootstrap_config \<Rightarrow> (dns_bootstrap_config, dns_bootstrap_error) result" where
  "DnsBootstrapper_new system_conf config = and_then (SrvQueryExecutor_new system_conf) (\<lambda>_. Inr config)"

section \<open>Reference definition\<close>

definition eligible_peer ::
  "('pk, 'ip) dns_params \<Rightarrow> bytes set \<Rightarrow> srv_record \<Rightarrow> ('pk, 'ip) bootstrapped_peer option" where
  "eligible_peer P ignore srv =
     (case (decode_pubkey_from_hostname P (target srv), resolve_host P (target srv)) of
        (Inr (pubkey, node_id), Inr ip) \<Rightarrow>
          if node_id \<in> ignore then None else Some \<lparr>bp_pubkey = pubkey, bp_addr = (ip, port srv)\<rparr>
      | _ \<Rightarrow> None)"

definition seed_records :: "('pk, 'ip) dns_params \<Rightarrow> string \<Rightarrow> srv_record list" where
  "seed_records P seed = (case query_srv P seed of Inl _ \<Rightarrow> [] | Inr rs \<Rightarrow> rs)"

definition all_eligible ::
  "('pk, 'ip) dns_params \<Rightarrow> bytes set \<Rightarrow> string list \<Rightarrow> ('pk, 'ip) bootstrapped_peer list" where
  "all_eligible P ignore seeds = concat (map (List.map_filter (eligible_peer P ignore) \<circ> seed_records P) seeds)"

lemma take_take_append: "take n (take n xs @ ys) = take n (xs @ ys)"
  by (cases "n \<le> length xs") auto

lemma sample_records_take:
  "length found \<le> num \<Longrightarrow> fst (sample_records P num ignore srvs found) =
    take num (found @ List.map_filter (eligible_peer P ignore) srvs)"
proof (induction srvs arbitrary: found)
  case (Cons srv srvs)
  show ?case
  proof (cases "length found \<ge> num")
    case True
    then show ?thesis using Cons.prems by simp
  next
    case False
    then show ?thesis
      using Cons by (auto simp: eligible_peer_def List.map_filter_simps Let_def take_Cons' case_prod_beta
          split: sum.split)
  qed
qed (simp add: List.map_filter_simps)

lemma sample_seeds_take:
  "length found \<le> num \<Longrightarrow> fst (sample_seeds P num ignore seeds found) = take num (found @ all_eligible P ignore seeds)"
proof (induction seeds arbitrary: found)
  case (Cons seed seeds)
  let ?E = "List.map_filter (eligible_peer P ignore)"
  have all: "all_eligible P ignore (seed # seeds) = ?E (seed_records P seed) @ all_eligible P ignore seeds"
    by (simp add: all_eligible_def)
  show ?case
  proof (cases "length found \<ge> num")
    case True
    then show ?thesis using Cons.prems by simp
  next
    case False
    show ?thesis
    proof (cases "query_srv P seed")
      case (Inl e)
      then show ?thesis using False Cons by (simp add: all seed_records_def List.map_filter_simps Let_def case_prod_beta)
    next
      case (Inr rs)
      let ?ps = "take num (found @ ?E rs)"
      have r: "fst (sample_records P num ignore rs found) = ?ps" using Cons.prems by (rule sample_records_take)
      have "fst (sample_seeds P num ignore seeds ?ps) = take num (?ps @ all_eligible P ignore seeds)"
        by (rule Cons.IH) simp
      also have "\<dots> = take num ((found @ ?E rs) @ all_eligible P ignore seeds)"
        by (rule take_take_append)
      finally show ?thesis
        using False Inr Cons r
        by (cases "rs = []") (simp_all add: all seed_records_def List.map_filter_simps Let_def case_prod_beta)
    qed
  qed
qed (simp add: all_eligible_def)

section \<open>Properties\<close>

text \<open>C27: sampling returns the first \<open>num_addrs\<close> eligible peers. The loops with their early exits
  compute the prefix of the list of all records, over the seeds in order, whose hostname decodes to a
  key outside the ignore set and resolves; with none there is an error, and every address pairs the
  first resolved IP with the record's own port.\<close>

theorem sample_is_prefix_of_eligible:
  "fst (sample_node_addrs P config num_addrs ignore) =
    (case take num_addrs (all_eligible P ignore (dns_seeds config)) of
       [] \<Rightarrow> Inl (SrvQueryFailed ''no peers discovered from any DNS seed'')
     | p # ps \<Rightarrow> Inr (p # ps))"
  using sample_seeds_take [of "[]" num_addrs P ignore "dns_seeds config"]
  by (simp add: sample_node_addrs_def case_prod_beta Let_def split: list.split)

end
