(* ===== verification/Bitcoind.thy ===== *)
theory Bitcoind
  imports Logging Hex_Utils Float64
begin

text \<open>
  \<^verbatim>\<open>src/convert.rs\<close> and \<^verbatim>\<open>src/bitcoind_client.rs\<close>. JSON values, the RPC transport, addresses and
  transaction codecs are parameters. The fee table is read by every component and written by one
  polling task, one bucket at a time; \<open>poll_reach\<close> is the relation of the tables a reader can see.
  Shown: the floor every reader sees, what a round of failed calls changes, and the accuracy of the
  conversion of a fee rate.
\<close>

section \<open>Responses\<close>

datatype io_kind = InvalidData | PermissionDenied | OtherKind

text \<open>\<open>re_inner\<close>: the wrapped error, printed; a new error wraps its message.\<close>

record rpc_error =
  re_kind :: io_kind
  re_text :: string
  re_inner :: "string option"

definition io_error_new :: "io_kind \<Rightarrow> string \<Rightarrow> rpc_error" where
  "io_error_new k msg = \<lparr>re_kind = k, re_text = msg, re_inner = Some msg\<rparr>"

record 'j json_ops =
  j_index :: "'j \<Rightarrow> string \<Rightarrow> 'j"
  j_as_str :: "'j \<Rightarrow> string option"
  j_as_u64 :: "'j \<Rightarrow> u64 option"
  j_as_i64 :: "'j \<Rightarrow> int option"
  j_as_bool :: "'j \<Rightarrow> bool option"
  j_as_f64 :: "'j \<Rightarrow> rat option"
  j_is_null :: "'j \<Rightarrow> bool"
  j_as_array :: "'j \<Rightarrow> 'j list option"

definition invalid_field :: "string \<Rightarrow> string \<Rightarrow> rpc_error" where
  "invalid_field field message =
     io_error_new InvalidData (''invalid or missing field `'' @ field @ ''` in bitcoind response: '' @ message)"

definition as_str_field :: "'j json_ops \<Rightarrow> 'j \<Rightarrow> string \<Rightarrow> (string, rpc_error) result" where
  "as_str_field J json field = ok_or (invalid_field field ''expected string'') (j_as_str J (j_index J json field))"

definition as_u64_field :: "'j json_ops \<Rightarrow> 'j \<Rightarrow> string \<Rightarrow> (u64, rpc_error) result" where
  "as_u64_field J json field =
     ok_or (invalid_field field ''expected unsigned integer'') (j_as_u64 J (j_index J json field))"

definition as_i64_field :: "'j json_ops \<Rightarrow> 'j \<Rightarrow> string \<Rightarrow> (int, rpc_error) result" where
  "as_i64_field J json field =
     ok_or (invalid_field field ''expected signed integer'') (j_as_i64 J (j_index J json field))"

definition as_bool_field :: "'j json_ops \<Rightarrow> 'j \<Rightarrow> string \<Rightarrow> (bool, rpc_error) result" where
  "as_bool_field J json field = ok_or (invalid_field field ''expected boolean'') (j_as_bool J (j_index J json field))"

definition as_f64_field :: "'j json_ops \<Rightarrow> 'j \<Rightarrow> string \<Rightarrow> (rat, rpc_error) result" where
  "as_f64_field J json field = ok_or (invalid_field field ''expected number'') (j_as_f64 J (j_index J json field))"

record funded_tx =
  changepos :: int
  funded_hex :: string

definition funded_tx_of_json :: "'j json_ops \<Rightarrow> 'j \<Rightarrow> (funded_tx, rpc_error) result" where
  "funded_tx_of_json J json =
     and_then (as_i64_field J json ''changepos'') (\<lambda>c.
     and_then (as_str_field J json ''hex'') (\<lambda>h. Inr \<lparr>changepos = c, funded_hex = h\<rparr>))"

datatype raw_tx = RawTx string

definition raw_tx_of_json :: "'j json_ops \<Rightarrow> 'j \<Rightarrow> (raw_tx, rpc_error) result" where
  "raw_tx_of_json J json =
     map_sum id RawTx (ok_or (invalid_field ''<root>'' ''expected raw transaction hex string'') (j_as_str J json))"

record signed_tx =
  complete :: bool
  signed_hex :: string

definition signed_tx_of_json :: "'j json_ops \<Rightarrow> 'j \<Rightarrow> (signed_tx, rpc_error) result" where
  "signed_tx_of_json J json =
     and_then (as_str_field J json ''hex'') (\<lambda>h.
     and_then (as_bool_field J json ''complete'') (\<lambda>c. Inr \<lparr>complete = c, signed_hex = h\<rparr>))"

datatype new_address = NewAddress string

definition new_address_of_json :: "'j json_ops \<Rightarrow> 'j \<Rightarrow> (new_address, rpc_error) result" where
  "new_address_of_json J json =
     map_sum id NewAddress (ok_or (invalid_field ''<root>'' ''expected address string'') (j_as_str J json))"

text \<open>The fee conversion shared by the two fee responses: BTC/kvB to satoshi/kW.\<close>

definition btc_per_kvb_to_sat_per_kw :: "rat \<Rightarrow> u32" where
  "btc_per_kvb_to_sat_per_kw feerate =
     int_as_u32 (f64_round_half_away (f64_div (f64_mul feerate 100000000) 4))"

record fee_response =
  feerate_sat_per_kw :: "u32 option"
  errored :: bool

definition fee_response_of_json :: "'j json_ops \<Rightarrow> 'j \<Rightarrow> (fee_response, rpc_error) result" where
  "fee_response_of_json J json =
     Inr \<lparr>feerate_sat_per_kw = map_option btc_per_kvb_to_sat_per_kw (j_as_f64 J (j_index J json ''feerate'')),
          errored = (\<not> j_is_null J (j_index J json ''errors''))\<rparr>"

definition mempool_min_fee_of_json :: "'j json_ops \<Rightarrow> 'j \<Rightarrow> (fee_response, rpc_error) result" where
  "mempool_min_fee_of_json J json =
     Inr \<lparr>feerate_sat_per_kw = map_option btc_per_kvb_to_sat_per_kw (j_as_f64 J (j_index J json ''mempoolminfee'')),
          errored = (\<not> j_is_null J (j_index J json ''errors''))\<rparr>"

record ('h, 'txid, 'addr) chain_parsers =
  parse_block_hash :: "string \<Rightarrow> ('h, string) result"
  parse_txid :: "string \<Rightarrow> ('txid, string) result"
  amount_from_btc :: "rat \<Rightarrow> (u64, string) result"
  parse_address :: "string \<Rightarrow> ('addr, string) result"

record 'h blockchain_info =
  latest_height :: u64
  latest_blockhash :: 'h
  chain_name :: string

definition blockchain_info_of_json ::
  "('h, 'txid, 'addr) chain_parsers \<Rightarrow> 'j json_ops \<Rightarrow> 'j \<Rightarrow> ('h blockchain_info, rpc_error) result" where
  "blockchain_info_of_json X J json =
     and_then (as_u64_field J json ''blocks'') (\<lambda>height.
     and_then (as_str_field J json ''bestblockhash'') (\<lambda>s.
     and_then (map_err (\<lambda>e. io_error_new InvalidData (''invalid field `bestblockhash` in bitcoind response: '' @ e))
       (parse_block_hash X s)) (\<lambda>h.
     and_then (as_str_field J json ''chain'') (\<lambda>c.
       Inr \<lparr>latest_height = height, latest_blockhash = h, chain_name = c\<rparr>))))"

record ('txid, 'addr) list_unspent_utxo =
  lu_txid :: 'txid
  lu_vout :: u32
  lu_amount :: u64
  lu_address :: 'addr

definition unspent_utxo_of_json ::
  "('h, 'txid, 'addr) chain_parsers \<Rightarrow> 'j json_ops \<Rightarrow> 'j \<Rightarrow> (('txid, 'addr) list_unspent_utxo, rpc_error) result" where
  "unspent_utxo_of_json X J u =
     and_then (as_str_field J u ''txid'') (\<lambda>ts.
     and_then (map_err (\<lambda>e. io_error_new InvalidData (''invalid field `txid` in listunspent response: '' @ e))
       (parse_txid X ts)) (\<lambda>txid.
     and_then (as_u64_field J u ''vout'') (\<lambda>vout.
     and_then (as_f64_field J u ''amount'') (\<lambda>btc.
     and_then (map_err (\<lambda>e. io_error_new InvalidData (''invalid field `amount` in listunspent response: '' @ e))
       (amount_from_btc X btc)) (\<lambda>amount.
     and_then (as_str_field J u ''address'') (\<lambda>as.
     and_then (map_err (\<lambda>e. io_error_new InvalidData (''invalid field `address` in listunspent response: '' @ e))
       (parse_address X as)) (\<lambda>address.
       Inr \<lparr>lu_txid = txid, lu_vout = ucast vout, lu_amount = amount, lu_address = address\<rparr>)))))))"

fun unspent_loop ::
  "('h, 'txid, 'addr) chain_parsers \<Rightarrow> 'j json_ops \<Rightarrow> ('txid, 'addr) list_unspent_utxo list \<Rightarrow> 'j list \<Rightarrow>
    (('txid, 'addr) list_unspent_utxo list, rpc_error) result" where
  "unspent_loop X J utxos [] = Inr utxos"
| "unspent_loop X J utxos (u # us) =
     and_then (unspent_utxo_of_json X J u) (\<lambda>utxo. unspent_loop X J (utxos @ [utxo]) us)"

definition list_unspent_of_json ::
  "('h, 'txid, 'addr) chain_parsers \<Rightarrow> 'j json_ops \<Rightarrow> 'j \<Rightarrow> (('txid, 'addr) list_unspent_utxo list, rpc_error) result" where
  "list_unspent_of_json X J json =
     and_then (ok_or (invalid_field ''<root>'' ''expected array of UTXOs'') (j_as_array J json))
       (unspent_loop X J [])"


section \<open>Requests\<close>

text \<open>The arguments of a call; \<open>'j\<close> is the response. \<open>call_method\<close> converts the response to its type.\<close>

datatype jval = JStr string | JNum rat | JBool bool | JArr "jval list" | JObj "(string \<times> jval) list"

type_synonym 'j rpc = "string \<Rightarrow> jval list \<Rightarrow> ('j, rpc_error) result"

definition call_method :: "('j \<Rightarrow> ('t, rpc_error) result) \<Rightarrow> 'j rpc \<Rightarrow> string \<Rightarrow> jval list \<Rightarrow> ('t, rpc_error) result" where
  "call_method of_json rpc meth args = and_then (rpc meth args) of_json"

datatype confirmation_target =
  MaximumFeeEstimate | UrgentOnChainSweep | MinAllowedAnchorChannelRemoteFee
| MinAllowedNonAnchorChannelRemoteFee | AnchorChannelFee | NonAnchorChannelFee
| ChannelCloseMinimum | OutputSpendingFee

definition show_target :: "confirmation_target \<Rightarrow> string" where
  "show_target t = (case t of
     MaximumFeeEstimate \<Rightarrow> ''MaximumFeeEstimate'' | UrgentOnChainSweep \<Rightarrow> ''UrgentOnChainSweep''
   | MinAllowedAnchorChannelRemoteFee \<Rightarrow> ''MinAllowedAnchorChannelRemoteFee''
   | MinAllowedNonAnchorChannelRemoteFee \<Rightarrow> ''MinAllowedNonAnchorChannelRemoteFee''
   | AnchorChannelFee \<Rightarrow> ''AnchorChannelFee'' | NonAnchorChannelFee \<Rightarrow> ''NonAnchorChannelFee''
   | ChannelCloseMinimum \<Rightarrow> ''ChannelCloseMinimum'' | OutputSpendingFee \<Rightarrow> ''OutputSpendingFee'')"

type_synonym fees = "(confirmation_target, u32) hmap"

definition MIN_FEERATE :: u32 where
  "MIN_FEERATE = 253"

section \<open>Fee estimates\<close>

definition initial_fees :: fees where
  "initial_fees =
     hm_insert OutputSpendingFee MIN_FEERATE
     (hm_insert ChannelCloseMinimum MIN_FEERATE
     (hm_insert NonAnchorChannelFee 2000
     (hm_insert AnchorChannelFee MIN_FEERATE
     (hm_insert MinAllowedNonAnchorChannelRemoteFee MIN_FEERATE
     (hm_insert MinAllowedAnchorChannelRemoteFee MIN_FEERATE
     (hm_insert UrgentOnChainSweep 5000
     (hm_insert MaximumFeeEstimate 50000 hm_new)))))))"

definition load_current :: "fees \<Rightarrow> confirmation_target \<Rightarrow> u32 \<times> outputs" where
  "load_current fees t =
     (case hm_get fees t of
        Some v \<Rightarrow> (v, [])
      | None \<Rightarrow> (MIN_FEERATE, [Log Error (''Missing fee bucket for '' @ show_target t @ '', defaulting to MIN_FEERATE'')]))"

definition get_est_sat_per_1000_weight :: "fees \<Rightarrow> confirmation_target \<Rightarrow> u32 \<times> outputs" where
  "get_est_sat_per_1000_weight fees t =
     (case hm_get fees t of
        Some v \<Rightarrow> (v, [])
      | None \<Rightarrow> (MIN_FEERATE, [Log Error (''Missing fee bucket for '' @ show_target t @ '', defaulting to MIN_FEERATE'')]))"

definition store_fee :: "confirmation_target \<times> u32 \<Rightarrow> fees \<Rightarrow> fees \<times> outputs" where
  "store_fee tv fees =
     (case hm_get fees (fst tv) of
        Some _ \<Rightarrow> (hm_insert (fst tv) (snd tv) fees, [])
      | None \<Rightarrow> (fees, [Log Error (''Missing fee bucket for '' @ show_target (fst tv))]))"

definition estimate_smartfee ::
  "'j json_ops \<Rightarrow> 'j rpc \<Rightarrow> fees \<Rightarrow> nat \<Rightarrow> string \<Rightarrow> u32 \<Rightarrow> confirmation_target \<Rightarrow> string \<Rightarrow> u32 \<times> outputs" where
  "estimate_smartfee J rpc fees conf_target_blocks estimate_mode fallback_when_none fallback_target_for_previous label =
     (case call_method (fee_response_of_json J) rpc ''estimatesmartfee''
             [JNum (of_nat conf_target_blocks), JStr estimate_mode] of
        Inr resp \<Rightarrow>
          (case feerate_sat_per_kw resp of
             Some feerate \<Rightarrow> (max feerate MIN_FEERATE, [])
           | None \<Rightarrow> (fallback_when_none, []))
      | Inl e \<Rightarrow>
          let (v, out) = load_current fees fallback_target_for_previous
          in (v, Log Warn (''Fee polling '' @ label @ '' estimatesmartfee failed: '' @ re_text e @
                   ''. Keeping previous value.'') # out))"

definition mempoolmin_estimate :: "'j json_ops \<Rightarrow> 'j rpc \<Rightarrow> fees \<Rightarrow> u32 \<times> outputs" where
  "mempoolmin_estimate J rpc fees =
     (case call_method (mempool_min_fee_of_json J) rpc ''getmempoolinfo'' [] of
        Inr resp \<Rightarrow>
          (case map_option (\<lambda>f. max f MIN_FEERATE) (feerate_sat_per_kw resp) of
             Some f \<Rightarrow> (f, []) | None \<Rightarrow> (MIN_FEERATE, []))
      | Inl e \<Rightarrow>
          let (v, out) = load_current fees MinAllowedAnchorChannelRemoteFee
          in (v, Log Warn (''Fee polling getmempoolinfo failed: '' @ re_text e @ ''. Keeping previous value.'') # out))"

text \<open>One iteration of the polling loop: the estimates, then the stores in order.\<close>

definition poll_stores :: "'j json_ops \<Rightarrow> 'j rpc \<Rightarrow> fees \<Rightarrow> (confirmation_target \<times> u32) list \<times> outputs" where
  "poll_stores J rpc fees =
     (let (mempoolmin, out1) = mempoolmin_estimate J rpc fees;
          (background, out2) =
            estimate_smartfee J rpc fees 144 ''ECONOMICAL'' MIN_FEERATE AnchorChannelFee ''background'';
          (normal, out3) = estimate_smartfee J rpc fees 18 ''ECONOMICAL'' 2000 NonAnchorChannelFee ''normal'';
          (high_prio, out4) =
            estimate_smartfee J rpc fees 6 ''CONSERVATIVE'' 5000 UrgentOnChainSweep ''high-priority'';
          (very_high_prio, out5) =
            estimate_smartfee J rpc fees 2 ''CONSERVATIVE'' 50000 MaximumFeeEstimate ''very-high-priority''
      in ([(MaximumFeeEstimate, very_high_prio),
           (UrgentOnChainSweep, high_prio),
           (MinAllowedAnchorChannelRemoteFee, mempoolmin),
           (MinAllowedNonAnchorChannelRemoteFee, saturating_sub background 250),
           (AnchorChannelFee, background),
           (NonAnchorChannelFee, normal),
           (ChannelCloseMinimum, background),
           (OutputSpendingFee, background)], out1 @ out2 @ out3 @ out4 @ out5))"

fun apply_stores :: "(confirmation_target \<times> u32) list \<Rightarrow> fees \<Rightarrow> fees \<times> outputs" where
  "apply_stores [] fees = (fees, [])"
| "apply_stores (s # ss) fees =
     (let (fees1, out1) = store_fee s fees; (fees2, out2) = apply_stores ss fees1 in (fees2, out1 @ out2))"

definition poll_for_fee_estimates :: "'j json_ops \<Rightarrow> 'j rpc \<Rightarrow> fees \<Rightarrow> fees \<times> outputs" where
  "poll_for_fee_estimates J rpc fees =
     (let (stores, out1) = poll_stores J rpc fees; (fees', out2) = apply_stores stores fees in (fees', out1 @ out2))"

text \<open>The tables a reader can see, with the stores still to come: each iteration talks to its own
  bitcoind (\<open>rpc\<close>), and a reader may run between any two stores.\<close>

inductive poll_reach :: "'j json_ops \<Rightarrow> fees \<Rightarrow> (confirmation_target \<times> u32) list \<Rightarrow> bool" for J where
  poll_init: "poll_reach J initial_fees []"
| poll_round: "poll_reach J fees [] \<Longrightarrow> poll_reach J fees (fst (poll_stores J rpc fees))"
| poll_store: "poll_reach J fees (s # ss) \<Longrightarrow> poll_reach J (fst (store_fee s fees)) ss"

definition BitcoindClient_new ::
  "('h, 'txid, 'addr) chain_parsers \<Rightarrow> 'j json_ops \<Rightarrow> 'j rpc \<Rightarrow> (fees, rpc_error) result" where
  "BitcoindClient_new X J rpc =
     (case call_method (blockchain_info_of_json X J) rpc ''getblockchaininfo'' [] of
        Inl _ \<Rightarrow> Inl (io_error_new PermissionDenied
          ''Failed to make initial call to bitcoind - please check your RPC user/password and access settings'')
      | Inr _ \<Rightarrow> Inr initial_fees)"

section \<open>Wallet calls\<close>

text \<open>The endpoint and the credentials of a client; \<open>base64\<close> is the encoder.\<close>

definition get_new_rpc_client :: "(string \<Rightarrow> string) \<Rightarrow> string \<Rightarrow> u16 \<Rightarrow> string \<Rightarrow> string \<Rightarrow> (string \<times> u16) \<times> string" where
  "get_new_rpc_client base64 host rpc_port_number rpc_user rpc_pass =
     ((host, rpc_port_number), base64 (rpc_user @ '':'' @ rpc_pass))"

definition get_blockchain_info ::
  "('h, 'txid, 'addr) chain_parsers \<Rightarrow> 'j json_ops \<Rightarrow> 'j rpc \<Rightarrow> ('h blockchain_info, rpc_error) result" where
  "get_blockchain_info X J rpc = call_method (blockchain_info_of_json X J) rpc ''getblockchaininfo'' []"

definition create_raw_transaction :: "'j json_ops \<Rightarrow> 'j rpc \<Rightarrow> (string \<times> rat) list list \<Rightarrow> (raw_tx, rpc_error) result" where
  "create_raw_transaction J rpc outs =
     call_method (raw_tx_of_json J) rpc ''createrawtransaction''
       [JArr [], JArr (map (\<lambda>m. JObj (map (\<lambda>(a, v). (a, JNum v)) m)) outs)]"

definition fund_raw_transaction :: "'j json_ops \<Rightarrow> 'j rpc \<Rightarrow> fees \<Rightarrow> raw_tx \<Rightarrow> (funded_tx, rpc_error) result \<times> outputs" where
  "fund_raw_transaction J rpc fees tx =
     (let (rate, out) = get_est_sat_per_1000_weight fees NonAnchorChannelFee
      in (call_method (funded_tx_of_json J) rpc ''fundrawtransaction''
            [JStr (case tx of RawTx h \<Rightarrow> h),
             JObj [(''fee_rate'', JNum (f64_div (of_nat (unat rate)) 250)), (''replaceable'', JBool False)]], out))"

definition send_raw_transaction ::
  "('j \<Rightarrow> ('txid, rpc_error) result) \<Rightarrow> 'j rpc \<Rightarrow> raw_tx \<Rightarrow> (unit, rpc_error) result" where
  "send_raw_transaction txid_of_json rpc tx =
     map_sum id (\<lambda>_. ()) (call_method txid_of_json rpc ''sendrawtransaction'' [JStr (case tx of RawTx h \<Rightarrow> h)])"

definition sign_raw_transaction_with_wallet :: "'j json_ops \<Rightarrow> 'j rpc \<Rightarrow> string \<Rightarrow> (signed_tx, rpc_error) result" where
  "sign_raw_transaction_with_wallet J rpc tx_hex =
     call_method (signed_tx_of_json J) rpc ''signrawtransactionwithwallet'' [JStr tx_hex]"

text \<open>\<open>from_str\<close> parses an address of an unknown network, \<open>require_network\<close> checks it.\<close>

definition get_new_address ::
  "'j json_ops \<Rightarrow> 'j rpc \<Rightarrow> (string \<Rightarrow> ('ua, string) result) \<Rightarrow> ('ua \<Rightarrow> ('addr, string) result) \<Rightarrow> ('addr, rpc_error) result" where
  "get_new_address J rpc from_str require_network =
     and_then (call_method (new_address_of_json J) rpc ''getnewaddress'' [JStr ''LDK output address'']) (\<lambda>a.
       case a of NewAddress s \<Rightarrow>
         and_then (map_err (\<lambda>e. io_error_new InvalidData (''bitcoind returned invalid address '' @ s @ '': '' @ e))
           (from_str s)) (\<lambda>parsed.
         map_err (\<lambda>e. io_error_new InvalidData (''bitcoind returned address for wrong network: '' @ e))
           (require_network parsed)))"

definition list_unspent ::
  "('h, 'txid, 'addr) chain_parsers \<Rightarrow> 'j json_ops \<Rightarrow> 'j rpc \<Rightarrow> (('txid, 'addr) list_unspent_utxo list, rpc_error) result" where
  "list_unspent X J rpc = call_method (list_unspent_of_json X J) rpc ''listunspent'' []"

definition broadcast_transactions :: "('tx \<Rightarrow> string) \<Rightarrow> (string list \<Rightarrow> string) \<Rightarrow> 'j rpc \<Rightarrow> 'tx list \<Rightarrow> outputs" where
  "broadcast_transactions serialize_hex show_txn rpc txs =
     (let txn = map serialize_hex txs;
          res = (if length txn = 1 then rpc ''sendrawtransaction'' [JStr (txn ! 0)]
                 else rpc ''submitpackage'' [JArr (map JStr txn)])
      in case res of
           Inr _ \<Rightarrow> []
         | Inl e \<Rightarrow>
             let err_str = (case re_inner e of Some i \<Rightarrow> i | None \<Rightarrow> re_text e)
             in [Log Error (''Warning, failed to broadcast a transaction, this is likely okay but may indicate an error: '' @
                   err_str @ [CHR 0x0A] @ ''Transactions: '' @ show_txn txn)])"

text \<open>\<open>UtxoV0\<close> is \<^verbatim>\<open>Utxo::new_v0_p2wpkh\<close>; the other constructor has its fields written out.\<close>

datatype ('txid, 'w, 's) utxo =
  UtxoV0 "'txid \<times> u32" u64 'w
| Utxo (u_outpoint: "'txid \<times> u32") (u_value: u64) (u_script: 's) (u_weight: u64)

record ('addr, 'w, 's) address_ops =
  witness_program :: "'addr \<Rightarrow> (nat \<times> bytes) option"
  prog_is_p2wpkh :: "nat \<times> bytes \<Rightarrow> bool"
  prog_is_p2tr :: "nat \<times> bytes \<Rightarrow> bool"
  wpkh_from_slice :: "bytes \<Rightarrow> 'w option"
  xonly_from_slice :: "bytes \<Rightarrow> unit option"
  script_pubkey :: "'addr \<Rightarrow> 's"

definition confirmed_utxo ::
  "('addr, 'w, 's) address_ops \<Rightarrow> ('txid, 'addr) list_unspent_utxo \<Rightarrow> ('txid, 'w, 's) utxo option" where
  "confirmed_utxo A u =
     (let outpoint = (lu_txid u, lu_vout u); val = lu_amount u
      in case witness_program A (lu_address u) of
           None \<Rightarrow> None
         | Some prog \<Rightarrow>
             if prog_is_p2wpkh A prog then map_option (UtxoV0 outpoint val) (wpkh_from_slice A (snd prog))
             else if prog_is_p2tr A prog
             then map_option (\<lambda>_. Utxo outpoint val (script_pubkey A (lu_address u)) (4 + 1 + 1 + 64))
                    (xonly_from_slice A (snd prog))
             else None)"

definition list_confirmed_utxos ::
  "('h, 'txid, 'addr) chain_parsers \<Rightarrow> ('addr, 'w, 's) address_ops \<Rightarrow> 'j json_ops \<Rightarrow> 'j rpc \<Rightarrow>
    (('txid, 'w, 's) utxo list, unit) result" where
  "list_confirmed_utxos X A J rpc =
     and_then (map_err (\<lambda>_. ()) (list_unspent X J rpc)) (\<lambda>utxos. Inr (List.map_filter (confirmed_utxo A) utxos))"

definition get_change_destination_script ::
  "('addr, 'w, 's) address_ops \<Rightarrow> 'j json_ops \<Rightarrow> 'j rpc \<Rightarrow> (string \<Rightarrow> ('ua, string) result) \<Rightarrow>
    ('ua \<Rightarrow> ('addr, string) result) \<Rightarrow> ('s, unit) result" where
  "get_change_destination_script A J rpc from_str require_network =
     map_err (\<lambda>_. ()) (map_sum id (script_pubkey A) (get_new_address J rpc from_str require_network))"

definition get_change_script ::
  "('addr, 'w, 's) address_ops \<Rightarrow> 'j json_ops \<Rightarrow> 'j rpc \<Rightarrow> (string \<Rightarrow> ('ua, string) result) \<Rightarrow>
    ('ua \<Rightarrow> ('addr, string) result) \<Rightarrow> ('s, unit) result" where
  "get_change_script A J rpc from_str require_network =
     map_sum (\<lambda>_. ()) (script_pubkey A) (get_new_address J rpc from_str require_network)"

definition sign_psbt ::
  "'j json_ops \<Rightarrow> 'j rpc \<Rightarrow> ('psbt \<Rightarrow> bytes) \<Rightarrow> (bytes \<Rightarrow> 'tx option) \<Rightarrow> 'psbt \<Rightarrow> ('tx, unit) result" where
  "sign_psbt J rpc encode_unsigned consensus_decode psbt =
     and_then (map_err (\<lambda>_. ()) (sign_raw_transaction_with_wallet J rpc (hex_str (encode_unsigned psbt)))) (\<lambda>signed.
     and_then (ok_or () (to_vec (signed_hex signed))) (\<lambda>signed_tx_bytes.
       ok_or () (consensus_decode signed_tx_bytes)))"


section \<open>The fee table seen by readers\<close>

definition fee_floor :: "confirmation_target \<Rightarrow> u32" where
  "fee_floor t = (if t = MinAllowedNonAnchorChannelRemoteFee then 3 else MIN_FEERATE)"

definition above_floor :: "fees \<Rightarrow> bool" where
  "above_floor fees \<longleftrightarrow> (\<forall>t. case hm_get fees t of None \<Rightarrow> False | Some v \<Rightarrow> fee_floor t \<le> v)"

definition background_aligned :: "fees \<Rightarrow> bool" where
  "background_aligned fees \<longleftrightarrow>
     hm_get fees ChannelCloseMinimum = hm_get fees AnchorChannelFee \<and>
     hm_get fees OutputSpendingFee = hm_get fees AnchorChannelFee"

lemma above_floorD: "above_floor fees \<Longrightarrow> \<exists>v. hm_get fees t = Some v \<and> fee_floor t \<le> v"
  by (auto simp: above_floor_def split: option.splits dest: spec [of _ t])

lemma load_current_floor:
  "above_floor fees \<Longrightarrow> snd (load_current fees t) = [] \<and> hm_get fees t = Some (fst (load_current fees t)) \<and>
    fee_floor t \<le> fst (load_current fees t)"
  using above_floorD [of fees t] by (auto simp: load_current_def)

lemma get_est_is_load: "get_est_sat_per_1000_weight = load_current"
  by (intro ext) (simp add: get_est_sat_per_1000_weight_def load_current_def)

lemma estimate_smartfee_floor:
  assumes "above_floor fees" "MIN_FEERATE \<le> fallback" "fee_floor prev = MIN_FEERATE"
  shows "MIN_FEERATE \<le> fst (estimate_smartfee J rpc fees blocks md fallback prev label)"
  using assms load_current_floor [OF assms(1), of prev]
  by (auto simp: estimate_smartfee_def Let_def case_prod_beta split: sum.split option.split)

lemma mempoolmin_estimate_floor: "above_floor fees \<Longrightarrow> MIN_FEERATE \<le> fst (mempoolmin_estimate J rpc fees)"
  using load_current_floor [of fees MinAllowedAnchorChannelRemoteFee]
  by (auto simp: mempoolmin_estimate_def fee_floor_def Let_def case_prod_beta split: sum.split option.split)

lemma saturating_sub_floor: "MIN_FEERATE \<le> b \<Longrightarrow> 3 \<le> saturating_sub b 250"
  by (simp add: word_le_nat_alt unat_saturating_sub MIN_FEERATE_def)

lemma poll_stores_floor:
  assumes "above_floor fees" and "s \<in> set (fst (poll_stores J rpc fees))"
  shows "fee_floor (fst s) \<le> snd s"
proof -
  have c: "MIN_FEERATE \<le> MIN_FEERATE" "MIN_FEERATE \<le> 2000" "MIN_FEERATE \<le> 5000" "MIN_FEERATE \<le> 50000"
    by (simp_all add: MIN_FEERATE_def)
  note e = estimate_smartfee_floor [OF assms(1)] mempoolmin_estimate_floor [OF assms(1)] saturating_sub_floor c
  show ?thesis
    using assms(2) by (auto simp: poll_stores_def Let_def case_prod_beta fee_floor_def intro!: e)
qed

lemma get_store_fee:
  "above_floor fees \<Longrightarrow> fst (store_fee s fees) = hm_insert (fst s) (snd s) fees"
  using above_floorD [of fees "fst s"] by (auto simp: store_fee_def)

lemma store_fee_floor: "above_floor fees \<Longrightarrow> fee_floor (fst s) \<le> snd s \<Longrightarrow> above_floor (fst (store_fee s fees))"
  by (subst get_store_fee, assumption) (auto simp: above_floor_def)

lemma apply_stores_insert:
  "above_floor fees \<Longrightarrow> (\<And>s. s \<in> set ss \<Longrightarrow> fee_floor (fst s) \<le> snd s) \<Longrightarrow>
    fst (apply_stores ss fees) = fold (\<lambda>(t, v). hm_insert t v) ss fees \<and> above_floor (fst (apply_stores ss fees)) \<and>
    snd (apply_stores ss fees) = []"
proof (induction ss arbitrary: fees)
  case (Cons s ss)
  have "above_floor (fst (store_fee s fees))" using Cons.prems by (simp add: store_fee_floor)
  from Cons.IH [OF this] Cons.prems show ?case
    using above_floorD [of fees "fst s"]
    by (auto simp: Let_def case_prod_beta get_store_fee store_fee_def)
qed simp

lemma apply_poll_stores:
  assumes "above_floor fees"
  shows "fst (apply_stores (fst (poll_stores J rpc fees)) fees) =
      fold (\<lambda>(t, v). hm_insert t v) (fst (poll_stores J rpc fees)) fees"
    "above_floor (fst (apply_stores (fst (poll_stores J rpc fees)) fees))"
    "snd (apply_stores (fst (poll_stores J rpc fees)) fees) = []"
  using apply_stores_insert [OF assms, of "fst (poll_stores J rpc fees)"] poll_stores_floor [OF assms]
  by blast+

lemma poll_stores_aligned:
  "above_floor fees \<Longrightarrow> background_aligned (fst (apply_stores (fst (poll_stores J rpc fees)) fees))"
  by (simp add: apply_poll_stores(1)) (simp add: background_aligned_def poll_stores_def Let_def case_prod_beta)

lemma initial_fees_ok: "above_floor initial_fees \<and> background_aligned initial_fees"
  unfolding above_floor_def
proof (intro conjI allI)
  fix t
  show "case hm_get initial_fees t of None \<Rightarrow> False | Some v \<Rightarrow> fee_floor t \<le> v"
    by (cases t) (simp_all add: initial_fees_def fee_floor_def MIN_FEERATE_def)
qed (simp add: background_aligned_def initial_fees_def)

lemma poll_reach_inv:
  "poll_reach J fees todo \<Longrightarrow>
    above_floor fees \<and> (\<forall>s \<in> set todo. fee_floor (fst s) \<le> snd s) \<and>
    background_aligned (fst (apply_stores todo fees))"
proof (induction rule: poll_reach.induct)
  case poll_init
  then show ?case by (simp add: initial_fees_ok)
next
  case (poll_round fees rpc)
  then show ?case using poll_stores_floor [of fees _ J rpc] by (simp add: poll_stores_aligned)
next
  case (poll_store fees s ss)
  then show ?case by (simp add: store_fee_floor Let_def case_prod_beta)
qed

lemma failed_estimates:
  assumes "\<And>meth args. \<exists>e. rpc meth args = Inl e"
  shows "fst (estimate_smartfee J rpc fees n md fb prev l) = fst (load_current fees prev)"
    "fst (mempoolmin_estimate J rpc fees) = fst (load_current fees MinAllowedAnchorChannelRemoteFee)"
  using assms [of "''estimatesmartfee''" "[JNum (of_nat n), JStr md]"] assms [of "''getmempoolinfo''" "[]"]
  by (auto simp: estimate_smartfee_def mempoolmin_estimate_def call_method_def Let_def case_prod_beta)

section \<open>Accuracy of the fee conversion\<close>

lemma least_ulp_small: "(2 :: rat) powi (- 1075) \<le> 1 / 2 ^ 53"
  by (simp add: power_int_minus field_simps)

lemma conversion_error:
  assumes "0 \<le> r" and "r * 100000000 \<le> 4 * (2 ^ 32 - 2)"
  shows "\<bar>of_int (f64_round_half_away (f64_div (f64_mul r 100000000) 4)) - r * 100000000 / 4\<bar> < 1"
proof -
  let ?X = "r * 100000000" and ?y = "f64_mul r 100000000"
  let ?z = "f64_div ?y 4"
  have y: "\<bar>?y - ?X\<bar> \<le> \<bar>?X\<bar> / 2 ^ 53 + 1 / 2 ^ 53"
    using f64_round_error [of ?X] least_ulp_small by (simp add: f64_mul_def)
  have X: "\<bar>?X\<bar> \<le> 17179869184" using assms by simp
  have y1: "\<bar>?y - ?X\<bar> \<le> 1 / 1024" using y X by simp
  have Y: "\<bar>?y\<bar> \<le> 34359738368" using abs_triangle_ineq [of "?y - ?X" ?X] y1 X by simp
  have "\<bar>?z - ?y / 4\<bar> \<le> \<bar>?y / 4\<bar> / 2 ^ 53 + 1 / 2 ^ 53"
    using f64_round_error [of "?y / 4"] least_ulp_small by (simp add: f64_div_def)
  then have z1: "\<bar>?z - ?y / 4\<bar> \<le> 1 / 1024" using Y by simp
  show ?thesis using f64_round_half_away_error [of ?z] z1 y1 by linarith
qed

section \<open>Properties\<close>

text \<open>C21: whatever bitcoind answers, and at every moment between two stores of the polling task, every
  bucket is there and a reader gets at least the minimum fee rate 253; the one exception is
  \<open>MinAllowedNonAnchorChannelRemoteFee\<close>, which is at least 3.\<close>

theorem fee_floor_for_every_reader:
  assumes "poll_reach J fees todo"
  shows "snd (get_est_sat_per_1000_weight fees t) = [] \<and>
    (if t = MinAllowedNonAnchorChannelRemoteFee then 3 else 253) \<le> fst (get_est_sat_per_1000_weight fees t)"
  using poll_reach_inv [OF assms] load_current_floor [of fees t]
  by (simp add: get_est_is_load fee_floor_def MIN_FEERATE_def split: if_splits)

text \<open>A bitcoind whose every answer is the number 0.0001 in every field, and one that is down.\<close>

definition num_json :: "rat json_ops" where
  "num_json = \<lparr>j_index = (\<lambda>j _. j), j_as_str = (\<lambda>_. None), j_as_u64 = (\<lambda>_. None), j_as_i64 = (\<lambda>_. None),
     j_as_bool = (\<lambda>_. None), j_as_f64 = Some, j_is_null = (\<lambda>_. False), j_as_array = (\<lambda>_. None)\<rparr>"

definition num_rpc :: "rat rpc" where
  "num_rpc = (\<lambda>meth args. Inr (1 / 10000))"

definition fail_rpc :: "rat rpc" where
  "fail_rpc = (\<lambda>meth args. Inl (io_error_new OtherKind ''connection refused''))"

theorem fee_floor_for_every_reader_witness:
  "poll_reach num_json initial_fees (fst (poll_stores num_json num_rpc initial_fees)) \<and>
   snd (get_est_sat_per_1000_weight initial_fees AnchorChannelFee) = [] \<and>
   253 \<le> fst (get_est_sat_per_1000_weight initial_fees AnchorChannelFee)"
proof -
  have r: "poll_reach num_json initial_fees (fst (poll_stores num_json num_rpc initial_fees))"
    by (rule poll_round [OF poll_init])
  from fee_floor_for_every_reader [OF r, of AnchorChannelFee] r show ?thesis by simp
qed

text \<open>C36: an iteration in which every call fails keeps every bucket as it was, with one exception:
  \<open>MinAllowedNonAnchorChannelRemoteFee\<close> is recomputed from \<open>AnchorChannelFee\<close>, so that the first failed
  iteration lowers it from its initial 253 to 3.\<close>

theorem failed_poll_keeps_fees:
  assumes "poll_reach J fees []" and "\<And>meth args. \<exists>e. rpc meth args = Inl e"
  shows "snd (apply_stores (fst (poll_stores J rpc fees)) fees) = [] \<and>
    hm_get (fst (poll_for_fee_estimates J rpc fees)) t =
      (if t = MinAllowedNonAnchorChannelRemoteFee
       then map_option (\<lambda>b. saturating_sub b 250) (hm_get fees AnchorChannelFee)
       else hm_get fees t) \<and>
    (fees = initial_fees \<longrightarrow>
      hm_get fees MinAllowedNonAnchorChannelRemoteFee = Some 253 \<and>
      hm_get (fst (poll_for_fee_estimates J rpc fees)) MinAllowedNonAnchorChannelRemoteFee = Some 3)"
proof -
  have inv: "above_floor fees" and al: "background_aligned fees"
    using poll_reach_inv [OF assms(1)] by simp_all
  have load: "hm_get fees x = Some (fst (load_current fees x))" for x
    using load_current_floor [OF inv] by blast
  note est = failed_estimates [OF assms(2)]
  have poll: "fst (poll_for_fee_estimates J rpc fees) = fold (\<lambda>(t, v). hm_insert t v) (fst (poll_stores J rpc fees)) fees"
    by (simp add: poll_for_fee_estimates_def Let_def case_prod_beta apply_poll_stores(1) [OF inv])
  have main: "hm_get (fst (poll_for_fee_estimates J rpc fees)) t' =
      (if t' = MinAllowedNonAnchorChannelRemoteFee
       then map_option (\<lambda>b. saturating_sub b 250) (hm_get fees AnchorChannelFee)
       else hm_get fees t')" for t'
    using al by (cases t') (simp_all add: poll poll_stores_def Let_def case_prod_beta est load background_aligned_def)
  have "hm_get initial_fees AnchorChannelFee = Some 253" "hm_get initial_fees MinAllowedNonAnchorChannelRemoteFee = Some 253"
    "saturating_sub (253 :: u32) 250 = 3"
    by (simp_all add: initial_fees_def MIN_FEERATE_def saturating_sub_def)
  then show ?thesis
    using apply_poll_stores(3) [OF inv, of J rpc] main [of t] main [of MinAllowedNonAnchorChannelRemoteFee] by auto
qed

theorem failed_poll_keeps_fees_witness:
  "hm_get (fst (poll_for_fee_estimates num_json fail_rpc initial_fees)) MinAllowedNonAnchorChannelRemoteFee = Some 3 \<and>
   hm_get (fst (poll_for_fee_estimates num_json fail_rpc initial_fees)) NonAnchorChannelFee = Some 2000"
proof -
  have f: "\<And>meth args. \<exists>e. fail_rpc meth args = Inl e" by (simp add: fail_rpc_def)
  have i: "hm_get initial_fees NonAnchorChannelFee = Some 2000" by (simp add: initial_fees_def)
  from failed_poll_keeps_fees [of num_json initial_fees fail_rpc NonAnchorChannelFee, OF poll_init f] i show ?thesis by simp
qed

text \<open>C35: a fee rate of bitcoind in BTC/kvB is converted to satoshi/kW with an error below one
  satoshi, floating-point rounding included, for every rate whose value fits the 32-bit result.\<close>

theorem feerate_conversion_accurate:
  assumes "0 \<le> feerate" and "feerate * 100000000 \<le> 4 * (2 ^ 32 - 2)"
  shows "\<bar>of_nat (unat (btc_per_kvb_to_sat_per_kw feerate)) - feerate * 100000000 / 4\<bar> < 1"
proof -
  let ?R = "f64_round_half_away (f64_div (f64_mul feerate 100000000) 4)"
  have e: "\<bar>of_int ?R - feerate * 100000000 / 4\<bar> < 1" by (rule conversion_error [OF assms])
  have "of_int ?R > (- 1 :: rat)" "of_int ?R < (4294967296 :: rat)" using e assms by auto
  then have "?R > - 1" "?R < 4294967296"
    by (metis of_int_less_iff of_int_minus of_int_1, metis of_int_less_iff of_int_numeral)
  then have "int (unat (btc_per_kvb_to_sat_per_kw feerate)) = ?R"
    using unat_int_as_u32 [of ?R] by (simp add: btc_per_kvb_to_sat_per_kw_def)
  then show ?thesis using e by (metis of_int_of_nat_eq)
qed

theorem feerate_conversion_accurate_witness:
  "\<bar>of_nat (unat (btc_per_kvb_to_sat_per_kw (1 / 10000))) - 2500\<bar> < (1 :: rat)"
  using feerate_conversion_accurate [of "1 / 10000"] by simp

end
