(* ===== verification/Peer_Net.thy ===== *)
theory Peer_Net
  imports Dns_Bootstrap Hex_Utils
begin

text \<open>
  Outbound connections: \<^verbatim>\<open>src/net/peer.rs\<close>, the peer and channel commands under
  \<^verbatim>\<open>src/cli/commands/\<close>, and the tasks of \<^verbatim>\<open>src/main.rs\<close> that connect on their own (reconnection of
  channel peers, DNS bootstrap). The peer manager and the network are parameters: what each poll of
  the handshake sees, which addresses a node announces, what they resolve to. Waiting for a
  handshake is a loop that need not end; \<open>None\<close> is a connection attempt that never returns.
  Shown: exactly when an attempt returns and with what, which attempts a reconnection round makes,
  and that a bootstrap round is bounded and leaves connected peers alone.
\<close>

section \<open>Connecting\<close>

datatype connect_error = ConnectionFailed | ConnectionClosed

text \<open>
  What one attempt meets: whether the peer is connected already, whether the outbound connection
  opens, and, at each poll, whether the connection is reported closed before the timer fires and
  whether the peer is known after it.
\<close>

record conn_env =
  ce_already :: bool
  ce_outbound :: bool
  ce_closed :: "nat \<Rightarrow> bool"
  ce_known :: "nat \<Rightarrow> bool"

partial_function (option) connect_loop ::
  "(nat \<Rightarrow> bool) \<Rightarrow> (nat \<Rightarrow> bool) \<Rightarrow> nat \<Rightarrow> (unit, connect_error) result option" where
  "connect_loop closed known i =
     (if closed i then Some (Inl ConnectionClosed)
      else if known i then Some (Inr ())
      else connect_loop closed known (Suc i))"

definition do_connect_peer :: "conn_env \<Rightarrow> (unit, connect_error) result option" where
  "do_connect_peer env =
     (if ce_outbound env then connect_loop (ce_closed env) (ce_known env) 0
      else Some (Inl ConnectionFailed))"

definition connect_peer_if_necessary :: "conn_env \<Rightarrow> (unit, connect_error) result option" where
  "connect_peer_if_necessary env = (if ce_already env then Some (Inr ()) else do_connect_peer env)"

section \<open>Commands\<close>

datatype 'pk cli_error =
  InvalidPeerInfoFormat
| PeerAddressResolution string
| InvalidPubkey
| PeerConnectionFailed
| CliConnectionClosed
| ActiveChannelWithPeer
| PeerNotConnected 'pk
| ChannelOpenFailed string

definition show_cli_error :: "('pk \<Rightarrow> string) \<Rightarrow> 'pk cli_error \<Rightarrow> string" where
  "show_cli_error show_pk e =
     (case e of
        InvalidPeerInfoFormat \<Rightarrow> ''incorrectly formatted peer info, expected `pubkey@host:port`''
      | PeerAddressResolution a \<Rightarrow> ''could not resolve `'' @ a @ ''` to a socket address''
      | InvalidPubkey \<Rightarrow> ''unable to parse peer public key''
      | PeerConnectionFailed \<Rightarrow> ''failed to connect to peer''
      | CliConnectionClosed \<Rightarrow> ''connection closed before peer handshake completed''
      | ActiveChannelWithPeer \<Rightarrow> ''node has an active channel with this peer, close channels first''
      | PeerNotConnected pk \<Rightarrow> ''could not find connected peer '' @ show_pk pk
      | ChannelOpenFailed s \<Rightarrow> ''failed to open channel: '' @ s)"

definition cli_error_of :: "connect_error \<Rightarrow> 'pk cli_error" where
  "cli_error_of e = (case e of ConnectionFailed \<Rightarrow> PeerConnectionFailed | ConnectionClosed \<Rightarrow> CliConnectionClosed)"

definition parse_peer_info ::
  "(bytes \<Rightarrow> 'pk option) \<Rightarrow> (string \<Rightarrow> 'sa list option) \<Rightarrow> string \<Rightarrow> ('pk \<times> 'sa, 'pk cli_error) result" where
  "parse_peer_info from_slice to_socket_addrs s =
     (case split_char CHR ''@'' s of
        pubkey_str # peer_addr_str # _ \<Rightarrow>
          and_then (ok_or (PeerAddressResolution peer_addr_str) (to_socket_addrs peer_addr_str)) (\<lambda>peer_addrs.
          and_then (ok_or (PeerAddressResolution peer_addr_str)
            (case peer_addrs of [] \<Rightarrow> None | a # _ \<Rightarrow> Some a)) (\<lambda>peer_addr.
          and_then (ok_or InvalidPubkey (to_compressed_pubkey from_slice pubkey_str)) (\<lambda>pubkey.
            Inr (pubkey, peer_addr))))
      | _ \<Rightarrow> Inl InvalidPeerInfoFormat)"

text \<open>The second component is the peer the peer manager is told to disconnect.\<close>

definition do_disconnect_peer ::
  "('pk \<Rightarrow> bool) \<Rightarrow> 'pk list \<Rightarrow> 'pk \<Rightarrow> (unit, 'pk cli_error) result \<times> 'pk option" where
  "do_disconnect_peer is_connected channel_counterparties pubkey =
     (if pubkey \<in> set channel_counterparties then (Inl ActiveChannelWithPeer, None)
      else if \<not> is_connected pubkey then (Inl (PeerNotConnected pubkey), None)
      else (Inr (), Some pubkey))"

record open_config =
  their_to_self_delay :: u16
  announce_for_forwarding :: bool
  negotiate_anchors :: bool

definition open_channel ::
  "('pk \<Rightarrow> string) \<Rightarrow> ('pk \<Rightarrow> u64 \<Rightarrow> u64 \<Rightarrow> nat \<Rightarrow> open_config \<Rightarrow> (unit, string) result) \<Rightarrow> 'pk \<Rightarrow> u64 \<Rightarrow> bool \<Rightarrow> bool \<Rightarrow>
    (unit, 'pk cli_error) result \<times> outputs" where
  "open_channel show_pk create_channel peer_pubkey channel_amt_sat announce with_anchors =
     (let config = \<lparr>their_to_self_delay = 2016, announce_for_forwarding = announce, negotiate_anchors = with_anchors\<rparr>
      in case create_channel peer_pubkey channel_amt_sat 0 0 config of
           Inr _ \<Rightarrow> (Inr (), [Print (''EVENT: initiated channel with peer '' @ show_pk peer_pubkey @ ''. '')])
         | Inl e \<Rightarrow> (Inl (ChannelOpenFailed e), []))"

definition close_channel :: "(bytes \<Rightarrow> 'pk \<Rightarrow> (unit, string) result) \<Rightarrow> bytes \<Rightarrow> 'pk \<Rightarrow> outputs" where
  "close_channel cm_close channel_id counterparty =
     (case cm_close channel_id counterparty of
        Inr _ \<Rightarrow> user_out ''EVENT: initiating channel close''
      | Inl e \<Rightarrow> user_err (''failed to close channel: '' @ e))"

definition force_close_channel :: "(bytes \<Rightarrow> 'pk \<Rightarrow> string \<Rightarrow> (unit, string) result) \<Rightarrow> bytes \<Rightarrow> 'pk \<Rightarrow> outputs" where
  "force_close_channel cm_force_close channel_id counterparty =
     (case cm_force_close channel_id counterparty ''Manually force-closed'' of
        Inr _ \<Rightarrow> user_out ''EVENT: initiating channel force-close''
      | Inl e \<Rightarrow> user_err (''failed to force-close channel: '' @ e))"

section \<open>Connecting in the background\<close>

text \<open>The handler of \<^verbatim>\<open>ConnectionNeeded\<close>: the addresses tried in order, until one connects.\<close>

fun connect_until :: "(nat \<Rightarrow> conn_env) \<Rightarrow> nat \<Rightarrow> 'sa list \<Rightarrow> ('sa list \<times> bool) option" where
  "connect_until env k [] = Some ([], False)"
| "connect_until env k (a # as) =
     (case connect_peer_if_necessary (env k) of
        None \<Rightarrow> None
      | Some (Inr _) \<Rightarrow> Some ([a], True)
      | Some (Inl _) \<Rightarrow> map_option (\<lambda>(tried, ok). (a # tried, ok)) (connect_until env (Suc k) as))"

definition resolve_all :: "('ga \<Rightarrow> 'sa list option) \<Rightarrow> 'ga list \<Rightarrow> 'sa list" where
  "resolve_all to_socket_addrs gas = concat (map (\<lambda>g. case to_socket_addrs g of None \<Rightarrow> [] | Some as \<Rightarrow> as) gas)"

definition connection_needed ::
  "('ga \<Rightarrow> 'sa list option) \<Rightarrow> (nat \<Rightarrow> conn_env) \<Rightarrow> 'ga list \<Rightarrow> ('sa list \<times> bool) option" where
  "connection_needed to_socket_addrs env addresses = connect_until env 0 (resolve_all to_socket_addrs addresses)"

text \<open>The other two tasks try every address, whatever the outcome.\<close>

fun connect_all :: "(nat \<Rightarrow> conn_env) \<Rightarrow> nat \<Rightarrow> 'a list \<Rightarrow> 'a list option" where
  "connect_all env k [] = Some []"
| "connect_all env k (a # as) =
     (case do_connect_peer (env k) of
        None \<Rightarrow> None
      | Some _ \<Rightarrow> map_option (Cons a) (connect_all env (Suc k) as))"

datatype 'ga socket_address = OnionV2 | OnionV3 | NetAddress 'ga

text \<open>
  One tick of the reconnection task, over the counterparties of the channels. The filter of the
  iterator, the stop flag, the graph and the resolver are consulted when their node is reached, so they depend on the position.
  \<open>rv_graph\<close> is the network graph: no node, a node without announcement, or its addresses.
\<close>

record ('pk, 'sa, 'ga) reconnect_view =
  rv_connected :: "nat \<Rightarrow> 'pk \<Rightarrow> bool"
  rv_stop :: "nat \<Rightarrow> bool"
  rv_graph :: "nat \<Rightarrow> 'pk \<Rightarrow> 'ga socket_address list option option"
  rv_resolve :: "nat \<Rightarrow> 'ga \<Rightarrow> 'sa list option"
  rv_env :: "nat \<Rightarrow> nat \<Rightarrow> conn_env"

definition non_onion :: "'ga socket_address \<Rightarrow> 'ga option" where
  "non_onion a = (case a of OnionV2 \<Rightarrow> None | OnionV3 \<Rightarrow> None | NetAddress g \<Rightarrow> Some g)"

definition reconnect_addrs :: "('pk, 'sa, 'ga) reconnect_view \<Rightarrow> nat \<Rightarrow> 'pk \<Rightarrow> 'sa list" where
  "reconnect_addrs V i node_id =
     resolve_all (rv_resolve V i)
       (case rv_graph V i node_id of
          Some (Some addresses) \<Rightarrow> List.map_filter non_onion addresses
        | _ \<Rightarrow> [])"

fun reconnect_round ::
  "('pk, 'sa, 'ga) reconnect_view \<Rightarrow> nat \<Rightarrow> 'pk list \<Rightarrow> (('pk \<times> 'sa) list \<times> bool) option" where
  "reconnect_round V i [] = Some ([], False)"
| "reconnect_round V i (node_id # rest) =
     (if rv_connected V i node_id then reconnect_round V (Suc i) rest
      else if rv_stop V i then Some ([], True)
      else case connect_all (rv_env V i) 0 (reconnect_addrs V i node_id) of
             None \<Rightarrow> None
           | Some as \<Rightarrow>
               map_option (\<lambda>(atts, stopped). (map (Pair node_id) as @ atts, stopped)) (reconnect_round V (Suc i) rest))"

text \<open>One tick of the DNS bootstrap task that is not told to stop: the attempts, in order.\<close>

definition bootstrap_round ::
  "('pk, 'ip) dns_params \<Rightarrow> dns_bootstrap_config \<Rightarrow> 'pk list \<Rightarrow> (nat \<Rightarrow> conn_env) \<Rightarrow>
    ('pk, 'ip) bootstrapped_peer list option \<times> outputs" where
  "bootstrap_round P config connected_peers env =
     (let ignore = pk_serialize P ` set connected_peers
      in case sample_node_addrs P config (unat (dns_num_peers config)) ignore of
           (Inr found, out) \<Rightarrow>
             (connect_all env 0 found,
              out @ [Log Info (''[dns_bootstrap] Discovered '' @ show_nat (length found) @ '' peers'')])
         | (Inl e, out) \<Rightarrow>
             (Some [], out @ [Log Warn (''[dns_bootstrap] Bootstrap failed: '' @ show_dns_error e)]))"


section \<open>When an attempt returns\<close>

lemma connect_loop_skip:
  "(\<And>j. j < n \<Longrightarrow> \<not> closed (i + j) \<and> \<not> known (i + j)) \<Longrightarrow> connect_loop closed known i = connect_loop closed known (i + n)"
proof (induction n arbitrary: i)
  case (Suc n)
  have "connect_loop closed known i = connect_loop closed known (Suc i)"
    using Suc.prems [of 0] by (subst connect_loop.simps) simp
  also have "\<dots> = connect_loop closed known (Suc i + n)"
    using Suc.prems [of "Suc j" for j] by (intro Suc.IH) auto
  finally show ?case by simp
qed simp

lemma connect_loop_returns:
  assumes ret: "connect_loop closed known i = Some r"
  shows "\<exists>j. i \<le> j \<and> (closed j \<or> known j)"
proof (rule connect_loop.raw_induct [where P = "\<lambda>cl kn i r. \<exists>j. i \<le> j \<and> (cl j \<or> kn j)", OF _ ret])
  fix loop cl kn i r
  assume IH: "\<And>cl kn i (r :: (unit, connect_error) result). loop cl kn i = Some r \<Longrightarrow> \<exists>j. i \<le> j \<and> (cl j \<or> kn j)"
    and eq: "(if cl i then Some (Inl ConnectionClosed) else if kn i then Some (Inr ()) else loop cl kn (Suc i)) = Some r"
  show "\<exists>j. i \<le> j \<and> (cl j \<or> kn j)"
  proof (cases "cl i \<or> kn i")
    case False
    with eq have "loop cl kn (Suc i) = Some r" by simp
    from IH [OF this] show ?thesis using Suc_leD by blast
  qed auto
qed

definition handshake_at :: "conn_env \<Rightarrow> nat \<Rightarrow> bool" where
  "handshake_at env i \<longleftrightarrow>
     (ce_closed env i \<or> ce_known env i) \<and> (\<forall>j<i. \<not> ce_closed env j \<and> \<not> ce_known env j)"

lemma handshake_at_exists: "ce_closed env i \<or> ce_known env i \<Longrightarrow> \<exists>k\<le>i. handshake_at env k"
proof (induction i rule: less_induct)
  case (less i)
  show ?case
  proof (cases "\<exists>j<i. ce_closed env j \<or> ce_known env j")
    case True
    then obtain j where "j < i" "ce_closed env j \<or> ce_known env j" by blast
    with less.IH [of j] obtain k where "k \<le> j" "handshake_at env k" by auto
    with \<open>j < i\<close> show ?thesis by (intro exI [of _ k]) auto
  next
    case False
    with less.prems have "handshake_at env i" by (auto simp: handshake_at_def)
    then show ?thesis by blast
  qed
qed

lemma connect_loop_at:
  "handshake_at env i \<Longrightarrow>
    connect_loop (ce_closed env) (ce_known env) 0 = Some (if ce_closed env i then Inl ConnectionClosed else Inr ())"
  using connect_loop_skip [of i "ce_closed env" 0 "ce_known env"]
  by (auto simp: handshake_at_def connect_loop.simps [of "ce_closed env" "ce_known env" i])

lemma connect_all_eq: "connect_all env k as = Some bs \<Longrightarrow> bs = as"
  by (induction as arbitrary: k bs) (auto split: option.splits)

lemma connect_all_returns:
  "(\<And>j. do_connect_peer (env j) \<noteq> None) \<Longrightarrow> connect_all env k as = Some as"
  by (induction as arbitrary: k) (auto split: option.splits)

section \<open>Rounds\<close>

text \<open>
  Reference: what a counterparty can be reached at. For each announced address that is not an onion
  address, in order, the socket addresses it resolves to.
\<close>

definition announced_targets :: "('pk, 'sa, 'ga) reconnect_view \<Rightarrow> nat \<Rightarrow> 'pk \<Rightarrow> 'sa list" where
  "announced_targets V i n =
     (case rv_graph V i n of
        Some (Some addresses) \<Rightarrow> concat [case rv_resolve V i g of None \<Rightarrow> [] | Some sas \<Rightarrow> sas. NetAddress g \<leftarrow> addresses]
      | _ \<Rightarrow> [])"

lemma resolve_non_onion:
  "resolve_all f (List.map_filter non_onion as) = concat [case f g of None \<Rightarrow> [] | Some sas \<Rightarrow> sas. NetAddress g \<leftarrow> as]"
proof (induction as)
  case (Cons a as)
  then show ?case by (cases a) (simp_all add: resolve_all_def non_onion_def List.map_filter_simps)
qed (simp add: resolve_all_def List.map_filter_simps)

lemma reconnect_addrs_announced: "reconnect_addrs V i n = announced_targets V i n"
  by (auto simp: reconnect_addrs_def announced_targets_def resolve_non_onion split: option.split)
    (simp_all add: resolve_all_def)

lemma reconnect_round_result:
  assumes "\<And>i k. do_connect_peer (rv_env V i k) \<noteq> None"
  shows "\<exists>m\<le>length ns. reconnect_round V i ns =
      Some (concat (map (\<lambda>(j, n). if rv_connected V j n then [] else map (Pair n) (announced_targets V j n))
        (enumerate i (take m ns))), m < length ns) \<and>
    (\<forall>j<m. rv_connected V (i + j) (ns ! j) \<or> \<not> rv_stop V (i + j)) \<and>
    (m < length ns \<longrightarrow> \<not> rv_connected V (i + m) (ns ! m) \<and> rv_stop V (i + m))"
proof (induction ns arbitrary: i)
  case (Cons n ns)
  let ?a = "\<lambda>(j, n). if rv_connected V j n then [] else map (Pair n) (announced_targets V j n)"
  show ?case
  proof (cases "\<not> rv_connected V i n \<and> rv_stop V i")
    case True
    then show ?thesis by (intro exI [of _ 0]) simp
  next
    case False
    obtain m where m: "m \<le> length ns"
      "reconnect_round V (Suc i) ns = Some (concat (map ?a (enumerate (Suc i) (take m ns))), m < length ns)"
      "\<forall>j<m. rv_connected V (Suc i + j) (ns ! j) \<or> \<not> rv_stop V (Suc i + j)"
      "m < length ns \<longrightarrow> \<not> rv_connected V (Suc i + m) (ns ! m) \<and> rv_stop V (Suc i + m)"
      using Cons.IH [of "Suc i"] by blast
    have "reconnect_round V i (n # ns) = Some (concat (map ?a (enumerate i (take (Suc m) (n # ns)))), Suc m < length (n # ns))"
      using False m(2) connect_all_returns [of "rv_env V i" 0 "announced_targets V i n", OF assms] by (auto simp: reconnect_addrs_announced)
    moreover have "\<forall>j<Suc m. rv_connected V (i + j) ((n # ns) ! j) \<or> \<not> rv_stop V (i + j)"
      using m(3) False by (auto simp: less_Suc_eq_0_disj)
    ultimately show ?thesis using m(1,4) by (intro exI [of _ "Suc m"]) simp
  qed
qed simp

lemma eligible_not_ignored:
  assumes "p \<in> set (all_eligible P ignore seeds)"
  shows "pk_serialize P (bp_pubkey p) \<notin> ignore"
proof -
  from assms obtain srv where "eligible_peer P ignore srv = Some p"
    by (auto simp: all_eligible_def List.map_filter_def)
  then show ?thesis
    by (auto simp: eligible_peer_def decode_pubkey_from_hostname_def Let_def and_then_Inr_iff
        split: sum.splits if_splits prod.splits)
qed

lemma sample_ok_take:
  "fst (sample_node_addrs P config n ignore) = Inr found \<Longrightarrow> found = take n (all_eligible P ignore (dns_seeds config))"
  using sample_seeds_take [of "[]" n P ignore "dns_seeds config"]
  by (auto simp: sample_node_addrs_def Let_def case_prod_beta split: if_splits)


section \<open>Properties\<close>

text \<open>C24: when an attempt to connect returns, and with what. It waits forever exactly when the connection
  opened and is never reported closed nor the peer known; otherwise it fails at once, or the first
  poll that sees one of the two decides. A peer that is connected already costs nothing.\<close>

theorem connect_attempt_outcome:
  "(do_connect_peer env = None \<longleftrightarrow> ce_outbound env \<and> (\<forall>i. \<not> ce_closed env i \<and> \<not> ce_known env i)) \<and>
   (\<not> ce_outbound env \<longrightarrow> do_connect_peer env = Some (Inl ConnectionFailed)) \<and>
   (ce_outbound env \<and> handshake_at env i \<longrightarrow>
     do_connect_peer env = Some (if ce_closed env i then Inl ConnectionClosed else Inr ())) \<and>
   (connect_peer_if_necessary env = Some (Inr ()) \<longleftrightarrow> ce_already env \<or> do_connect_peer env = Some (Inr ()))"
proof -
  have "connect_loop (ce_closed env) (ce_known env) 0 = None \<longleftrightarrow> (\<forall>i. \<not> ce_closed env i \<and> \<not> ce_known env i)"
  proof
    assume none: "connect_loop (ce_closed env) (ce_known env) 0 = None"
    show "\<forall>i. \<not> ce_closed env i \<and> \<not> ce_known env i"
    proof (rule ccontr)
      assume "\<not> (\<forall>i. \<not> ce_closed env i \<and> \<not> ce_known env i)"
      then obtain k where "handshake_at env k" using handshake_at_exists by blast
      with none show False by (simp add: connect_loop_at)
    qed
  next
    assume "\<forall>i. \<not> ce_closed env i \<and> \<not> ce_known env i"
    then show "connect_loop (ce_closed env) (ce_known env) 0 = None"
      using connect_loop_returns by (metis option.exhaust)
  qed
  then show ?thesis
    by (simp add: do_connect_peer_def connect_peer_if_necessary_def connect_loop_at)
qed

definition slow_handshake :: conn_env where
  "slow_handshake = \<lparr>ce_already = False, ce_outbound = True, ce_closed = (\<lambda>_. False), ce_known = (\<lambda>i. 2 \<le> i)\<rparr>"

theorem connect_attempt_outcome_witness:
  "ce_outbound slow_handshake \<and> handshake_at slow_handshake 2 \<and> do_connect_peer slow_handshake = Some (Inr ())"
proof -
  have "handshake_at slow_handshake 2" by (auto simp: handshake_at_def slow_handshake_def)
  with connect_attempt_outcome [of slow_handshake 2] show ?thesis by (simp add: slow_handshake_def)
qed

text \<open>C30: a reconnection round. When each connection attempt returns, so does the round. It goes through the channel
  counterparties up to the first one that it finds disconnected with the stop flag set, and for each one found
  disconnected before tries, in order, every socket address that one of its announced non-onion addresses resolves to, and
  nothing else.\<close>

theorem reconnect_round_attempts:
  assumes "\<And>i k. do_connect_peer (rv_env V i k) \<noteq> None"
  shows "\<exists>m\<le>length node_ids. reconnect_round V 0 node_ids =
      Some (concat (map (\<lambda>(i, n). if rv_connected V i n then [] else map (Pair n) (announced_targets V i n))
        (enumerate 0 (take m node_ids))), m < length node_ids) \<and>
    (\<forall>i<m. rv_connected V i (node_ids ! i) \<or> \<not> rv_stop V i) \<and>
    (m < length node_ids \<longrightarrow> \<not> rv_connected V m (node_ids ! m) \<and> rv_stop V m)"
  using reconnect_round_result [where V = V and ns = node_ids and i = 0, OF assms] by simp

text \<open>The first node is connected, the second has an onion address and one that does not resolve, and the stop flag is
  set when the third is reached.\<close>

definition demo_reconnect :: "(nat, nat, nat) reconnect_view" where
  "demo_reconnect = \<lparr>rv_connected = (\<lambda>_ n. n = 1), rv_stop = (\<lambda>i. i = 2),
     rv_graph = (\<lambda>_ n. Some (Some [OnionV3, NetAddress (10 * n), NetAddress (10 * n + 1)])),
     rv_resolve = (\<lambda>_ g. if even g then Some [g, g] else None), rv_env = (\<lambda>_ _. slow_handshake)\<rparr>"

theorem reconnect_round_attempts_witness:
  "reconnect_round demo_reconnect 0 [1, 2, 3] = Some ([(2, 20), (2, 20)], True)"
proof -
  have "do_connect_peer slow_handshake = Some (Inr ())"
    by (simp add: do_connect_peer_def connect_loop.simps slow_handshake_def)
  then have "do_connect_peer (rv_env demo_reconnect i k) \<noteq> None" for i k by (simp add: demo_reconnect_def)
  note round = reconnect_round_attempts [OF this, of "[1, 2, 3]"]
  have len: "length [1, 2, 3 :: nat] = 3" by simp
  from round [unfolded len] obtain m where m: "m \<le> 3"
    "reconnect_round demo_reconnect 0 [1, 2, 3] = Some (concat (map (\<lambda>(i, n). if rv_connected demo_reconnect i n then []
      else map (Pair n) (announced_targets demo_reconnect i n)) (enumerate 0 (take m [1, 2, 3]))), m < 3)"
    "\<forall>i<m. rv_connected demo_reconnect i ([1, 2, 3] ! i) \<or> \<not> rv_stop demo_reconnect i"
    "m < 3 \<longrightarrow> \<not> rv_connected demo_reconnect m ([1, 2, 3] ! m) \<and> rv_stop demo_reconnect m" by blast
  have "m \<noteq> 0" "m \<noteq> 1" using m(4) by (auto simp: demo_reconnect_def)
  moreover have "m \<noteq> 3" using m(3) [rule_format, of 2] by (auto simp: demo_reconnect_def)
  ultimately have two: "m = 2" using m(1) by linarith
  have "concat (map (\<lambda>(i, n). if rv_connected demo_reconnect i n then []
      else map (Pair n) (announced_targets demo_reconnect i n)) (enumerate 0 (take 2 [1, 2, 3]))) = [(2, 20), (2, 20)]"
    by (simp add: demo_reconnect_def announced_targets_def)
  with m(2) have "reconnect_round demo_reconnect 0 [1, 2, 3] = Some ([(2, 20), (2, 20)], (2 :: nat) < 3)" unfolding two by (simp only:)
  then show ?thesis by (rule trans) simp
qed

lemma bootstrap_round_attempts:
  assumes "fst (bootstrap_round P config connected_peers env) = Some attempts"
  shows "length attempts \<le> unat (dns_num_peers config) \<and> list_all (\<lambda>p. bp_pubkey p \<notin> set connected_peers) attempts"
proof -
  let ?ignore = "pk_serialize P ` set connected_peers"
  obtain r out where r: "sample_node_addrs P config (unat (dns_num_peers config)) ?ignore = (r, out)"
    by (metis prod.exhaust)
  show ?thesis
  proof (cases r)
    case (Inl e)
    with r assms show ?thesis by (simp add: bootstrap_round_def)
  next
    case (Inr found)
    have found: "found = take (unat (dns_num_peers config)) (all_eligible P ?ignore (dns_seeds config))"
      using sample_ok_take [of P config "unat (dns_num_peers config)" ?ignore found] r Inr by simp
    have "list_all (\<lambda>p. bp_pubkey p \<notin> set connected_peers) found"
      using eligible_not_ignored [of _ P ?ignore "dns_seeds config"]
      unfolding found list_all_iff by (metis image_eqI in_set_takeD)
    moreover have "length found \<le> unat (dns_num_peers config)" by (simp add: found)
    ultimately show ?thesis
      using r Inr assms connect_all_eq [of env 0 found] by (simp add: bootstrap_round_def)
  qed
qed

lemma bootstrap_round_returns:
  "\<forall>k. do_connect_peer (env k) \<noteq> None \<Longrightarrow> fst (bootstrap_round P config connected_peers env) \<noteq> None"
  using connect_all_returns [of env 0] by (auto simp: bootstrap_round_def split: prod.split sum.split)

text \<open>C28: a bootstrap round makes at most the configured number of attempts, none of them to a peer that
  was connected when it began, and it returns whenever each attempt does.\<close>

theorem bootstrap_round_bounded:
  "(case fst (bootstrap_round P config connected_peers env) of
      None \<Rightarrow> True
    | Some attempts \<Rightarrow>
        length attempts \<le> unat (dns_num_peers config) \<and>
        list_all (\<lambda>p. bp_pubkey p \<notin> set connected_peers) attempts) \<and>
   ((\<forall>k. do_connect_peer (env k) \<noteq> None) \<longrightarrow> fst (bootstrap_round P config connected_peers env) \<noteq> None)"
  by (intro conjI impI bootstrap_round_returns) (auto dest: bootstrap_round_attempts split: option.split)

definition demo_dns :: "(nat, nat) dns_params" where
  "demo_dns = \<lparr>srv_lookup = (\<lambda>q. Some (Inr [\<lparr>target = ''a.x'', port = 1\<rparr>, \<lparr>target = ''b.x'', port = 2\<rparr>])),
     lookup_ip = (\<lambda>h. Some (Inr [7])), bech32_decode = (\<lambda>l. Inr (''ln'', if l = ''a'' then [1] else [2])),
     convert_bits = Inr, pk_from_slice = (\<lambda>b. Inr (unat (hd b))), pk_serialize = (\<lambda>k. [of_nat k])\<rparr>"

definition demo_dns_config :: dns_bootstrap_config where
  "demo_dns_config = \<lparr>dns_enabled = True, dns_seeds = [''s''], dns_timeout_secs = 1, dns_num_peers = 5, dns_interval_secs = 1\<rparr>"

theorem bootstrap_round_bounded_witness:
  "fst (bootstrap_round demo_dns demo_dns_config [1] (\<lambda>_. slow_handshake)) \<noteq> None"
proof -
  have "\<forall>k. do_connect_peer ((\<lambda>_ :: nat. slow_handshake) k) \<noteq> None"
    by (simp add: do_connect_peer_def connect_loop.simps slow_handshake_def)
  with bootstrap_round_bounded [where P = demo_dns and config = demo_dns_config and connected_peers = "[1]" and env = "\<lambda>_. slow_handshake"] show ?thesis by blast
qed

end
