(* ===== verification/Scorer_Store.thy ===== *)
theory Scorer_Store
  imports Payments
begin

text \<open>
  \<^verbatim>\<open>src/persist.rs\<close>: the key-value store that renames the scorer's key. The inner filesystem store and the
  key LDK uses for the scorer are parameters; \<open>kv_laws\<close> is what is relied on from the store. Shown:
  the renaming store satisfies the same laws on its own keys, and the scorer written through it is
  the one the next start reads from the legacy file.
\<close>

section \<open>The store\<close>

record 'st kv_ops =
  kv_read :: "string \<Rightarrow> string \<Rightarrow> string \<Rightarrow> 'st \<Rightarrow> (bytes, string) result"
  kv_write :: "string \<Rightarrow> string \<Rightarrow> string \<Rightarrow> bytes \<Rightarrow> 'st \<Rightarrow> 'st \<times> (unit, string) result"
  kv_remove :: "string \<Rightarrow> string \<Rightarrow> string \<Rightarrow> bool \<Rightarrow> 'st \<Rightarrow> 'st \<times> (unit, string) result"
  kv_list :: "string \<Rightarrow> string \<Rightarrow> 'st \<Rightarrow> (string list, string) result"

record scorer_key =
  SCORER_PERSISTENCE_PRIMARY_NAMESPACE :: string
  SCORER_PERSISTENCE_SECONDARY_NAMESPACE :: string
  SCORER_PERSISTENCE_KEY :: string

definition SCORER_PERSISTENCE_FILE_NAME :: string where
  "SCORER_PERSISTENCE_FILE_NAME = ''scorer''"

definition remap_scorer_key :: "scorer_key \<Rightarrow> string \<Rightarrow> string \<Rightarrow> string \<Rightarrow> string" where
  "remap_scorer_key K primary_namespace secondary_namespace key =
     (if primary_namespace = SCORER_PERSISTENCE_PRIMARY_NAMESPACE K
         \<and> secondary_namespace = SCORER_PERSISTENCE_SECONDARY_NAMESPACE K
         \<and> key = SCORER_PERSISTENCE_KEY K
      then SCORER_PERSISTENCE_FILE_NAME else key)"

definition ScorerKeyRemappingStore :: "scorer_key \<Rightarrow> 'st kv_ops \<Rightarrow> 'st kv_ops" where
  "ScorerKeyRemappingStore K inner =
     \<lparr>kv_read = (\<lambda>p s key. kv_read inner p s (remap_scorer_key K p s key)),
      kv_write = (\<lambda>p s key buf. kv_write inner p s (remap_scorer_key K p s key) buf),
      kv_remove = (\<lambda>p s key lazy. kv_remove inner p s (remap_scorer_key K p s key) lazy),
      kv_list = (\<lambda>p s. kv_list inner p s)\<rparr>"

section \<open>What is relied on\<close>

text \<open>
  A successful write is what the next read of that key gives, a successful removal that is not lazy leaves nothing to
  read, and neither touches the keys that are kept in another \<open>file\<close>.
\<close>

definition kv_laws :: "(string \<Rightarrow> string \<Rightarrow> string \<Rightarrow> string) \<Rightarrow> 'st kv_ops \<Rightarrow> bool" where
  "kv_laws file S \<longleftrightarrow>
     (\<forall>p s k buf st st'. kv_write S p s k buf st = (st', Inr ()) \<longrightarrow>
        kv_read S p s k st' = Inr buf \<and>
        (\<forall>p' s' k'. (p', s', file p' s' k') \<noteq> (p, s, file p s k) \<longrightarrow> kv_read S p' s' k' st' = kv_read S p' s' k' st)) \<and>
     (\<forall>p s k lazy st st'. kv_remove S p s k lazy st = (st', Inr ()) \<longrightarrow>
        (\<not> lazy \<longrightarrow> \<not> is_ok (kv_read S p s k st')) \<and>
        (\<forall>p' s' k'. (p', s', file p' s' k') \<noteq> (p, s, file p s k) \<longrightarrow> kv_read S p' s' k' st' = kv_read S p' s' k' st))"

lemma kv_laws_write:
  "kv_laws file S \<Longrightarrow> kv_write S p s k buf st = (st', Inr ()) \<Longrightarrow> kv_read S p s k st' = Inr buf"
  unfolding kv_laws_def by blast

text \<open>
  The renaming store over a store that keeps its keys apart obeys the same laws on its own keys: two
  of them interfere only when they are renamed to the same file.
\<close>

lemma remapping_store_laws:
  assumes "kv_laws (\<lambda>p s k. k) inner"
  shows "kv_laws (remap_scorer_key K) (ScorerKeyRemappingStore K inner)"
  using assms unfolding kv_laws_def by (simp add: ScorerKeyRemappingStore_def)

text \<open>A store in memory, with the key LDK documents for the scorer replaced by a long one.\<close>

definition mem_store :: "(string \<times> string \<times> string, bytes) hmap kv_ops" where
  "mem_store =
     \<lparr>kv_read = (\<lambda>p s k st. ok_or ''not found'' (hm_get st (p, s, k))),
      kv_write = (\<lambda>p s k buf st. (hm_insert (p, s, k) buf st, Inr ())),
      kv_remove = (\<lambda>p s k lazy st. (hm_remove (p, s, k) st, Inr ())),
      kv_list = (\<lambda>p s st. Inr (map (\<lambda>((p, s, k), _). k) (filter (\<lambda>((p', s', _), _). p' = p \<and> s' = s) st)))\<rparr>"

definition demo_key :: scorer_key where
  "demo_key = \<lparr>SCORER_PERSISTENCE_PRIMARY_NAMESPACE = [], SCORER_PERSISTENCE_SECONDARY_NAMESPACE = [],
     SCORER_PERSISTENCE_KEY = ''probabilistic_scorer''\<rparr>"

lemma mem_store_laws: "kv_laws (\<lambda>p s k. k) mem_store"
  by (auto simp: kv_laws_def mem_store_def)

section \<open>Properties\<close>

text \<open>C31: the scorer survives a restart. What is written through the renaming store under LDK's scorer
  key can be read back under that key, it is in the file that startup reads, and \<open>read_scorer\<close> returns the scorer it decodes to, without a
  warning.\<close>

theorem scorer_survives_restart:
  assumes "kv_laws (\<lambda>p s k. k) inner"
    and "kv_write (ScorerKeyRemappingStore K inner) (SCORER_PERSISTENCE_PRIMARY_NAMESPACE K)
      (SCORER_PERSISTENCE_SECONDARY_NAMESPACE K) (SCORER_PERSISTENCE_KEY K) buf st = (st', Inr ())"
    and "decode buf = Some scorer"
  shows "kv_read (ScorerKeyRemappingStore K inner) (SCORER_PERSISTENCE_PRIMARY_NAMESPACE K)
      (SCORER_PERSISTENCE_SECONDARY_NAMESPACE K) (SCORER_PERSISTENCE_KEY K) st' = Inr buf \<and>
    read_scorer path
      (result_ok (kv_read inner (SCORER_PERSISTENCE_PRIMARY_NAMESPACE K) (SCORER_PERSISTENCE_SECONDARY_NAMESPACE K)
        SCORER_PERSISTENCE_FILE_NAME st')) path_exists decode new_scorer = (scorer, [])"
  using kv_laws_write [OF remapping_store_laws [OF assms(1)] assms(2)] assms(3)
  by (simp add: ScorerKeyRemappingStore_def remap_scorer_key_def read_scorer_def read_or_fresh_def)

theorem scorer_survives_restart_witness:
  "read_scorer ''d/scorer'' (result_ok (kv_read mem_store [] [] ''scorer''
      (fst (kv_write (ScorerKeyRemappingStore demo_key mem_store) [] [] ''probabilistic_scorer'' [1, 2] hm_new))))
    True (\<lambda>b. Some (length b)) 0 = (2, [])"
  using scorer_survives_restart [OF mem_store_laws, where K = demo_key and buf = "[1, 2]" and st = hm_new
      and st' = "fst (kv_write (ScorerKeyRemappingStore demo_key mem_store) [] [] ''probabilistic_scorer'' [1, 2] hm_new)"
      and decode = "\<lambda>b. Some (length b)" and scorer = 2 and path = "''d/scorer''" and path_exists = True and new_scorer = 0]
  by (simp add: demo_key_def mem_store_def ScorerKeyRemappingStore_def remap_scorer_key_def SCORER_PERSISTENCE_FILE_NAME_def)

end
