(* ===== verification/Events.thy ===== *)
theory Events
  imports Payments Probe_Runner Bitcoind Peer_Net
begin

text \<open>
  \<^verbatim>\<open>src/events/mod.rs\<close> and \<^verbatim>\<open>src/events/funding.rs\<close>: the handler of LDK's events. Its state is the payment
  tables and the probe tracker; everything else it does is a list of actions in order. Public keys and channel ids
  are their bytes, printed in hexadecimal. The channel manager, the sweeper, bitcoind and the codecs
  are parameters (\<open>event_ctx\<close>), one context per handled event. Shown: a funding transaction reaches the
  channel manager only after every step succeeded and the wallet signed all of it; a run of events acts on the tracker and
  on the payment tables as two independent runs.
\<close>

section \<open>Events and actions\<close>

datatype ('outs, 'bump, 'ga) ldk_event =
  FundingGenerationReady bytes bytes u64 bytes
| FundingTxBroadcastSafe
| PaymentClaimable bytes payment_purpose u64
| PaymentClaimed bytes payment_purpose u64
| PaymentSent bytes bytes "u64 option" "bytes option"
| OpenChannelRequest bytes bytes
| PaymentPathSuccessful
| PaymentPathFailed
| ProbeSuccessful payment_hash
| ProbeFailed payment_hash
| PaymentFailed "bytes option" "string option" bytes
| InvoiceReceived
| PaymentForwarded "bytes option" "bytes option" "u64 option" bool "u64 option"
| HTLCHandlingFailed
| SpendableOutputs 'outs "bytes option"
| ChannelPending bytes bytes
| ChannelReady bytes bytes
| ChannelClosed bytes string "bytes option"
| DiscardFunding
| HTLCIntercepted
| OnionMessageIntercepted
| OnionMessagePeerConnected
| BumpTransaction 'bump
| ConnectionNeeded bytes "'ga list"
| OtherEvent

datatype ('b, 'tx, 'outs, 'bump, 'ga) ev_act =
  EvPay "'b pay_act"
| EvClaim bytes
| EvAccept bytes bytes nat
| EvFunded bytes bytes 'tx
| EvChan chan_event
| EvTrack 'outs "bytes option"
| EvBump 'bump
| EvConnect bytes "'ga list"

definition ev_out :: "outputs \<Rightarrow> ('b, 'tx, 'outs, 'bump, 'ga) ev_act list" where
  "ev_out os = map (\<lambda>e. EvPay (POut e)) os"

definition ev_err :: "string \<Rightarrow> ('b, 'tx, 'outs, 'bump, 'ga) ev_act list" where
  "ev_err msg = ev_out (user_err msg @ prompt)"

record ('j, 'b, 'tx, 'outs) event_ctx =
  ec_json :: "'j json_ops"
  ec_rpc :: "'j rpc"
  ec_fees :: fees
  ec_network :: network
  ec_from_script :: "bytes \<Rightarrow> network \<Rightarrow> (string, string) result"
  ec_deserialize :: "bytes \<Rightarrow> ('tx, string) result"
  ec_funding_generated :: "bytes \<Rightarrow> bytes \<Rightarrow> 'tx \<Rightarrow> bool"
  ec_accept_inbound :: "bytes \<Rightarrow> bytes \<Rightarrow> nat \<Rightarrow> (unit, string) result"
  ec_random :: bytes
  ec_now :: instant
  ec_tracker_ok :: bool
  ec_fault :: "string option"
  ec_track :: "'outs \<Rightarrow> bytes option \<Rightarrow> (unit, string) result"
  ec_channels :: "(bytes \<times> bytes) list"
  ec_graph :: "bytes \<Rightarrow> string option option"
  ec_encode :: "payments \<Rightarrow> 'b"

section \<open>Funding\<close>

text \<open>The four networks the configuration can name are the four the address library has.\<close>

definition bech32_network :: "network \<Rightarrow> network" where
  "bech32_network n = (case n of Bitcoin \<Rightarrow> Bitcoin | Regtest \<Rightarrow> Regtest | Signet \<Rightarrow> Signet | Testnet \<Rightarrow> Testnet)"

text \<open>The last part of the handler, from the wallet's answer on.\<close>

definition submit_funding ::
  "('j, 'b, 'tx, 'outs) event_ctx \<Rightarrow> bytes \<Rightarrow> bytes \<Rightarrow> signed_tx \<Rightarrow> ('b, 'tx, 'outs, 'bump, 'ga) ev_act list" where
  "submit_funding C temporary_channel_id counterparty_node_id stx =
     (if \<not> complete stx then ev_err ''Wallet returned incomplete funding transaction signature''
      else case to_vec (signed_hex stx) of
             None \<Rightarrow> ev_err ''Failed to decode signed funding transaction hex''
           | Some signed_tx_bytes \<Rightarrow>
               (case ec_deserialize C signed_tx_bytes of
                  Inl e \<Rightarrow> ev_err (''Failed to deserialize signed funding transaction: '' @ e)
                | Inr final_tx \<Rightarrow>
                    EvFunded temporary_channel_id counterparty_node_id final_tx #
                    (if ec_funding_generated C temporary_channel_id counterparty_node_id final_tx then []
                     else ev_err (''Channel went away before we could fund it. '' @
                       ''The peer disconnected or refused the channel.''))))"

definition handle_funding_generation_ready ::
  "('j, 'b, 'tx, 'outs) event_ctx \<Rightarrow> bytes \<Rightarrow> bytes \<Rightarrow> u64 \<Rightarrow> bytes \<Rightarrow> ('b, 'tx, 'outs, 'bump, 'ga) ev_act list" where
  "handle_funding_generation_ready C temporary_channel_id counterparty_node_id channel_value_satoshis output_script =
     (case ec_from_script C output_script (bech32_network (ec_network C)) of
        Inl e \<Rightarrow> ev_err (''failed to derive funding address from script: '' @ e)
      | Inr addr \<Rightarrow>
          let outs = [[(addr, f64_div (f64_of_u64 channel_value_satoshis) 100000000)]]
          in case create_raw_transaction (ec_json C) (ec_rpc C) outs of
               Inl e \<Rightarrow> ev_err (''failed to create raw funding transaction: '' @ re_text e)
             | Inr raw \<Rightarrow>
                 let (res, log) = fund_raw_transaction (ec_json C) (ec_rpc C) (ec_fees C) raw
                 in ev_out log @
                    (case res of
                       Inl e \<Rightarrow> ev_err (''failed to fund raw transaction: '' @ re_text e)
                     | Inr funded \<Rightarrow>
                         (case sign_raw_transaction_with_wallet (ec_json C) (ec_rpc C) (funded_hex funded) of
                            Inl e \<Rightarrow> ev_err (''failed to sign funding transaction: '' @ re_text e)
                          | Inr stx \<Rightarrow>
                              submit_funding C temporary_channel_id counterparty_node_id stx)))"

section \<open>Dispatch\<close>

definition u128_from_be_bytes :: "bytes \<Rightarrow> nat" where
  "u128_from_be_bytes bs = foldl (\<lambda>acc b. acc * 256 + unat b) 0 bs"

definition node_str :: "('j, 'b, 'tx, 'outs) event_ctx \<Rightarrow> bytes option \<Rightarrow> string" where
  "node_str C channel_id =
     (case channel_id of
        None \<Rightarrow> []
      | Some cid \<Rightarrow>
          (case find (\<lambda>(c, _). c = cid) (ec_channels C) of
             None \<Rightarrow> []
           | Some (_, counterparty) \<Rightarrow>
               (case ec_graph C counterparty of
                  None \<Rightarrow> ''private node''
                | Some None \<Rightarrow> ''unnamed node''
                | Some (Some alias) \<Rightarrow> ''node '' @ alias)))"

definition channel_str :: "bytes option \<Rightarrow> string" where
  "channel_str channel_id = (case channel_id of None \<Rightarrow> [] | Some cid \<Rightarrow> '' with channel '' @ hex_str cid)"

definition on_payment_forwarded ::
  "('j, 'b, 'tx, 'outs) event_ctx \<Rightarrow> bytes option \<Rightarrow> bytes option \<Rightarrow> u64 option \<Rightarrow> bool \<Rightarrow> u64 option \<Rightarrow> outputs" where
  "on_payment_forwarded C prev_channel_id next_channel_id total_fee_earned_msat claim_from_onchain_tx outbound_amount =
     (let from_prev_str = '' from '' @ node_str C prev_channel_id @ channel_str prev_channel_id;
          to_next_str = '' to '' @ node_str C next_channel_id @ channel_str next_channel_id;
          from_onchain_str = (if claim_from_onchain_tx then ''from onchain downstream claim'' else ''from HTLC fulfill message'');
          amt_args = (case outbound_amount of Some v \<Rightarrow> show_nat (unat v) | None \<Rightarrow> ''?'')
      in (case total_fee_earned_msat of
            Some fee_earned \<Rightarrow>
              user_out (newline @ ''EVENT: Forwarded payment for '' @ amt_args @ '' msat'' @ from_prev_str @ to_next_str @
                '', earning '' @ show_nat (unat fee_earned) @ '' msat '' @ from_onchain_str)
          | None \<Rightarrow>
              user_out (newline @ ''EVENT: Forwarded payment for '' @ amt_args @ '' msat'' @ from_prev_str @ to_next_str @
                '', claiming onchain '' @ from_onchain_str)) @ prompt)"

record 'b ev_state =
  es_pay :: "'b pay_state"
  es_tracker :: probe_tracker

definition on_probe_result ::
  "('j, 'b, 'tx, 'outs) event_ctx \<Rightarrow> probe_outcome \<Rightarrow> payment_hash \<Rightarrow> 'b ev_state \<Rightarrow>
    'b ev_state \<times> ('b, 'tx, 'outs, 'bump, 'ga) ev_act list" where
  "on_probe_result C r payment_hash s =
     (if ec_tracker_ok C
      then let (t, evs) = (case r of
             OutcomeSuccess \<Rightarrow> complete_success (ec_now C) payment_hash (es_tracker s)
           | OutcomeFailed \<Rightarrow> complete_failed (ec_now C) payment_hash (es_tracker s))
           in (s\<lparr>es_tracker := t\<rparr>, map EvChan evs)
      else (s, ev_out (user_err ''probe tracker lock poisoned'')))"

definition on_pay ::
  "'b ev_state \<Rightarrow> 'b pay_state \<times> 'b pay_act list \<Rightarrow> 'b ev_state \<times> ('b, 'tx, 'outs, 'bump, 'ga) ev_act list" where
  "on_pay s r = (s\<lparr>es_pay := fst r\<rparr>, map EvPay (snd r))"

definition on_payment_claimable :: "payment_hash \<Rightarrow> payment_purpose \<Rightarrow> u64 \<Rightarrow> ('b, 'tx, 'outs, 'bump, 'ga) ev_act list" where
  "on_payment_claimable payment_hash purpose amount_msat =
     ev_out (user_out (newline @ ''EVENT: received payment from payment hash '' @ hex_str payment_hash @
       '' of '' @ show_nat (unat amount_msat) @ '' millisatoshis'') @ prompt) @
     (case fst (purpose_parts purpose) of
        Some p \<Rightarrow> [EvClaim p]
      | None \<Rightarrow> ev_err ''PaymentClaimable event missing payment preimage'')"

definition on_open_channel_request :: "('j, 'b, 'tx, 'outs) event_ctx \<Rightarrow> bytes \<Rightarrow> bytes \<Rightarrow> ('b, 'tx, 'outs, 'bump, 'ga) ev_act list" where
  "on_open_channel_request C cid node_id =
     (let user_channel_id = u128_from_be_bytes (take 16 (ec_random C))
      in EvAccept cid node_id user_channel_id #
         ev_out ((case ec_accept_inbound C cid node_id user_channel_id of
            Inl e \<Rightarrow> user_err (''Failed to accept inbound channel ('' @ hex_str cid @ '') from '' @ hex_str node_id @ '': '' @ e)
          | Inr _ \<Rightarrow> user_out (newline @ ''EVENT: Accepted inbound channel ('' @ hex_str cid @ '') from '' @ hex_str node_id))
          @ prompt))"

definition on_spendable_outputs :: "('j, 'b, 'tx, 'outs) event_ctx \<Rightarrow> 'outs \<Rightarrow> bytes option \<Rightarrow> ('b, 'tx, 'outs, 'bump, 'ga) ev_act list" where
  "on_spendable_outputs C outs channel_id =
     EvTrack outs channel_id #
     (case ec_track C outs channel_id of
        Inr _ \<Rightarrow> []
      | Inl e \<Rightarrow> ev_out (user_err (''failed to track spendable outputs: '' @ e)))"

definition on_channel_pending :: "bytes \<Rightarrow> bytes \<Rightarrow> outputs" where
  "on_channel_pending cid node_id =
     user_out (newline @ ''EVENT: Channel '' @ hex_str cid @ '' with peer '' @ hex_str node_id @
       '' is pending awaiting funding lock-in!'') @ prompt"

definition on_channel_ready :: "bytes \<Rightarrow> bytes \<Rightarrow> outputs" where
  "on_channel_ready cid node_id =
     user_out (newline @ ''EVENT: Channel '' @ hex_str cid @ '' with peer '' @ hex_str node_id @
       '' is ready to be used!'') @ prompt"

definition on_channel_closed :: "bytes \<Rightarrow> string \<Rightarrow> bytes option \<Rightarrow> outputs" where
  "on_channel_closed cid reason counterparty =
     user_out (newline @ ''EVENT: Channel '' @ hex_str cid @ '' with counterparty '' @
       (case counterparty of None \<Rightarrow> [] | Some i \<Rightarrow> hex_str i) @ '' closed due to: '' @ reason) @ prompt"

definition handle_ldk_events ::
  "('j, 'b, 'tx, 'outs) event_ctx \<Rightarrow> ('outs, 'bump, 'ga) ldk_event \<Rightarrow> 'b ev_state \<Rightarrow>
    'b ev_state \<times> ('b, 'tx, 'outs, 'bump, 'ga) ev_act list" where
  "handle_ldk_events C event s =
     (case event of
        FundingGenerationReady cid node_id amount script \<Rightarrow>
          (s, handle_funding_generation_ready C cid node_id amount script)
      | FundingTxBroadcastSafe \<Rightarrow> (s, [])
      | PaymentClaimable payment_hash purpose amount_msat \<Rightarrow>
          (s, on_payment_claimable payment_hash purpose amount_msat)
      | PaymentClaimed payment_hash purpose amount_msat \<Rightarrow>
          on_pay s (on_payment_claimed (ec_encode C) (ec_fault C) payment_hash purpose amount_msat (es_pay s))
      | PaymentSent payment_preimage payment_hash fee_paid_msat payment_id \<Rightarrow>
          on_pay s (on_payment_sent (ec_encode C) (ec_fault C) payment_preimage payment_hash fee_paid_msat payment_id (es_pay s))
      | OpenChannelRequest cid node_id \<Rightarrow> (s, on_open_channel_request C cid node_id)
      | PaymentPathSuccessful \<Rightarrow> (s, [])
      | PaymentPathFailed \<Rightarrow> (s, [])
      | ProbeSuccessful payment_hash \<Rightarrow> on_probe_result C OutcomeSuccess payment_hash s
      | ProbeFailed payment_hash \<Rightarrow> on_probe_result C OutcomeFailed payment_hash s
      | PaymentFailed payment_hash reason payment_id \<Rightarrow>
          on_pay s (on_payment_failed (ec_encode C) (ec_fault C) payment_hash reason payment_id (es_pay s))
      | InvoiceReceived \<Rightarrow> (s, [])
      | PaymentForwarded prev next fee onchain amount \<Rightarrow>
          (s, ev_out (on_payment_forwarded C prev next fee onchain amount))
      | HTLCHandlingFailed \<Rightarrow> (s, [])
      | SpendableOutputs outs channel_id \<Rightarrow> (s, on_spendable_outputs C outs channel_id)
      | ChannelPending cid node_id \<Rightarrow> (s, ev_out (on_channel_pending cid node_id))
      | ChannelReady cid node_id \<Rightarrow> (s, ev_out (on_channel_ready cid node_id))
      | ChannelClosed cid reason counterparty \<Rightarrow> (s, ev_out (on_channel_closed cid reason counterparty))
      | DiscardFunding \<Rightarrow> (s, [])
      | HTLCIntercepted \<Rightarrow> (s, [])
      | OnionMessageIntercepted \<Rightarrow> (s, [])
      | OnionMessagePeerConnected \<Rightarrow> (s, [])
      | BumpTransaction b \<Rightarrow> (s, [EvBump b])
      | ConnectionNeeded node_id addresses \<Rightarrow> (s, [EvConnect node_id addresses])
      | OtherEvent \<Rightarrow> (s, []))"

section \<open>Runs of events\<close>

fun run_events ::
  "(('j, 'b, 'tx, 'outs) event_ctx \<times> ('outs, 'bump, 'ga) ldk_event) list \<Rightarrow> 'b ev_state \<Rightarrow>
    'b ev_state \<times> ('b, 'tx, 'outs, 'bump, 'ga) ev_act list" where
  "run_events [] s = (s, [])"
| "run_events ((C, event) # es) s =
     (let (s1, acts1) = handle_ldk_events C event s; (s2, acts2) = run_events es s1 in (s2, acts1 @ acts2))"

definition chan_events :: "('b, 'tx, 'outs, 'bump, 'ga) ev_act list \<Rightarrow> chan_event list" where
  "chan_events acts = List.map_filter (\<lambda>a. case a of EvChan e \<Rightarrow> Some e | _ \<Rightarrow> None) acts"

text \<open>What an event means for the tracker: a call of another task, as the probing loop sees it.\<close>

definition tracker_part :: "('j, 'b, 'tx, 'outs) event_ctx \<times> ('outs, 'bump, 'ga) ldk_event \<Rightarrow> tracker_call list" where
  "tracker_part = (\<lambda>(C, event).
     if ec_tracker_ok C
     then case event of
            ProbeSuccessful h \<Rightarrow> [(ec_now C, h, OutcomeSuccess)]
          | ProbeFailed h \<Rightarrow> [(ec_now C, h, OutcomeFailed)]
          | _ \<Rightarrow> []
     else [])"

definition pay_part ::
  "('j, 'b, 'tx, 'outs) event_ctx \<times> ('outs, 'bump, 'ga) ldk_event \<Rightarrow> 'b pay_state \<Rightarrow> 'b pay_state" where
  "pay_part = (\<lambda>(C, event) s.
     case event of
       PaymentClaimed h purpose amt \<Rightarrow> fst (on_payment_claimed (ec_encode C) (ec_fault C) h purpose amt s)
     | PaymentSent pre h fee pid \<Rightarrow> fst (on_payment_sent (ec_encode C) (ec_fault C) pre h fee pid s)
     | PaymentFailed h reason pid \<Rightarrow> fst (on_payment_failed (ec_encode C) (ec_fault C) h reason pid s)
     | _ \<Rightarrow> s)"

lemma chan_events_simps [simp]:
  "chan_events [] = []"
  "chan_events (EvChan e # as) = e # chan_events as"
  "chan_events (EvPay p # as) = chan_events as"
  "chan_events (EvClaim q # as) = chan_events as"
  "chan_events (EvAccept c n u # as) = chan_events as"
  "chan_events (EvFunded c n tx # as) = chan_events as"
  "chan_events (EvTrack q1 c1 # as) = chan_events as"
  "chan_events (EvBump b # as) = chan_events as"
  "chan_events (EvConnect n gas # as) = chan_events as"
  by (simp_all add: chan_events_def List.map_filter_simps)

lemma chan_events_append [simp]: "chan_events (xs @ ys) = chan_events xs @ chan_events ys"
  by (induction xs) (auto simp: chan_events_def List.map_filter_simps split: option.split)

lemma chan_events_out [simp]:
  "chan_events (ev_out os) = []" "chan_events (ev_err m) = []" "chan_events (map EvPay ps) = []"
  "chan_events (map EvChan evs) = evs"
  by (induction os) (simp_all add: ev_out_def ev_err_def chan_events_def comp_def List.map_filter_def)

lemma chan_events_submit [simp]: "chan_events (submit_funding C c n stx) = []"
  by (simp add: submit_funding_def split: sum.split option.split)

lemma chan_events_funding [simp]: "chan_events (handle_funding_generation_ready C c n v sc) = []"
  by (simp add: handle_funding_generation_ready_def Let_def case_prod_beta split: sum.split option.split)

lemma other_calls_single: "other_calls [(now, h, r)] t = complete_probe now h r t"
  by (simp add: case_prod_beta Let_def)

lemma other_calls_append:
  "other_calls (xs @ ys) t =
    (let (t1, e1) = other_calls xs t; (t2, e2) = other_calls ys t1 in (t2, e1 @ e2))"
  by (induction xs arbitrary: t) (auto simp: Let_def case_prod_beta)

lemma handle_event_parts:
  "es_tracker (fst (handle_ldk_events C event s)) = fst (other_calls (tracker_part (C, event)) (es_tracker s)) \<and>
   chan_events (snd (handle_ldk_events C event s)) = snd (other_calls (tracker_part (C, event)) (es_tracker s)) \<and>
   es_pay (fst (handle_ldk_events C event s)) = pay_part (C, event) (es_pay s)"
  by (cases event)
    (simp_all add: handle_ldk_events_def tracker_part_def pay_part_def on_pay_def on_probe_result_def Let_def
      on_payment_claimable_def on_open_channel_request_def on_spendable_outputs_def
      other_calls_single complete_success_def complete_failed_def case_prod_beta split: option.split sum.split)

lemma run_events_parts:
  "es_tracker (fst (run_events es s)) = fst (other_calls (concat (map tracker_part es)) (es_tracker s)) \<and>
   chan_events (snd (run_events es s)) = snd (other_calls (concat (map tracker_part es)) (es_tracker s)) \<and>
   es_pay (fst (run_events es s)) = fold pay_part es (es_pay s)"
proof (induction es arbitrary: s)
  case (Cons e es)
  obtain C event where e: "e = (C, event)" by (cases e)
  show ?case
    using Cons.IH [of "fst (handle_ldk_events C event s)"] handle_event_parts [of C event s]
    by (simp add: e Let_def case_prod_beta other_calls_append)
qed simp

lemma pay_part_reachable:
  assumes "pay_reachable encode decode p" and "ec_encode C = encode"
  shows "pay_reachable encode decode (pay_part (C, event) p)"
  using assms(1)
  by (cases event) (auto simp: pay_part_def assms(2)
      intro: pay_reachable.step pay_step.claimed pay_step.sent pay_step.failed)

lemma pay_parts_reachable:
  "pay_reachable encode decode p \<Longrightarrow> list_all (\<lambda>(C, event). ec_encode C = encode) es \<Longrightarrow>
    pay_reachable encode decode (fold pay_part es p)"
  by (induction es arbitrary: p) (auto intro: pay_part_reachable)


section \<open>Properties\<close>

definition funded :: "('b, 'tx, 'outs, 'bump, 'ga) ev_act list \<Rightarrow> (bytes \<times> bytes \<times> 'tx) list" where
  "funded acts = List.map_filter (\<lambda>a. case a of EvFunded c n tx \<Rightarrow> Some (c, n, tx) | _ \<Rightarrow> None) acts"

definition ev_errors :: "('b, 'tx, 'outs, 'bump, 'ga) ev_act list \<Rightarrow> string list" where
  "ev_errors acts = List.map_filter (\<lambda>a. case a of EvPay (POut (Log Error m)) \<Rightarrow> Some m | _ \<Rightarrow> None) acts"

lemma funded_simps [simp]:
  "funded [] = []" "funded (EvFunded c n tx # as) = (c, n, tx) # funded as" "funded (EvPay q # as) = funded as"
  by (simp_all add: funded_def List.map_filter_simps)

lemma funded_append [simp]: "funded (xs @ ys) = funded xs @ funded ys"
  by (induction xs) (auto simp: funded_def List.map_filter_simps split: option.split)

lemma funded_out [simp]: "funded (ev_out os) = []" "funded (ev_err m) = []"
  by (induction os) (simp_all add: ev_out_def ev_err_def funded_def List.map_filter_def)

lemma ev_errors_append [simp]: "ev_errors (xs @ ys) = ev_errors xs @ ev_errors ys"
  by (induction xs) (auto simp: ev_errors_def List.map_filter_simps split: option.split)

lemma ev_errors_err [simp]: "ev_errors (ev_err m) = [m]"
  by (simp add: ev_err_def ev_out_def ev_errors_def user_err_def prompt_def List.map_filter_simps)

lemma submit_funding_cases:
  assumes "acts = submit_funding C cid node_id stx"
  shows "(\<exists>bs tx. complete stx \<and> to_vec (signed_hex stx) = Some bs \<and> ec_deserialize C bs = Inr tx \<and>
      funded acts = [(cid, node_id, tx)]) \<or> funded acts = [] \<and> ev_errors acts \<noteq> []"
proof (cases "to_vec (signed_hex stx)")
  case (Some bs)
  then show ?thesis
    using assms by (cases "ec_deserialize C bs") (simp_all add: submit_funding_def)
qed (use assms in \<open>simp add: submit_funding_def\<close>)

text \<open>C16: at most one transaction is handed over for a channel, under the ids of the event, and only when the address was
  derived, bitcoind created the transaction for that address and the exact channel value, funded and
  signed it, the signature is complete, and the transaction decodes from the signed hexadecimal
  text. When nothing is handed over, the user sees an error.\<close>

theorem funding_only_fully_signed:
  fixes C :: "('j, 'b, 'tx, 'outs) event_ctx"
  shows "let acts = (handle_funding_generation_ready C cid node_id amount script :: ('b, 'tx, 'outs, 'bump, 'ga) ev_act list)
   in case funded acts of
     [] \<Rightarrow> ev_errors acts \<noteq> []
   | [(c, n, tx)] \<Rightarrow>
       c = cid \<and> n = node_id \<and>
       (\<exists>addr raw funded_tx stx signed_tx_bytes.
          ec_from_script C script (bech32_network (ec_network C)) = Inr addr \<and>
          create_raw_transaction (ec_json C) (ec_rpc C) [[(addr, f64_div (f64_of_u64 amount) 100000000)]] = Inr raw \<and>
          fst (fund_raw_transaction (ec_json C) (ec_rpc C) (ec_fees C) raw) = Inr funded_tx \<and>
          sign_raw_transaction_with_wallet (ec_json C) (ec_rpc C) (funded_hex funded_tx) = Inr stx \<and>
          complete stx \<and> to_vec (signed_hex stx) = Some signed_tx_bytes \<and>
          ec_deserialize C signed_tx_bytes = Inr tx)
   | _ \<Rightarrow> False"
proof -
  note d = handle_funding_generation_ready_def [of C cid node_id amount script]
  show ?thesis
  proof (cases "ec_from_script C script (bech32_network (ec_network C))")
    case addr: (Inr addr)
    let ?outs = "[[(addr, f64_div (f64_of_u64 amount) 100000000)]]"
    show ?thesis
    proof (cases "create_raw_transaction (ec_json C) (ec_rpc C) ?outs")
      case raw: (Inr raw)
      obtain res log where f: "fund_raw_transaction (ec_json C) (ec_rpc C) (ec_fees C) raw = (res, log)"
        by (metis prod.exhaust)
      show ?thesis
      proof (cases res)
        case fd: (Inr fd)
        show ?thesis
        proof (cases "sign_raw_transaction_with_wallet (ec_json C) (ec_rpc C) (funded_hex fd)")
          case (Inr stx)
          then have h: "(handle_funding_generation_ready C cid node_id amount script :: ('b, 'tx, 'outs, 'bump, 'ga) ev_act list) =
              ev_out log @ submit_funding C cid node_id stx"
            by (simp add: d addr raw f fd)
          let ?sub = "submit_funding C cid node_id stx :: ('b, 'tx, 'outs, 'bump, 'ga) ev_act list"
          have "(\<exists>bs tx. complete stx \<and> to_vec (signed_hex stx) = Some bs \<and> ec_deserialize C bs = Inr tx \<and>
            funded ?sub = [(cid, node_id, tx)]) \<or> funded ?sub = [] \<and> ev_errors ?sub \<noteq> []"
            by (rule submit_funding_cases [OF refl])
          then show ?thesis
            by (elim disjE exE conjE) (simp_all add: h addr raw f fd Inr)
        qed (simp add: d addr raw f fd)
      qed (simp add: d addr raw f)
    qed (simp add: d addr)
  qed (simp add: d)
qed

text \<open>C9: handling a run of events is, on the probe tracker, exactly the sequence of completions that the
  probe events among them stand for, with the same messages to the waiting tasks, and, on the
  payment tables, exactly the payment events in order, so that the invariant of the tables holds at the end.\<close>

theorem events_run_componentwise:
  assumes "codec_ok encode decode" and "pay_reachable encode decode (es_pay s)"
    and "list_all (\<lambda>(C, event). ec_encode C = encode) es"
  shows "es_tracker (fst (run_events es s)) = fst (other_calls (concat (map tracker_part es)) (es_tracker s)) \<and>
    chan_events (snd (run_events es s)) = snd (other_calls (concat (map tracker_part es)) (es_tracker s)) \<and>
    es_pay (fst (run_events es s)) = fold pay_part es (es_pay s) \<and>
    outbound_ok (outbound (es_pay (fst (run_events es s)))) \<and> inbound_ok (inbound (es_pay (fst (run_events es s))))"
  using run_events_parts [of es s] pay_reachable_inv [OF assms(1) pay_parts_reachable [OF assms(2,3)]]
  by (simp add: pay_inv_def)

definition demo_ctx :: "(rat, payments, nat, nat) event_ctx" where
  "demo_ctx = \<lparr>ec_json = num_json, ec_rpc = num_rpc, ec_fees = initial_fees, ec_network = Regtest,
     ec_from_script = (\<lambda>_ _. Inr ''bcrt1''), ec_deserialize = (\<lambda>_. Inr 0), ec_funding_generated = (\<lambda>_ _ _. True),
     ec_accept_inbound = (\<lambda>_ _ _. Inr ()), ec_random = replicate 32 1, ec_now = 5, ec_tracker_ok = True, ec_fault = None,
     ec_track = (\<lambda>_ _. Inr ()), ec_channels = [], ec_graph = (\<lambda>_. None), ec_encode = id\<rparr>"

definition demo_run :: "((rat, payments, nat, nat) event_ctx \<times> (nat, nat, nat) ldk_event) list" where
  "demo_run = [(demo_ctx, PaymentClaimed [7] (SpontaneousPayment [8]) 1000), (demo_ctx, ProbeSuccessful [9])]"

definition demo_ev_state :: "payments ev_state" where
  "demo_ev_state = \<lparr>es_pay = \<lparr>inbound = hm_new, outbound = hm_new, disk_in = None, disk_out = None\<rparr>,
     es_tracker = fst (register_probe 1 0 [9] tracker_new)\<rparr>"

theorem events_run_componentwise_witness:
  "chan_events (snd (run_events demo_run demo_ev_state)) = [Sent 0 OutcomeSuccess] \<and>
   inbound_ok (inbound (es_pay (fst (run_events demo_run demo_ev_state))))"
proof -
  have c: "codec_ok id Some" by (simp add: codec_ok_def)
  have r: "pay_reachable id Some (es_pay demo_ev_state)" by (simp add: demo_ev_state_def pay_reachable.start)
  have e: "list_all (\<lambda>(C, event). ec_encode C = id) demo_run" by (simp add: demo_run_def demo_ctx_def)
  have "concat (map tracker_part demo_run) = [(5, [9], OutcomeSuccess)]"
    by (simp add: demo_run_def tracker_part_def demo_ctx_def)
  moreover have "snd (other_calls [(5, [9], OutcomeSuccess)] (es_tracker demo_ev_state)) = [Sent 0 OutcomeSuccess]"
    by (simp add: demo_ev_state_def register_probe_def complete_probe_def tracker_new_def prune_timed_out_probes_def
        prune_map_def hm_retain_def hm_new_def hm_get_def hm_insert_def hm_remove_def Let_def)
  ultimately show ?thesis using events_run_componentwise [OF c r e] by auto
qed

end
