(* ===== verification/Startup.thy ===== *)
theory Startup
  imports Node_Config Logging Bitcoind Payments Rapid_Sync Scorer_Store
begin

text \<open>
  The first half of \<^verbatim>\<open>start_ldk\<close> in \<^verbatim>\<open>src/main.rs\<close>: what a start reads, in which order, and where it
  gives up. The logger, the bitcoind client, the readers and the gossip sync are the models of their
  components (\<open>node_io\<close> is what they meet); LDK's monitors, manager, sweeper and chain source are
  parameters (\<open>boot_env\<close>). A start that gives up is the error value holding what the failing step printed.
  Shown: which monitors a start hands to the chain monitor, that the node keeps its key across starts, and
  when the key is lost.
\<close>

section \<open>Arguments\<close>

definition show_config_error :: "config_error \<Rightarrow> string" where
  "show_config_error e =
     (case e of
        FileNotFound p \<Rightarrow> ''config file not found at '' @ p
      | DeprecatedJsonConfig p \<Rightarrow> ''deprecated config.json detected at '' @ p @ ''; use config.toml instead''
      | ParseError m \<Rightarrow> ''config parse error: '' @ m
      | ValidationError m \<Rightarrow> ''config validation failed: '' @ m)"

definition report_startup_error :: "('io \<Rightarrow> string) \<Rightarrow> string option \<Rightarrow> 'io startup_args_error \<Rightarrow> outputs" where
  "report_startup_error show_io_err argv0 err =
     (case err of
        MissingStorageDirectory \<Rightarrow>
          [Print (''Usage: '' @ (case argv0 of Some a \<Rightarrow> a | None \<Rightarrow> ''ldk-sample'') @ '' <ldk_storage_directory_path>''),
           Print [],
           Print ''The config.toml file should be located at <ldk_storage_directory_path>/.ldk/config.toml''] @
          map Print print_config_help
      | Config config_err \<Rightarrow>
          Print (''ERROR: '' @ show_config_error config_err) #
          (case config_err of
             ValidationError _ \<Rightarrow> []
           | _ \<Rightarrow> Print [] # map Print print_config_help)
      | CreateDataDir path source \<Rightarrow>
          [Print (''ERROR: failed to create LDK data directory '' @ path @ '': '' @ show_io_err source)])"

section \<open>The seed\<close>

text \<open>
  The file \<^verbatim>\<open>keys_seed\<close>: \<open>si_read\<close> is what reading it gives, \<open>si_random\<close> the fresh key, and the
  rest the outcomes of creating, writing and syncing the file; a failed write leaves a prefix of
  \<open>si_partial\<close> bytes. The last argument is what the file holds.
\<close>

record seed_io =
  si_read :: "bytes option"
  si_random :: bytes
  si_create :: "(unit, string) result"
  si_write :: "(unit, string) result"
  si_partial :: nat
  si_sync :: "(unit, string) result"

definition load_keys_seed ::
  "seed_io \<Rightarrow> string \<Rightarrow> bytes option \<Rightarrow> (bytes, outputs) result \<times> bytes option" where
  "load_keys_seed io path disk =
     (case si_read io of
        Some seed \<Rightarrow>
          if length seed \<noteq> 32
          then (Inl (user_err (''Invalid keys seed length in '' @ path @ ''. Expected 32 bytes, found '' @
                  show_nat (length seed) @ ''.'')), disk)
          else (Inr seed, disk)
      | None \<Rightarrow>
          let key = si_random io
          in case si_create io of
               Inl e \<Rightarrow> (Inl (user_err (''Unable to create keys seed file '' @ path @ '': '' @ e)), disk)
             | Inr _ \<Rightarrow>
                 (case si_write io of
                    Inl e \<Rightarrow> (Inl (user_err (''Failed to write node keys seed to disk: '' @ e)),
                              Some (take (si_partial io) key))
                  | Inr _ \<Rightarrow>
                      (case si_sync io of
                         Inl e \<Rightarrow> (Inl (user_err (''Failed to sync node keys seed to disk: '' @ e)), Some key)
                       | Inr _ \<Rightarrow> (Inr key, Some key))))"

section \<open>Channel state\<close>

datatype ('h, 'sw) sweeper_read =
  SweeperNotFound
| SweeperRead "('h \<times> 'sw, string) result"
| SweeperError string

datatype ('mgr, 'sw, 'mon) listener = LManager 'mgr | LSweeper 'sw | LMonitor 'mon

text \<open>
  Steps 10 and 11: the settings that the node changes from LDK's defaults, for the router's scoring and for the
  channel manager. The fields that keep their defaults are not represented.
\<close>

record scoring_fee_parameters =
  base_penalty_msat :: u64
  base_penalty_amount_multiplier_msat :: u64

record user_config =
  force_announced_channel_preference :: bool
  negotiate_anchors_zero_fee_htlc_tx :: bool
  manually_accept_inbound_channels :: bool

record manager_settings =
  ms_scoring :: scoring_fee_parameters
  ms_user :: user_config

definition scoring_fee_params :: "scoring_fee_parameters \<Rightarrow> scoring_fee_parameters" where
  "scoring_fee_params ldk_default =
     ldk_default\<lparr>base_penalty_msat := 500000, base_penalty_amount_multiplier_msat := 131072 * 3\<rparr>"

definition node_user_config :: "user_config \<Rightarrow> user_config" where
  "node_user_config ldk_default =
     ldk_default\<lparr>force_announced_channel_preference := False, negotiate_anchors_zero_fee_htlc_tx := True,
       manually_accept_inbound_channels := True\<rparr>"

definition node_settings :: "manager_settings \<Rightarrow> manager_settings" where
  "node_settings ldk_default =
     \<lparr>ms_scoring = scoring_fee_params (ms_scoring ldk_default), ms_user = node_user_config (ms_user ldk_default)\<rparr>"

record ('h, 'mon, 'mgr, 'sw, 'tip) boot_env =
  be_seed :: seed_io
  be_clock :: "(u64, string) result"
  be_monitors :: "(('h \<times> 'mon) list, string) result"
  be_tip :: "('tip, string) result"
  be_tip_hash :: "'tip \<Rightarrow> 'h"
  be_defaults :: manager_settings
  be_manager :: "(manager_settings \<Rightarrow> 'mon list \<Rightarrow> ('h \<times> 'mgr, string) result) option"
  be_fresh_manager :: "manager_settings \<Rightarrow> 'tip \<Rightarrow> u32 \<Rightarrow> 'mgr"
  be_manager_block :: "'mgr \<Rightarrow> 'h"
  be_sweeper :: "('h, 'sw) sweeper_read"
  be_fresh_sweeper :: "'h \<Rightarrow> 'sw"
  be_sync :: "('h \<times> ('mgr, 'sw, 'mon) listener) list \<Rightarrow> ('tip, string) result"
  be_channel_id :: "'mon \<Rightarrow> bytes"
  be_load_monitor :: "'mon \<Rightarrow> bool"
  be_resolver :: "(string list, string) result"
  be_clock2 :: "(u64, string) result"

record ('h, 'mon, 'mgr, 'sw, 'tip) boot_state =
  bs_key :: bytes
  bs_restarting :: bool
  bs_manager :: 'mgr
  bs_sweeper :: 'sw
  bs_synced :: "('h \<times> ('mgr, 'sw, 'mon) listener) list"
  bs_tip :: 'tip
  bs_loaded :: "'mon list"

text \<open>Step 11: the manager read from its file, with the monitors, or a fresh one when the file cannot be opened.\<close>

definition load_manager ::
  "('h, 'mon, 'mgr, 'sw, 'tip) boot_env \<Rightarrow> u64 \<Rightarrow> ('h \<times> 'mon) list \<Rightarrow> 'tip \<Rightarrow> (bool \<times> 'h \<times> 'mgr, outputs) result" where
  "load_manager E cur monitors tip =
     (case be_manager E of
        Some read_manager \<Rightarrow>
          and_then (map_err (\<lambda>e. user_err (''Failed to deserialize channel manager: '' @ e))
            (read_manager (node_settings (be_defaults E)) (map snd monitors)))
            (\<lambda>(h, m). Inr (True, h, m))
      | None \<Rightarrow> Inr (False, be_tip_hash E tip, be_fresh_manager E (node_settings (be_defaults E)) tip (ucast cur)))"

definition load_sweeper ::
  "('h, 'mon, 'mgr, 'sw, 'tip) boot_env \<Rightarrow> 'mgr \<Rightarrow> ('h \<times> 'sw, outputs) result" where
  "load_sweeper E manager =
     (case be_sweeper E of
        SweeperNotFound \<Rightarrow> (let b = be_manager_block E manager in Inr (b, be_fresh_sweeper E b))
      | SweeperRead r \<Rightarrow> map_err (\<lambda>e. user_err (''Failed to deserialize OutputSweeper: '' @ e)) r
      | SweeperError e \<Rightarrow> Inl (user_err (''Failed to read OutputSweeper: '' @ e)))"

text \<open>Step 13; the monitors drained from the list are the ones given to the chain monitor in step 14.\<close>

definition sync_chain ::
  "('h, 'mon, 'mgr, 'sw, 'tip) boot_env \<Rightarrow> bool \<Rightarrow> 'h \<times> 'mgr \<Rightarrow> 'h \<times> 'sw \<Rightarrow> ('h \<times> 'mon) list \<Rightarrow> 'tip \<Rightarrow>
    ('tip \<times> ('h \<times> ('mgr, 'sw, 'mon) listener) list \<times> 'mon list, outputs) result" where
  "sync_chain E restarting_node hm hs monitors polled_tip =
     (if restarting_node
      then let listeners = [(fst hm, LManager (snd hm)), (fst hs, LSweeper (snd hs))] @
                 map (\<lambda>(h, m). (h, LMonitor m)) monitors
           in and_then (map_err (\<lambda>e. user_err (''Failed to synchronize chain listeners: '' @ e)) (be_sync E listeners))
                (\<lambda>tip. Inr (tip, listeners, map snd monitors))
      else Inr (polled_tip, [], []))"

fun load_monitors :: "('h, 'mon, 'mgr, 'sw, 'tip) boot_env \<Rightarrow> 'mon list \<Rightarrow> (unit, outputs) result" where
  "load_monitors E [] = Inr ()"
| "load_monitors E (m # ms) =
     (if be_load_monitor E m then load_monitors E ms
      else Inl (user_err (''Failed to load existing monitor for channel '' @ hex_str (be_channel_id E m))))"

definition resolve_default_dns :: "('h, 'mon, 'mgr, 'sw, 'tip) boot_env \<Rightarrow> (string, outputs) result" where
  "resolve_default_dns E =
     (case be_resolver E of
        Inr (a # _) \<Rightarrow> Inr a
      | Inr [] \<Rightarrow> Inl (user_err ''Resolver address lookup returned no addresses'')
      | Inl e \<Rightarrow> Inl (user_err (''Failed to resolve default DNS resolver: '' @ e)))"

definition peer_manager_time :: "('h, 'mon, 'mgr, 'sw, 'tip) boot_env \<Rightarrow> (u32, outputs) result" where
  "peer_manager_time E =
     and_then (map_err (\<lambda>e. user_err (''System clock appears to be before UNIX_EPOCH: '' @ e)) (be_clock2 E)) (\<lambda>t.
       if unat t < 2 ^ 32 then Inr (ucast t)
       else Inl (user_err ''Current timestamp does not fit expected peer-manager type''))"

text \<open>Steps 6 to 14, from the monitors on disk to the monitors handed to the chain monitor.\<close>

definition restore_channels ::
  "('h, 'mon, 'mgr, 'sw, 'tip) boot_env \<Rightarrow> bytes \<Rightarrow> (('h, 'mon, 'mgr, 'sw, 'tip) boot_state, outputs) result" where
  "restore_channels E key =
     and_then (map_err (\<lambda>e. user_err (''System clock appears to be before UNIX_EPOCH: '' @ e)) (be_clock E)) (\<lambda>cur.
     and_then (map_err (\<lambda>e. user_err (''Failed to read channel monitors from disk: '' @ e)) (be_monitors E)) (\<lambda>monitors.
     and_then (map_err (\<lambda>e. user_err (''Failed to fetch best block header and best block: '' @ e)) (be_tip E)) (\<lambda>polled_tip.
     and_then (load_manager E cur monitors polled_tip) (\<lambda>(restarting_node, hm).
     and_then (load_sweeper E (snd hm)) (\<lambda>hs.
     and_then (sync_chain E restarting_node hm hs monitors polled_tip) (\<lambda>(tip, synced, loaded).
     and_then (load_monitors E loaded) (\<lambda>_.
       Inr \<lparr>bs_key = key, bs_restarting = restarting_node, bs_manager = snd hm, bs_sweeper = snd hs,
            bs_synced = synced, bs_tip = tip, bs_loaded = loaded\<rparr>)))))))"

section \<open>The node's components\<close>

text \<open>
  What the modelled components meet during a start: the file system for the logger, bitcoind's
  answers (\<open>ni_rpc k\<close> to the k-th call), the files of the graph and of the scorer, and what the
  gossip download needs. \<open>node_disk\<close> is what a start may change on disk.
\<close>

record ('d, 'j, 'hx, 'txid, 'ad, 'ge, 'g, 'b, 's) node_io =
  ni_create_dir :: "(unit, string) result"
  ni_fmt_date :: "'d \<Rightarrow> string"
  ni_today :: 'd
  ni_mkdir :: "string \<Rightarrow> bool"
  ni_can_open :: "string \<Rightarrow> bool"
  ni_logger_err :: string
  ni_parsers :: "('hx, 'txid, 'ad) chain_parsers"
  ni_json :: "'j json_ops"
  ni_rpc :: "nat \<Rightarrow> 'j rpc"
  ni_show_network :: "network \<Rightarrow> string"
  ni_graph_file :: "'b option"
  ni_graph_exists :: bool
  ni_decode_graph :: "'b \<Rightarrow> 'g option"
  ni_new_graph :: 'g
  ni_scorer_file :: "'b option"
  ni_scorer_exists :: bool
  ni_decode_scorer :: "'g \<Rightarrow> 'b \<Rightarrow> 's option"
  ni_new_scorer :: "'g \<Rightarrow> 's"
  ni_sync :: "nat \<Rightarrow> 'ge sync_params"
  ni_update :: "bytes \<Rightarrow> 'g \<Rightarrow> (u32, 'ge) result \<times> 'g"
  ni_ts :: ts_io
  ni_client_fault :: "string option"
  ni_debug_sync :: "'ge rapid_sync_error \<Rightarrow> string"

record node_disk =
  nd_seed :: "bytes option"
  nd_logs :: files
  nd_sync :: "string option"

definition open_logger ::
  "('d, 'j, 'hx, 'txid, 'ad, 'ge, 'g, 'b, 's) node_io \<Rightarrow> string \<Rightarrow> files \<Rightarrow> ('d log_writer \<times> files, outputs) result" where
  "open_logger IO ldk_data_dir fs =
     and_then (map_err (\<lambda>e. [Print (''ERROR: Failed to create LDK data directory '' @ ldk_data_dir @ '': '' @ e)])
       (ni_create_dir IO)) (\<lambda>_.
     ok_or [Print (''ERROR: Failed to initialise filesystem logger at '' @ ldk_data_dir @ ''/logs: '' @ ni_logger_err IO)]
       (try_new (ni_fmt_date IO) (ni_mkdir IO) (ni_can_open IO) (ni_today IO) ldk_data_dir fs))"

definition chain_of_network :: "network \<Rightarrow> string" where
  "chain_of_network n = (case n of Bitcoin \<Rightarrow> ''main'' | Regtest \<Rightarrow> ''regtest'' | Signet \<Rightarrow> ''signet'' | Testnet \<Rightarrow> ''test'')"

definition check_chain ::
  "('d, 'j, 'hx, 'txid, 'ad, 'ge, 'g, 'b, 's) node_io \<Rightarrow> network \<Rightarrow> (fees, outputs) result" where
  "check_chain IO n =
     and_then (map_err (\<lambda>e. user_err (''Failed to connect to bitcoind client: '' @ re_text e))
       (BitcoindClient_new (ni_parsers IO) (ni_json IO) (ni_rpc IO 0))) (\<lambda>client_fees.
     and_then (map_err (\<lambda>e. user_err (''Failed to fetch bitcoind chain info: '' @ re_text e))
       (get_blockchain_info (ni_parsers IO) (ni_json IO) (ni_rpc IO 1))) (\<lambda>info.
       if chain_name info \<noteq> chain_of_network n
       then Inl (user_err (''Chain argument ('' @ ni_show_network IO n @ '') didn'' @ [CHR 0x27] @
              ''t match bitcoind chain ('' @ chain_name info @ '')''))
       else Inr client_fees))"

text \<open>Step 9.\<close>

definition read_graph_and_scorer ::
  "('d, 'j, 'hx, 'txid, 'ad, 'ge, 'g, 'b, 's) node_io \<Rightarrow> string \<Rightarrow> 'g \<times> 's \<times> outputs" where
  "read_graph_and_scorer IO ldk_data_dir =
     (let (graph, out1) = read_network (ldk_data_dir @ ''/network_graph'') (ni_graph_file IO) (ni_graph_exists IO)
            (ni_decode_graph IO) (ni_new_graph IO);
          (scorer, out2) = read_scorer (ldk_data_dir @ ''/'' @ SCORER_PERSISTENCE_FILE_NAME) (ni_scorer_file IO) (ni_scorer_exists IO)
            (ni_decode_scorer IO graph) (ni_new_scorer IO graph)
      in (graph, scorer, out1 @ out2))"

text \<open>Step 15: the manager of the gossip sync, known by its URL, and the graph and state file after its first sync.\<close>

definition init_rapid_sync ::
  "('d, 'j, 'hx, 'txid, 'ad, 'ge, 'g, 'b, 's) node_io \<Rightarrow> 'addr ldk_user_info \<Rightarrow> 'g sync_state \<Rightarrow>
    string option \<times> 'g sync_state \<times> sync_act list" where
  "init_rapid_sync IO args st =
     (if rapid_gossip_sync_enabled args
      then let first = SOut (Log Info (''Initializing RapidGossipSync with URL: '' @
                 (case rapid_gossip_sync_url args of Some u \<Rightarrow> u | None \<Rightarrow> ''default'')));
               (r, st', acts) = rapid_sync_new (ni_sync IO) (ni_update IO) (ni_ts IO) (ni_client_fault IO) (ni_debug_sync IO)
                 (rapid_gossip_sync_url args) st
           in case r of
                Inr manager \<Rightarrow> (Some manager, st', first # acts @ [SOut (Log Info ''RapidGossipSync initialized successfully'')])
              | Inl e \<Rightarrow> (None, st', first # acts @ [SOut (Log Error (''Failed to initialize RapidGossipSync: '' @
                  ni_debug_sync IO e @ ''. Continuing with P2P sync only.''))])
      else (None, st, [SOut (Log Info ''RapidGossipSync disabled by configuration'')]))"

record ('h, 'mon, 'mgr, 'sw, 'tip, 'g, 's) node =
  n_boot :: "('h, 'mon, 'mgr, 'sw, 'tip) boot_state"
  n_fees :: fees
  n_graph :: 'g
  n_scorer :: 's
  n_rgs :: "string option"
  n_resolver :: string
  n_time :: u32
  n_acts :: "sync_act list"

text \<open>The steps in order, up to the creation of the peer manager. The error value holds what the failing
  step prints; \<open>n_acts\<close> what steps 9 and 15 log.\<close>

definition start_ldk ::
  "('d, 'j, 'hx, 'txid, 'ad, 'ge, 'g, 'b, 's) node_io \<Rightarrow> ('h, 'mon, 'mgr, 'sw, 'tip) boot_env \<Rightarrow> 'addr ldk_user_info \<Rightarrow>
    node_disk \<Rightarrow> (('h, 'mon, 'mgr, 'sw, 'tip, 'g, 's) node, outputs) result \<times> node_disk" where
  "start_ldk IO E args disk =
     (let ldk_data_dir = ldk_storage_dir_path args @ ''/.ldk''
      in case open_logger IO ldk_data_dir (nd_logs disk) of
           Inl out \<Rightarrow> (Inl out, disk)
         | Inr (writer, logs) \<Rightarrow>
             let disk1 = disk\<lparr>nd_logs := logs\<rparr>
             in case check_chain IO (network args) of
                  Inl out \<Rightarrow> (Inl out, disk1)
                | Inr client_fees \<Rightarrow>
                    let (seed, seed_file) = load_keys_seed (be_seed E) (ldk_data_dir @ ''/keys_seed'') (nd_seed disk1);
                        disk2 = disk1\<lparr>nd_seed := seed_file\<rparr>
                    in case and_then seed (restore_channels E) of
                         Inl out \<Rightarrow> (Inl out, disk2)
                       | Inr boot \<Rightarrow>
                           let (graph, scorer, out) = read_graph_and_scorer IO ldk_data_dir;
                               (rgs, st, acts) = init_rapid_sync IO args \<lparr>sync_graph = graph, sync_file = nd_sync disk2\<rparr>;
                               disk3 = disk2\<lparr>nd_sync := sync_file st\<rparr>
                           in (and_then (resolve_default_dns E) (\<lambda>resolver.
                               and_then (peer_manager_time E) (\<lambda>time.
                                 Inr \<lparr>n_boot = boot, n_fees = client_fees, n_graph = sync_graph st, n_scorer = scorer,
                                      n_rgs = rgs, n_resolver = resolver, n_time = time, n_acts = map SOut out @ acts\<rparr>)),
                               disk3))"

section \<open>Lemmas\<close>

lemma load_keys_seed_stable:
  assumes "length (si_random io) = 32" and "si_read io = None \<or> si_read io = disk"
    and "load_keys_seed io path disk = (Inr key, disk')"
  shows "disk' = Some key \<and> length key = 32"
  using assms by (auto simp: load_keys_seed_def Let_def split: option.splits if_splits sum.splits)

lemma start_ldk_InrD:
  assumes "start_ldk IO E args disk = (Inr nd, disk')"
  obtains key where
    "load_keys_seed (be_seed E) (ldk_storage_dir_path args @ ''/.ldk/keys_seed'') (nd_seed disk) = (Inr key, nd_seed disk')"
    "restore_channels E key = Inr (n_boot nd)"
proof -
  let ?seed = "load_keys_seed (be_seed E) (ldk_storage_dir_path args @ ''/.ldk/keys_seed'') (nd_seed disk)"
  obtain seed d where sd: "?seed = (seed, d)" by (metis prod.exhaust)
  from assms sd show ?thesis
    by (auto simp: start_ldk_def Let_def and_then_Inr_iff case_prod_beta split: sum.splits intro!: that)
qed

lemma load_monitors_all: "load_monitors E ms = Inr () \<longleftrightarrow> list_all (be_load_monitor E) ms"
  by (induction ms) auto

lemma restore_channels_InrD:
  assumes "restore_channels E key = Inr st"
  obtains monitors polled cur hm hs where
    "bs_key st = key" "be_monitors E = Inr monitors" "be_tip E = Inr polled"
    "load_manager E cur monitors polled = Inr (bs_restarting st, hm)" "bs_manager st = snd hm"
    "load_sweeper E (snd hm) = Inr hs" "bs_sweeper st = snd hs"
    "sync_chain E (bs_restarting st) hm hs monitors polled = Inr (bs_tip st, bs_synced st, bs_loaded st)"
    "list_all (be_load_monitor E) (bs_loaded st)"
  using assms unfolding restore_channels_def and_then_Inr_iff
  by (auto simp: load_monitors_all [symmetric] and_then_Inr_iff split: prod.splits intro!: that)

section \<open>Properties\<close>

text \<open>C17: which monitors a start hands over. A start that succeeds either read the channel manager
  from its file, together with every monitor on disk, synchronised manager, sweeper and all these
  monitors, each from its own block, and then loaded all of them in order; or the manager's file could
  not be opened, and then it runs a fresh manager, synchronises nothing and loads none of the monitors it read.
  In the first case the manager is read with the node's settings (anchors, manual acceptance, scoring penalties).\<close>

theorem start_loads_monitors:
  assumes "start_ldk IO E args disk = (Inr nd, disk')" and "be_monitors E = Inr monitors" and "st = n_boot nd"
  shows "(bs_restarting st \<longleftrightarrow> be_manager E \<noteq> None) \<and>
    (if bs_restarting st
     then bs_loaded st = map snd monitors \<and> list_all (be_load_monitor E) (map snd monitors) \<and>
       (\<exists>read_manager hm hs. be_manager E = Some read_manager \<and>
         read_manager (node_settings (be_defaults E)) (map snd monitors) = Inr (hm, bs_manager st) \<and>
         bs_synced st = (hm, LManager (bs_manager st)) # (hs, LSweeper (bs_sweeper st)) #
           map (\<lambda>(h, m). (h, LMonitor m)) monitors \<and>
         be_sync E (bs_synced st) = Inr (bs_tip st))
     else bs_loaded st = [] \<and> bs_synced st = [] \<and> be_tip E = Inr (bs_tip st))"
proof -
  obtain key where "restore_channels E key = Inr st" using start_ldk_InrD [OF assms(1)] assms(3) by metis
  then obtain ms polled cur hm hs where
    "be_monitors E = Inr ms" "be_tip E = Inr polled" and
    "load_manager E cur ms polled = Inr (bs_restarting st, hm)" "bs_manager st = snd hm" and
    "bs_sweeper st = snd hs" "sync_chain E (bs_restarting st) hm hs ms polled = Inr (bs_tip st, bs_synced st, bs_loaded st)" and
    "list_all (be_load_monitor E) (bs_loaded st)" by (rule restore_channels_InrD)
  moreover have "ms = monitors" using assms(2) \<open>be_monitors E = Inr ms\<close> by simp
  ultimately show ?thesis
    by (cases hm) (auto simp: load_manager_def sync_chain_def and_then_Inr_iff Let_def
        split: option.splits if_splits intro!: exI [of _ "fst hs"])
qed

definition demo_boot :: "(nat, nat, nat, nat, nat) boot_env" where
  "demo_boot = \<lparr>
     be_seed = \<lparr>si_read = Some (replicate 32 7), si_random = replicate 32 9, si_create = Inr (), si_write = Inr (),
       si_partial = 0, si_sync = Inr ()\<rparr>,
     be_clock = Inr 100, be_monitors = Inr [(5, 50), (6, 60)], be_tip = Inr 9, be_tip_hash = id,
     be_defaults = \<lparr>ms_scoring = \<lparr>base_penalty_msat = 500, base_penalty_amount_multiplier_msat = 8192\<rparr>,
       ms_user = \<lparr>force_announced_channel_preference = True, negotiate_anchors_zero_fee_htlc_tx = False,
         manually_accept_inbound_channels = False\<rparr>\<rparr>,
     be_manager = Some (\<lambda>_ ms. Inr (4, 40)), be_fresh_manager = (\<lambda>_ t _. t), be_manager_block = id, be_sweeper = SweeperNotFound,
     be_fresh_sweeper = id, be_sync = (\<lambda>ls. Inr (length ls)), be_channel_id = (\<lambda>m. []), be_load_monitor = (\<lambda>_. True),
     be_resolver = Inr [''8.8.8.8:53''], be_clock2 = Inr 100\<rparr>"

definition demo_io :: "(nat, string, string, nat, nat, nat, nat, nat, nat) node_io" where
  "demo_io = \<lparr>ni_create_dir = Inr (), ni_fmt_date = (\<lambda>_. ''2025-01-01''), ni_today = 1, ni_mkdir = (\<lambda>_. True),
     ni_can_open = (\<lambda>_. True), ni_logger_err = [],
     ni_parsers = \<lparr>parse_block_hash = Inr, parse_txid = (\<lambda>_. Inr 0), amount_from_btc = (\<lambda>_. Inr 0), parse_address = (\<lambda>_. Inr 0)\<rparr>,
     ni_json = \<lparr>j_index = (\<lambda>_ k. if k = ''chain'' then ''regtest'' else ''00''), j_as_str = Some, j_as_u64 = (\<lambda>_. Some 1),
       j_as_i64 = (\<lambda>_. None), j_as_bool = (\<lambda>_. None), j_as_f64 = (\<lambda>_. None), j_is_null = (\<lambda>_. False), j_as_array = (\<lambda>_. None)\<rparr>,
     ni_rpc = (\<lambda>_ _ _. Inr ''{}''), ni_show_network = (\<lambda>_. ''regtest''),
     ni_graph_file = None, ni_graph_exists = False, ni_decode_graph = Some, ni_new_graph = 0,
     ni_scorer_file = Some 3, ni_scorer_exists = True, ni_decode_scorer = (\<lambda>g. Some), ni_new_scorer = (\<lambda>_. 0),
     ni_sync = (\<lambda>_. \<lparr>http_get = (\<lambda>_. Inl []), debug_ge = (\<lambda>_. []), show_io = (\<lambda>_. [])\<rparr>),
     ni_update = (\<lambda>_ g. (Inr 0, g)),
     ni_ts = \<lparr>read_fault = None, create_fault = None, short_write = None, sync_fault = None\<rparr>,
     ni_client_fault = None, ni_debug_sync = (\<lambda>_. [])\<rparr>"

definition demo_args :: "nat ldk_user_info" where
  "demo_args = \<lparr>bitcoind_rpc_username = [], bitcoind_rpc_password = [], bitcoind_rpc_port = 1, bitcoind_rpc_host = [],
     ldk_storage_dir_path = ''d'', ldk_peer_listening_port = 9735, ldk_announced_listen_addr = [],
     ldk_announced_node_name = [], network = Regtest, rapid_gossip_sync_enabled = False, rapid_gossip_sync_url = None,
     rapid_gossip_sync_interval_hours = 6, probing = None, dns_bootstrap_info = None\<rparr>"

definition demo_disk :: node_disk where
  "demo_disk = \<lparr>nd_seed = Some (replicate 32 7), nd_logs = [], nd_sync = None\<rparr>"

lemma demo_check_chain: "check_chain demo_io Regtest = Inr initial_fees"
  by (simp add: check_chain_def demo_io_def BitcoindClient_new_def get_blockchain_info_def call_method_def
      blockchain_info_of_json_def as_u64_field_def as_str_field_def chain_of_network_def)

lemma demo_open_logger: "\<exists>w logs. open_logger demo_io d fs = Inr (w, logs)"
  by (simp add: open_logger_def demo_io_def try_new_def open_log_file_def Let_def)

lemma demo_starts:
  assumes "nd_seed disk = Some (replicate 32 7)"
  shows "\<exists>nd disk'. start_ldk demo_io demo_boot demo_args disk = (Inr nd, disk') \<and> nd_seed disk' = Some (replicate 32 7)"
proof -
  obtain w logs where "open_logger demo_io ''d/.ldk'' (nd_logs disk) = Inr (w, logs)" using demo_open_logger by blast
  moreover have "load_keys_seed (be_seed demo_boot) p (Some (replicate 32 7)) = (Inr (replicate 32 7), Some (replicate 32 7))" for p
    by (simp add: demo_boot_def load_keys_seed_def)
  moreover obtain b where "restore_channels demo_boot (replicate 32 7) = Inr b"
    by (simp add: restore_channels_def demo_boot_def load_manager_def load_sweeper_def sync_chain_def Let_def)
  moreover have "resolve_default_dns demo_boot = Inr ''8.8.8.8:53''" "peer_manager_time demo_boot = Inr 100"
    by (simp_all add: resolve_default_dns_def peer_manager_time_def demo_boot_def)
  ultimately show ?thesis
    using assms by (auto simp: start_ldk_def demo_args_def demo_check_chain Let_def case_prod_beta split: sum.split)
qed

lemma demo_disk_seed: "nd_seed demo_disk = Some (replicate 32 7)"
  by (simp add: demo_disk_def)

theorem start_loads_monitors_witness:
  "\<exists>nd disk'. start_ldk demo_io demo_boot demo_args demo_disk = (Inr nd, disk') \<and> bs_loaded (n_boot nd) = [50, 60]"
proof -
  obtain nd disk' where st: "start_ldk demo_io demo_boot demo_args demo_disk = (Inr nd, disk')"
    using demo_starts [OF demo_disk_seed] by blast
  have m: "be_monitors demo_boot = Inr [(5, 50), (6, 60)]" "be_manager demo_boot \<noteq> None" by (simp_all add: demo_boot_def)
  from start_loads_monitors [OF st m(1) refl] m(2) st show ?thesis by auto
qed

text \<open>C19: the node keeps its identity. When a start succeeds and the seed file it leaves reads back
  truthfully, every later start that succeeds has the same key and leaves the file alone.\<close>

theorem keys_seed_stable:
  assumes "length (si_random (be_seed E)) = 32" and "si_read (be_seed E) = None \<or> si_read (be_seed E) = nd_seed disk"
    and "start_ldk IO E args disk = (Inr nd, disk')"
    and "si_read (be_seed E') = nd_seed disk'" and "start_ldk IO' E' args' disk' = (Inr nd', disk'')"
  shows "bs_key (n_boot nd') = bs_key (n_boot nd) \<and> nd_seed disk'' = nd_seed disk'"
proof -
  obtain key where k: "load_keys_seed (be_seed E) (ldk_storage_dir_path args @ ''/.ldk/keys_seed'') (nd_seed disk) = (Inr key, nd_seed disk')"
    "restore_channels E key = Inr (n_boot nd)" using start_ldk_InrD [OF assms(3)] by metis
  obtain key' where k': "load_keys_seed (be_seed E') (ldk_storage_dir_path args' @ ''/.ldk/keys_seed'') (nd_seed disk') = (Inr key', nd_seed disk'')"
    "restore_channels E' key' = Inr (n_boot nd')" using start_ldk_InrD [OF assms(5)] by metis
  have "nd_seed disk' = Some key" "length key = 32" using load_keys_seed_stable [OF assms(1,2) k(1)] by auto
  with k'(1) assms(4) have "key' = key" "nd_seed disk'' = nd_seed disk'" by (auto simp: load_keys_seed_def)
  then show ?thesis using k(2) k'(2) by (metis restore_channels_InrD)
qed

theorem keys_seed_stable_witness:
  "\<exists>nd disk' nd' disk''. start_ldk demo_io demo_boot demo_args demo_disk = (Inr nd, disk') \<and>
    start_ldk demo_io demo_boot demo_args disk' = (Inr nd', disk'') \<and> bs_key (n_boot nd') = bs_key (n_boot nd)"
proof -
  obtain nd disk' where st: "start_ldk demo_io demo_boot demo_args demo_disk = (Inr nd, disk')"
    "nd_seed disk' = Some (replicate 32 7)" using demo_starts [OF demo_disk_seed] by blast
  obtain nd' disk'' where st': "start_ldk demo_io demo_boot demo_args disk' = (Inr nd', disk'')"
    using demo_starts [OF st(2)] by blast
  have h: "length (si_random (be_seed demo_boot)) = 32" "si_read (be_seed demo_boot) = None \<or> si_read (be_seed demo_boot) = nd_seed demo_disk"
    "si_read (be_seed demo_boot) = nd_seed disk'" using st(2) by (simp_all add: demo_boot_def demo_disk_def)
  from keys_seed_stable [OF h(1,2) st(1) h(3) st'] st(1) st' show ?thesis by blast
qed

text \<open>A seed that exists but cannot be read, whatever the reason, is replaced by a fresh one.\<close>

lemma unreadable_seed_overwritten:
  "si_read io = None \<Longrightarrow> si_create io = Inr () \<Longrightarrow> si_write io = Inr () \<Longrightarrow> si_sync io = Inr () \<Longrightarrow>
    load_keys_seed io path (Some old) = (Inr (si_random io), Some (si_random io))"
  by (simp add: load_keys_seed_def Let_def)

end
