(* ===== verification/Node_Tasks.thy ===== *)
theory Node_Tasks
  imports Startup Events
begin

text \<open>
  The second half of \<^verbatim>\<open>start_ldk\<close> in \<^verbatim>\<open>src/main.rs\<close>: the payment tables are loaded, the tasks
  are spawned, and the node shuts down. A task that never ends is a function of the list of what its
  iterations meet. Shown: what holds of the shared state when the event handler and the command loop
  begin; which inbound connections are set up; the delays of the polling task; for which settings a timer
  panics; the order of the shutdown.
\<close>

section \<open>The listener\<close>

text \<open>One element per completed \<^verbatim>\<open>accept\<close>: the connection, the stop flag read after it, and the
  conversion of the stream, which the task spawned for the connection does.\<close>

datatype 'c accept = AcceptError string | Accepted 'c bool "(unit, string) result"

datatype 'c listen_act = SetupInbound 'c | ListenOut out_event

fun accept_loop :: "'c accept list \<Rightarrow> 'c listen_act list" where
  "accept_loop [] = []"
| "accept_loop (AcceptError e # rest) =
     ListenOut (Log Warn (''Failed to accept inbound connection: '' @ e)) # accept_loop rest"
| "accept_loop (Accepted c stop into_std # rest) =
     (if stop then []
      else (case into_std of
              Inr _ \<Rightarrow> SetupInbound c
            | Inl e \<Rightarrow> ListenOut (Log Warn (''Failed to convert inbound TCP stream: '' @ e))) # accept_loop rest)"

definition listen :: "u16 \<Rightarrow> (unit, string) result \<Rightarrow> 'c accept list \<Rightarrow> 'c listen_act list" where
  "listen listening_port bind_result accepts =
     (case bind_result of
        Inl e \<Rightarrow> map ListenOut (user_err (''Failed to bind to listen port '' @ show_nat (unat listening_port) @
                   '' - is something else already listening on it? '' @ e))
      | Inr _ \<Rightarrow> accept_loop accepts)"

section \<open>Polling for blocks\<close>

text \<open>One result of \<^verbatim>\<open>poll_best_tip\<close> per element, with the kind of the error and its printed form; the state is the delay in seconds.\<close>

datatype source_error = Transient string | Persistent string

definition spv_step :: "nat \<Rightarrow> (unit, source_error) result \<Rightarrow> nat \<times> nat \<times> outputs" where
  "spv_step retry_delay r =
     (case r of
        Inr _ \<Rightarrow> (1, 1, [])
      | Inl e \<Rightarrow>
          (min (retry_delay + retry_delay) 30, retry_delay,
           [case e of
              Transient m \<Rightarrow> Log Warn (''SPV poll_best_tip transient error: '' @ m @ ''. Retrying in '' @ show_nat retry_delay @ ''s'')
            | Persistent m \<Rightarrow> Log Error (''SPV poll_best_tip persistent error: '' @ m @ ''. Retrying in '' @ show_nat retry_delay @ ''s'')]))"

fun spv_sleeps :: "nat \<Rightarrow> (unit, source_error) result list \<Rightarrow> nat list" where
  "spv_sleeps retry_delay [] = []"
| "spv_sleeps retry_delay (r # rs) =
     (let (next_delay, sleep, _) = spv_step retry_delay r in sleep # spv_sleeps next_delay rs)"

section \<open>Periodic tasks\<close>

text \<open>
  The DNS bootstrap task: created when the section is enabled and the resolver can be built. A tick
  reads the stop flag first; \<open>None\<close> is a tick that never returns. Validation makes the period positive.
\<close>

definition start_dns_bootstrap ::
  "(unit, string) result \<Rightarrow> dns_bootstrap_config option \<Rightarrow> dns_bootstrap_config option \<times> outputs" where
  "start_dns_bootstrap system_conf cfg =
     (case cfg of
        None \<Rightarrow> (None, [])
      | Some dns_config \<Rightarrow>
          if dns_enabled dns_config
          then case DnsBootstrapper_new system_conf dns_config of
                 Inr b \<Rightarrow> (Some b, [Log Info (''DNS bootstrap enabled: '' @ show_nat (length (dns_seeds b)) @ '' seeds, target '' @
                    show_nat (unat (dns_num_peers b)) @ '' peers, interval '' @ show_nat (unat (dns_interval_secs b)) @ ''s'')])
               | Inl e \<Rightarrow> (None, [Log Error (''[dns_bootstrap] Failed to initialize bootstrapper: '' @ show_dns_error e)])
          else (None, []))"

record ('pk, 'ip) bootstrap_tick =
  bt_stop :: bool
  bt_dns :: "('pk, 'ip) dns_params"
  bt_connected :: "'pk list"
  bt_env :: "nat \<Rightarrow> conn_env"

fun bootstrap_ticks ::
  "dns_bootstrap_config \<Rightarrow> ('pk, 'ip) bootstrap_tick list \<Rightarrow> ('pk, 'ip) bootstrapped_peer list list option \<times> outputs" where
  "bootstrap_ticks config [] = (Some [], [])"
| "bootstrap_ticks config (t # ts) =
     (if bt_stop t then (Some [], [])
      else let (r, out) = bootstrap_round (bt_dns t) config (bt_connected t) (bt_env t)
           in case r of
                None \<Rightarrow> (None, out)
              | Some attempts \<Rightarrow>
                  let (rs, out') = bootstrap_ticks config ts in (map_option (Cons attempts) rs, out @ out'))"

text \<open>The task as spawned: it sleeps five seconds and then asks for its interval; \<open>timer_panics\<close> tells for which periods
  the timer of the runtime panics. The first component tells whether the task panicked.\<close>

definition bootstrap_task ::
  "(u64 \<Rightarrow> bool) \<Rightarrow> dns_bootstrap_config \<Rightarrow> ('pk, 'ip) bootstrap_tick list \<Rightarrow>
    bool \<times> ('pk, 'ip) bootstrapped_peer list list option \<times> outputs" where
  "bootstrap_task timer_panics config ticks =
     (if timer_panics (dns_interval_secs config) then (True, Some [], []) else (False, bootstrap_ticks config ticks))"

text \<open>The announcement task announces when some channel is public.\<close>

datatype 'addr announce_act = AnnounceSleep nat | BroadcastNodeAnnouncement "u8 list" bytes "'addr list"

definition announce_round :: "bool list \<Rightarrow> 'addr ldk_user_info \<Rightarrow> 'addr announce_act list" where
  "announce_round channels_announced args =
     (if \<exists>a \<in> set channels_announced. a
      then [BroadcastNodeAnnouncement [0, 0, 0] (ldk_announced_node_name args) (ldk_announced_listen_addr args)]
      else [])"

text \<open>\<open>ticks\<close>: the announced flags of the channels at each hourly tick, the first of which is immediate.\<close>

definition announce_task :: "'addr ldk_user_info \<Rightarrow> bool list list \<Rightarrow> 'addr announce_act list" where
  "announce_task args ticks = AnnounceSleep 60 # concat (map (\<lambda>channels_announced. announce_round channels_announced args) ticks)"

text \<open>
  The gossip task: its first tick is skipped, the others are the list. The period is a product that panics when it
  overflows in a build with overflow checks, as the development profile has them, and wraps otherwise.
\<close>

definition rapid_sync_interval :: "bool \<Rightarrow> u64 \<Rightarrow> u64 option" where
  "rapid_sync_interval overflow_checks interval_hours =
     (if overflow_checks \<and> 2 ^ 64 \<le> unat interval_hours * 3600 then None else Some (interval_hours * 3600))"

type_synonym ('ge, 'g) sync_tick = "(nat \<Rightarrow> 'ge sync_params) \<times> (bytes \<Rightarrow> 'g \<Rightarrow> (u32, 'ge) result \<times> 'g) \<times> ts_io"

definition rapid_sync_round ::
  "('ge rapid_sync_error \<Rightarrow> string) \<Rightarrow> string \<Rightarrow> ('ge, 'g) sync_tick \<Rightarrow> 'g sync_state \<Rightarrow> 'g sync_state \<times> sync_act list" where
  "rapid_sync_round debug_err url = (\<lambda>(P, update_network_graph, io) st.
     let (r, st', acts) = sync_network_graph P update_network_graph io url st
     in (st', SOut (Log Info ''Starting periodic rapid gossip sync update'') # acts @
          [case r of
             Inr new_timestamp \<Rightarrow> SOut (Log Info (''Periodic rapid gossip sync completed successfully. New timestamp: '' @
               show_nat (unat new_timestamp)))
           | Inl e \<Rightarrow> SOut (Log Error (''Periodic rapid gossip sync failed: '' @ debug_err e))]))"

fun rapid_sync_ticks ::
  "('ge rapid_sync_error \<Rightarrow> string) \<Rightarrow> string \<Rightarrow> ('ge, 'g) sync_tick list \<Rightarrow> 'g sync_state \<Rightarrow> 'g sync_state \<times> sync_act list" where
  "rapid_sync_ticks debug_err url [] st = (st, [])"
| "rapid_sync_ticks debug_err url (t # ts) st =
     (let (st1, acts1) = rapid_sync_round debug_err url t st;
          (st2, acts2) = rapid_sync_ticks debug_err url ts st1
      in (st2, acts1 @ acts2))"

definition rapid_sync_task ::
  "(u64 \<Rightarrow> bool) \<Rightarrow> bool \<Rightarrow> ('ge rapid_sync_error \<Rightarrow> string) \<Rightarrow> string \<Rightarrow> u64 \<Rightarrow> ('ge, 'g) sync_tick list \<Rightarrow> 'g sync_state \<Rightarrow>
    bool \<times> 'g sync_state \<times> sync_act list" where
  "rapid_sync_task timer_panics overflow_checks debug_err url interval_hours ticks st =
     (case rapid_sync_interval overflow_checks interval_hours of
        None \<Rightarrow> (True, st, [])
      | Some period \<Rightarrow>
          if timer_panics period then (True, st, []) else (False, rapid_sync_ticks debug_err url ticks st))"

section \<open>Spawning the tasks\<close>

datatype ('tip, 'addr) task =
  Listener u16
| BlockPoller 'tip
| BackgroundProcessor
| Reconnector
| DnsBootstrapTask dns_bootstrap_config
| Announcer bytes "'addr list"
| Migration string
| ProbingTask probing_config
| RapidSyncTask string u64
| CommandLoop

text \<open>
  The tasks in the order they are spawned and the state the event handler and the command loop
  share, \<open>None\<close> when the start gives up because the outbound table cannot be written. The
  channel manager's recent payments are \<open>recent\<close>. In a build with overflow checks the period of the gossip task,
  which is computed here, may panic first (\<open>rapid_sync_interval\<close>).
\<close>

definition spawn_tasks ::
  "(payments \<Rightarrow> 'b) \<Rightarrow> ('b \<Rightarrow> payments option) \<Rightarrow> load_io \<Rightarrow> ('mgr \<Rightarrow> bytes list) \<Rightarrow> (unit, string) result \<Rightarrow>
    'addr ldk_user_info \<Rightarrow> ('h, 'mon, 'mgr, 'sw, 'tip, 'g, 's) node \<Rightarrow> 'b pay_state \<Rightarrow>
    'b ev_state option \<times> ('tip, 'addr) task list \<times> outputs" where
  "spawn_tasks encode decode fault recent system_conf args nd pay =
     (let ldk_data_dir = ldk_storage_dir_path args @ ''/.ldk'';
          early = [Listener (ldk_peer_listening_port args), BlockPoller (bs_tip (n_boot nd))];
          (tables, out) = load_payments encode decode ldk_data_dir fault (recent (bs_manager (n_boot nd))) pay
      in case tables of
           None \<Rightarrow> (None, early, out)
         | Some s \<Rightarrow>
             let (dns, out') = start_dns_bootstrap system_conf (dns_bootstrap_info args)
             in (Some \<lparr>es_pay = s, es_tracker = tracker_new\<rparr>,
                 early @ [BackgroundProcessor, Reconnector] @
                 (case dns of Some c \<Rightarrow> [DnsBootstrapTask c] | None \<Rightarrow> []) @
                 [Announcer (ldk_announced_node_name args) (ldk_announced_listen_addr args), Migration ldk_data_dir] @
                 (case probing args of Some c \<Rightarrow> [ProbingTask c] | None \<Rightarrow> []) @
                 (case n_rgs nd of Some url \<Rightarrow> [RapidSyncTask url (rapid_gossip_sync_interval_hours args)] | None \<Rightarrow> []) @
                 [CommandLoop],
                 out @ out'))"

section \<open>Shutdown\<close>

datatype 'io wake = CliExited | BackgroundExited "((unit, 'io) result, string) result"

datatype shutdown_act =
  StopListening
| DisconnectAllPeers
| WriteManager
| SignalExit
| AwaitBackground
| ShutLog level string

record 'io shutdown_env =
  sd_write :: "(unit, string) result"
  sd_closed :: bool
  sd_signal :: "(unit, string) result"
  sd_join :: "((unit, 'io) result, string) result"
  sd_show_io :: "'io \<Rightarrow> string"

definition shutdown :: "'io shutdown_env \<Rightarrow> 'io wake \<Rightarrow> shutdown_act list" where
  "shutdown S w =
     (let bg_res = (case w of CliExited \<Rightarrow> Inr (Inr ()) | BackgroundExited r \<Rightarrow> r)
      in [StopListening, DisconnectAllPeers] @
         (case bg_res of
            Inl e \<Rightarrow>
              [WriteManager,
               (case sd_write S of
                  Inl write_err \<Rightarrow> ShutLog Error (''Last-ditch ChannelManager persistence failed: '' @ write_err)
                | Inr _ \<Rightarrow> ShutLog Error ''Last-ditch ChannelManager persistence completed''),
               ShutLog Error (''ERR: background processing stopped: '' @ e)]
          | Inr _ \<Rightarrow>
              if sd_closed S then []
              else SignalExit #
                (case sd_signal S of
                   Inl e \<Rightarrow> [ShutLog Warn (''Failed to signal background processor shutdown: '' @ e)] | Inr _ \<Rightarrow> []) @
                AwaitBackground #
                (case sd_join S of
                   Inr (Inr _) \<Rightarrow> []
                 | Inr (Inl e) \<Rightarrow> [ShutLog Error (''Background processor shutdown failed: '' @ sd_show_io S e)]
                 | Inl e \<Rightarrow> [ShutLog Error (''Background processor task join failed: '' @ e)])))"

section \<open>Lemmas\<close>

text \<open>The listener sets up exactly the convertible connections accepted before the first one that finds the stop flag set.\<close>

definition before_stop :: "'c accept list \<Rightarrow> 'c accept list" where
  "before_stop = takeWhile (\<lambda>a. case a of Accepted c stop r \<Rightarrow> \<not> stop | AcceptError e \<Rightarrow> True)"

lemma accept_loop_setups:
  "List.map_filter (\<lambda>a. case a of SetupInbound c \<Rightarrow> Some c | ListenOut e \<Rightarrow> None) (accept_loop accepts) =
    List.map_filter (\<lambda>a. case a of Accepted c stop (Inr u) \<Rightarrow> Some c | _ \<Rightarrow> None) (before_stop accepts)"
  by (induction accepts rule: accept_loop.induct)
    (auto simp: before_stop_def List.map_filter_simps split: sum.split)

lemma bootstrap_ticks_bounded:
  assumes "fst (bootstrap_ticks config ts) = Some rounds"
  shows "length rounds \<le> length ts \<and> list_all (\<lambda>attempts. length attempts \<le> unat (dns_num_peers config)) rounds"
  using assms
proof (induction ts arbitrary: rounds)
  case (Cons t ts)
  note bound = bootstrap_round_attempts [of "bt_dns t" config "bt_connected t" "bt_env t", THEN conjunct1]
  from Cons show ?case
    by (auto simp: Let_def case_prod_beta split: if_splits option.splits dest: bound)
qed simp

lemma reconcile_pending:
  "hm_get (reconcile_outbound recent ps) pid = Some p \<Longrightarrow> status p = Pending \<Longrightarrow> pid \<in> set recent"
  by (cases "hm_get ps pid") (auto simp: reconcile_outbound_def split: if_splits)

lemma load_payments_fresh:
  assumes "load_payments encode decode dir fault recent s = (Some s', out)"
  shows "disk_out s' = Some (encode (outbound s')) \<and>
    (\<forall>pid p. hm_get (outbound s') pid = Some p \<longrightarrow> status p = Pending \<longrightarrow> pid \<in> set recent)"
proof -
  obtain ps ins where "s' = persist_out encode None (s\<lparr>inbound := ins, outbound := reconcile_outbound recent ps\<rparr>)"
    using assms by (auto simp: load_payments_def Let_def case_prod_beta split: option.splits)
  then show ?thesis by (auto simp: persist_out_def dest: reconcile_pending)
qed

text \<open>The period is exact up to 5124095576030431 hours; validation accepts any positive number, and some wrap to zero.\<close>

lemma rapid_sync_interval_exact:
  "unat h * 3600 < 2 ^ 64 \<Longrightarrow> rapid_sync_interval checks h = Some (of_nat (unat h * 3600))"
  by (simp add: rapid_sync_interval_def)

lemma rapid_sync_interval_zero_iff: "rapid_sync_interval False h = Some 0 \<longleftrightarrow> 2 ^ 60 dvd unat h"
proof -
  have "rapid_sync_interval False h = Some 0 \<longleftrightarrow> 2 ^ 64 dvd unat h * 3600"
    by (simp add: rapid_sync_interval_def unat_eq_zero [symmetric] unat_word_ariths dvd_eq_mod_eq_0 del: unat_eq_zero)
  also have "\<dots> \<longleftrightarrow> 2 ^ 4 * 2 ^ 60 dvd 2 ^ 4 * (unat h * 225)" by (simp add: mult.commute)
  also have "\<dots> \<longleftrightarrow> 2 ^ 60 dvd unat h * 225" by (rule dvd_times_left_cancel_iff) simp
  also have "\<dots> \<longleftrightarrow> 2 ^ 60 dvd unat h"
    by (rule coprime_dvd_mult_left_iff, subst coprime_power_left_iff) simp
  finally show ?thesis .
qed

text \<open>A node with no announced channel never broadcasts.\<close>

lemma announce_needs_public_channel:
  "BroadcastNodeAnnouncement c n as \<in> set (announce_task args ticks) \<Longrightarrow>
    (\<exists>tick \<in> set ticks. True \<in> set tick) \<and> c = [0, 0, 0] \<and> n = ldk_announced_node_name args \<and> as = ldk_announced_listen_addr args"
  by (auto simp: announce_task_def announce_round_def split: if_splits)

definition spv_delay :: "(unit, source_error) result list \<Rightarrow> nat" where
  "spv_delay rs = fold (\<lambda>r d. fst (spv_step d r)) rs 1"

definition failure_streak :: "(unit, source_error) result list \<Rightarrow> nat" where
  "failure_streak rs = length (takeWhile (\<lambda>r. \<not> is_ok r) (rev rs))"

lemma spv_delay_streak: "spv_delay rs = min (2 ^ failure_streak rs) 30"
  by (induction rs rule: rev_induct)
    (auto simp: spv_delay_def failure_streak_def spv_step_def split: sum.split)

lemma spv_sleeps_append:
  "spv_sleeps d (xs @ ys) = spv_sleeps d xs @ spv_sleeps (fold (\<lambda>r d. fst (spv_step d r)) xs d) ys"
  by (induction xs arbitrary: d) (simp_all add: Let_def case_prod_beta)

lemma length_spv_sleeps [simp]: "length (spv_sleeps d rs) = length rs"
  by (induction rs arbitrary: d) (simp_all add: Let_def case_prod_beta)

section \<open>Properties\<close>

definition demo_node :: "(nat, nat, nat, nat, nat, nat, nat) node" where
  "demo_node = \<lparr>n_boot = \<lparr>bs_key = [], bs_restarting = True, bs_manager = 40, bs_sweeper = 4, bs_synced = [], bs_tip = 9,
       bs_loaded = []\<rparr>,
     n_fees = initial_fees, n_graph = 0, n_scorer = 0, n_rgs = None, n_resolver = ''8.8.8.8:53'', n_time = 100, n_acts = []\<rparr>"

text \<open>C18: what holds when events and commands are first handled. The background processor and the command
  loop are spawned only when the start did not give up; the shared state they begin with has reachable
  payment tables and an empty tracker, the outbound table in memory is the one on disk, and every payment that
  is still pending is one the channel manager knows.\<close>

theorem tasks_start_consistent:
  assumes "pay_reachable encode decode pay"
    and "spawn_tasks encode decode fault recent system_conf args nd pay = (r, tasks, out)"
    and "BackgroundProcessor \<in> set tasks \<or> CommandLoop \<in> set tasks"
  shows "\<exists>s. r = Some s \<and> pay_reachable encode decode (es_pay s) \<and> es_tracker s = tracker_new \<and>
    disk_out (es_pay s) = Some (encode (outbound (es_pay s))) \<and>
    (\<forall>pid p. hm_get (outbound (es_pay s)) pid = Some p \<longrightarrow> status p = Pending \<longrightarrow>
      pid \<in> set (recent (bs_manager (n_boot nd))))"
proof -
  let ?ids = "recent (bs_manager (n_boot nd))"
  obtain tables out1 where l: "load_payments encode decode (ldk_storage_dir_path args @ ''/.ldk'') fault ?ids pay = (tables, out1)"
    by (metis prod.exhaust)
  with assms(2,3) obtain s where s: "tables = Some s" "r = Some \<lparr>es_pay = s, es_tracker = tracker_new\<rparr>"
    by (auto simp: spawn_tasks_def Let_def case_prod_beta split: option.splits)
  have "pay_reachable encode decode s"
    using pay_reachable.step [OF assms(1) pay_step.restart] l s(1) by blast
  with s load_payments_fresh [OF l [unfolded s(1)]] show ?thesis by simp
qed

theorem tasks_start_consistent_witness:
  "\<exists>s. fst (spawn_tasks id Some \<lparr>in_file = Readable, out_file = Readable, out_fault = None\<rparr> (\<lambda>m. []) (Inr ()) demo_args demo_node
      \<lparr>inbound = hm_new, outbound = hm_new, disk_in = None, disk_out = None\<rparr>) = Some s \<and> es_tracker s = tracker_new"
proof -
  let ?pay = "\<lparr>inbound = hm_new, outbound = hm_new, disk_in = None, disk_out = None\<rparr>"
  obtain r tasks out where t: "spawn_tasks id Some \<lparr>in_file = Readable, out_file = Readable, out_fault = None\<rparr> (\<lambda>m. []) (Inr ()) demo_args demo_node ?pay = (r, tasks, out)"
    by (metis prod.exhaust)
  then have "BackgroundProcessor \<in> set tasks \<or> CommandLoop \<in> set tasks"
    by (auto simp: spawn_tasks_def load_payments_def Let_def case_prod_beta)
  from tasks_start_consistent [OF pay_reachable.start t this] t show ?thesis by auto
qed

text \<open>C33: the polling task sleeps one second after every success and, after the n-th failure in a row,
  two to the power n - 1 seconds, but never more than thirty.\<close>

theorem spv_backoff:
  assumes "i < length rs"
  shows "spv_sleeps 1 rs ! i = (if is_ok (rs ! i) then 1 else min (2 ^ failure_streak (take i rs)) 30)"
proof -
  have rs: "rs = take i rs @ rs ! i # drop (Suc i) rs" using assms by (rule id_take_nth_drop)
  have "spv_sleeps 1 rs ! i = hd (spv_sleeps (spv_delay (take i rs)) (rs ! i # drop (Suc i) rs))"
    by (subst rs, simp only: spv_sleeps_append spv_delay_def) (use assms in \<open>simp add: nth_append Let_def case_prod_beta\<close>)
  also have "\<dots> = (if is_ok (rs ! i) then 1 else spv_delay (take i rs))"
    by (cases "rs ! i") (simp_all add: spv_step_def)
  finally show ?thesis by (simp add: spv_delay_streak)
qed

theorem spv_backoff_witness:
  "spv_sleeps 1 [Inr (), Inl (Transient []), Inl (Transient []), Inl (Persistent [])] ! 3 = 4"
  using spv_backoff [of 3 "[Inr (), Inl (Transient []), Inl (Transient []), Inl (Persistent [])]"]
  by (simp add: failure_streak_def)

text \<open>The shutdown first stops accepting connections and disconnects every peer, whatever woke it; the
  last write of the channel manager happens exactly when the background task panicked or was
  cancelled; when that task ended by returning an error, its exit channel being closed by then, the
  error is neither logged nor followed by that write.\<close>

theorem shutdown_order:
  "take 2 (shutdown S w) = [StopListening, DisconnectAllPeers] \<and>
   count_list (shutdown S w) StopListening = 1 \<and>
   (WriteManager \<in> set (shutdown S w) \<longleftrightarrow> (\<exists>e. w = BackgroundExited (Inl e))) \<and>
   (sd_closed S \<and> w = BackgroundExited (Inr (Inl io)) \<longrightarrow> shutdown S w = [StopListening, DisconnectAllPeers])"
  by (cases w) (auto simp: shutdown_def split: sum.split)

theorem shutdown_order_witness:
  "shutdown \<lparr>sd_write = Inr (), sd_closed = True, sd_signal = Inr (), sd_join = Inr (Inr ()), sd_show_io = (\<lambda>e. e)\<rparr>
     (BackgroundExited (Inr (Inl ''disk full''))) = [StopListening, DisconnectAllPeers]"
  using shutdown_order [of "\<lparr>sd_write = Inr (), sd_closed = True, sd_signal = Inr (), sd_join = Inr (Inr ()), sd_show_io = (\<lambda>e. e)\<rparr>"
      "BackgroundExited (Inr (Inl ''disk full''))" "''disk full''"] by simp

end
