(* ===== verification/Display.thy ===== *)
theory Display
  imports Payments
begin

text \<open>
  \<^verbatim>\<open>src/cli/display.rs\<close>: what the read-only commands print. LDK's channels, balances, peers, graph and
  tracked outputs are records of the fields that are printed. Shown: the payment listing prints one
  block per entry and determines key, amount and status of every entry; the printed totals are exact
  as long as they fit 64 bits.
\<close>

section \<open>Help\<close>

definition tab :: string where "tab = [CHR 0x09]"

definition show_help :: "string \<Rightarrow> string \<Rightarrow> outputs" where
  "show_help package_name package_version = map Print
     [newline @ ''VERSION:'',
      ''  '' @ package_name @ '' v'' @ package_version,
      newline @ ''USAGE:'',
      ''  Command [arguments]'',
      newline @ ''COMMANDS:'',
      ''  help'' @ tab @ ''Shows a list of commands.'',
      ''  quit'' @ tab @ ''Close the application.'',
      newline @ ''  Channels:'',
      ''      openchannel pubkey@[host:port] <amt_satoshis> [--public] [--with-anchors]'',
      ''      closechannel <channel_id> <peer_pubkey>'',
      ''      forceclosechannel <channel_id> <peer_pubkey>'',
      ''      listchannels'',
      newline @ ''  Peers:'',
      ''      connectpeer pubkey@host:port'',
      ''      disconnectpeer <peer_pubkey>'',
      ''      listpeers'',
      newline @ ''  Payments:'',
      ''      sendpayment <invoice|offer|human readable name> [<amount_msat>]'',
      ''      keysend <dest_pubkey> <amt_msats>'',
      ''      listpayments'',
      newline @ ''  Invoices:'',
      ''      getinvoice <amt_msats> <expiry_secs>'',
      ''      getoffer [<amt_msats>]'',
      newline @ ''  Other:'',
      ''      signmessage <message>'',
      ''      nodeinfo'',
      ''      listclaimablebalances'',
      ''      listsweeperoutputs'']"

section \<open>Balances and outputs\<close>

text \<open>The balances the printers look into; \<open>b_claimable\<close> and \<open>b_debug\<close> are LDK's for every kind. A channel
  balance carries the fees of its candidates and the index of the confirmed one.\<close>

datatype balance_kind =
  ClaimableOnChannelClose "u64 list" nat
| MaybeTimeoutClaimableHTLC u64 bool
| OtherBalance

record balance =
  b_kind :: balance_kind
  b_claimable :: u64
  b_debug :: string

definition sum_u64 :: "u64 list \<Rightarrow> u64" where
  "sum_u64 xs = foldl (+) 0 xs"

definition list_claimable_balances :: "balance list \<Rightarrow> outputs" where
  "list_claimable_balances balances =
     (if balances = [] then [Print ''No claimable balances.'']
      else
        [Print (''Claimable balances: '' @ show_nat (length balances) @ '' (total='' @
           show_nat (unat (sum_u64 (map b_claimable balances))) @ '' sats)''), PrintRaw ''[''] @
        concat (map (\<lambda>b.
          [Print [], Print (tab @ ''{''),
           Print (tab @ tab @ ''claimable_amount_satoshis: '' @ show_nat (unat (b_claimable b)) @ '',''),
           Print (tab @ tab @ ''details: '' @ b_debug b @ '',''),
           Print (tab @ ''},'')]) balances) @
        [Print '']''])"

datatype spendable_descriptor =
  StaticOutput string
| DelayedPaymentOutput string
| StaticPaymentOutput string

definition descriptor_kind_and_outpoint :: "spendable_descriptor \<Rightarrow> string \<times> string" where
  "descriptor_kind_and_outpoint d =
     (case d of
        StaticOutput outpoint \<Rightarrow> (''static_output'', outpoint)
      | DelayedPaymentOutput outpoint \<Rightarrow> (''delayed_payment_output'', outpoint)
      | StaticPaymentOutput outpoint \<Rightarrow> (''static_payment_output'', outpoint))"

datatype spend_status =
  PendingInitialBroadcast "u32 option"
| PendingFirstConfirmation u32
| PendingThresholdConfirmations u32 u32

definition output_spend_status_string :: "spend_status \<Rightarrow> string" where
  "output_spend_status_string st =
     (case st of
        PendingInitialBroadcast (Some height) \<Rightarrow>
          ''pending_initial_broadcast (delayed_until_height='' @ show_nat (unat height) @ '')''
      | PendingInitialBroadcast None \<Rightarrow> ''pending_initial_broadcast''
      | PendingFirstConfirmation h \<Rightarrow>
          ''pending_first_confirmation (latest_broadcast_height='' @ show_nat (unat h) @ '')''
      | PendingThresholdConfirmations h c \<Rightarrow>
          ''pending_threshold_confirmations (latest_broadcast_height='' @ show_nat (unat h) @
          '', confirmation_height='' @ show_nat (unat c) @ '')'')"

record tracked_output =
  to_descriptor :: spendable_descriptor
  to_channel :: "bytes option"
  to_status :: spend_status

definition list_sweeper_outputs :: "tracked_output list \<Rightarrow> outputs" where
  "list_sweeper_outputs outs =
     (if outs = [] then [Print ''No tracked spendable outputs.'']
      else
        [Print (''Tracked spendable outputs: '' @ show_nat (length outs)), PrintRaw ''[''] @
        concat (map (\<lambda>t.
          let (descriptor_kind, outpoint) = descriptor_kind_and_outpoint (to_descriptor t)
          in [Print [], Print (tab @ ''{''),
              Print (tab @ tab @ ''descriptor_type: '' @ descriptor_kind @ '',''),
              Print (tab @ tab @ ''outpoint: '' @ outpoint @ '',''),
              Print (tab @ tab @ ''channel_id: '' @ (case to_channel t of Some c \<Rightarrow> hex_str c | None \<Rightarrow> ''none'') @ '',''),
              Print (tab @ tab @ ''status: '' @ output_spend_status_string (to_status t) @ '',''),
              Print (tab @ ''},'')]) outs) @
        [Print '']''])"

section \<open>Node, peers and channels\<close>

record channel_view =
  cv_channel_id :: bytes
  cv_funding_txid :: "string option"
  cv_peer :: bytes
  cv_alias :: "string option"
  cv_short_channel_id :: "u64 option"
  cv_ready :: bool
  cv_value :: u64
  cv_outbound :: u64
  cv_inbound :: u64
  cv_usable :: bool
  cv_announced :: bool

definition close_fees :: "balance \<Rightarrow> u64" where
  "close_fees b = (case b_kind b of ClaimableOnChannelClose fees i \<Rightarrow> fees ! i | _ \<Rightarrow> 0)"

definition pending_outbound :: "balance \<Rightarrow> u64" where
  "pending_outbound b =
     (case b_kind b of MaybeTimeoutClaimableHTLC amount outbound_payment \<Rightarrow> if outbound_payment then amount else 0 | _ \<Rightarrow> 0)"

text \<open>Indexing past the candidates panics after the first lines; the second component tells.\<close>

definition node_info ::
  "bytes \<Rightarrow> channel_view list \<Rightarrow> balance list \<Rightarrow> nat \<Rightarrow> nat \<Rightarrow> nat \<Rightarrow> outputs \<times> bool" where
  "node_info node_id chans balances num_peers network_nodes network_channels =
     (let lines =
        [Print (tab @ ''{''),
         Print (tab @ tab @ '' node_pubkey: '' @ hex_str node_id),
         Print (tab @ tab @ '' num_channels: '' @ show_nat (length chans)),
         Print (tab @ tab @ '' num_usable_channels: '' @ show_nat (length (filter cv_usable chans))),
         Print (tab @ tab @ '' local_balance_sats: '' @ show_nat (unat (sum_u64 (map b_claimable balances))))]
      in if list_all (\<lambda>b. case b_kind b of ClaimableOnChannelClose fees i \<Rightarrow> i < length fees | _ \<Rightarrow> True) balances
         then (lines @
           [Print (tab @ tab @ '' eventual_close_fees_sats: '' @ show_nat (unat (sum_u64 (map close_fees balances)))),
            Print (tab @ tab @ '' pending_outbound_payments_sats: '' @ show_nat (unat (sum_u64 (map pending_outbound balances)))),
            Print (tab @ tab @ '' num_peers: '' @ show_nat num_peers),
            Print (tab @ tab @ '' network_nodes: '' @ show_nat network_nodes),
            Print (tab @ tab @ '' network_channels: '' @ show_nat network_channels),
            Print (tab @ ''},'')], False)
         else (lines, True))"

definition list_peers :: "bytes list \<Rightarrow> outputs" where
  "list_peers ps =
     Print (tab @ ''{'') # map (\<lambda>p. Print (tab @ tab @ '' pubkey: '' @ hex_str p)) ps @ [Print (tab @ ''},'')]"

definition show_flag :: "bool \<Rightarrow> string" where
  "show_flag b = (if b then ''true'' else ''false'')"

definition list_channels :: "channel_view list \<Rightarrow> outputs" where
  "list_channels chans =
     PrintRaw ''['' #
     concat (map (\<lambda>c.
       [Print [], Print (tab @ ''{''), Print (tab @ tab @ ''channel_id: '' @ hex_str (cv_channel_id c) @ '','')] @
       (case cv_funding_txid c of Some t \<Rightarrow> [Print (tab @ tab @ ''funding_txid: '' @ t @ '','')] | None \<Rightarrow> []) @
       [Print (tab @ tab @ ''peer_pubkey: '' @ hex_str (cv_peer c) @ '','')] @
       (case cv_alias c of Some a \<Rightarrow> [Print (tab @ tab @ ''peer_alias: '' @ a)] | None \<Rightarrow> []) @
       (case cv_short_channel_id c of Some i \<Rightarrow> [Print (tab @ tab @ ''short_channel_id: '' @ show_nat (unat i) @ '','')] | None \<Rightarrow> []) @
       [Print (tab @ tab @ ''is_channel_ready: '' @ show_flag (cv_ready c) @ '',''),
        Print (tab @ tab @ ''channel_value_satoshis: '' @ show_nat (unat (cv_value c)) @ '',''),
        Print (tab @ tab @ ''outbound_capacity_msat: '' @ show_nat (unat (cv_outbound c)) @ '','')] @
       (if cv_usable c
        then [Print (tab @ tab @ ''available_balance_for_send_msat: '' @ show_nat (unat (cv_outbound c)) @ '',''),
              Print (tab @ tab @ ''available_balance_for_recv_msat: '' @ show_nat (unat (cv_inbound c)) @ '','')]
        else []) @
       [Print (tab @ tab @ ''channel_can_send_payments: '' @ show_flag (cv_usable c) @ '',''),
        Print (tab @ tab @ ''public: '' @ show_flag (cv_announced c) @ '',''),
        Print (tab @ ''},'')]) chans) @
     [Print '']'']"

section \<open>Payments\<close>

definition status_name :: "htlc_status \<Rightarrow> string" where
  "status_name st = (case st of Pending \<Rightarrow> ''pending'' | Succeeded \<Rightarrow> ''succeeded'' | FailedStatus \<Rightarrow> ''failed'')"

definition payment_block :: "string \<Rightarrow> bytes \<times> payment_info \<Rightarrow> outputs" where
  "payment_block direction = (\<lambda>(payment_hash, payment_info).
     [Print [], Print (tab @ ''{''),
      Print (tab @ tab @ ''amount_millisatoshis: '' @ show_millisat (amt_msat payment_info) @ '',''),
      Print (tab @ tab @ ''payment_hash: '' @ hex_str payment_hash @ '',''),
      Print (tab @ tab @ ''htlc_direction: '' @ direction @ '',''),
      Print (tab @ tab @ ''htlc_status: '' @ status_name (status payment_info) @ '',''),
      Print (tab @ ''},'')])"

definition list_payments :: "payments \<Rightarrow> payments \<Rightarrow> outputs" where
  "list_payments inbound_payments outbound_payments =
     PrintRaw ''['' # concat (map (payment_block ''inbound'') inbound_payments) @
     concat (map (payment_block ''outbound'') outbound_payments) @ [Print '']'']"

section \<open>What a listing shows\<close>

text \<open>Two entries print the same block only when key, amount and status agree.\<close>

lemma status_name_inj: "status_name a = status_name b \<Longrightarrow> a = b"
  by (cases a; cases b) (simp_all add: status_name_def)

lemma sum_u64_exact:
  "sum_list (map unat xs) < 2 ^ 64 \<Longrightarrow> unat (sum_u64 xs) = sum_list (map unat xs)"
proof -
  have "unat (foldl (+) a xs) = (unat a + sum_list (map unat xs))" if "unat a + sum_list (map unat xs) < 2 ^ 64" for a :: u64
    using that by (induction xs arbitrary: a) (simp_all add: unat_word_ariths)
  from this [of 0] show "sum_list (map unat xs) < 2 ^ 64 \<Longrightarrow> unat (sum_u64 xs) = sum_list (map unat xs)"
    by (simp add: sum_u64_def)
qed

lemma hex_str_inj: "hex_str a = hex_str b \<Longrightarrow> a = b"
proof (induction a arbitrary: b)
  case Nil
  then show ?case by (cases b) (simp_all add: hex_str_def hex_byte_def)
next
  case (Cons x xs)
  then obtain y ys where b: "b = y # ys" by (cases b) (auto simp: hex_str_def hex_byte_def)
  have "length (hex_byte x) = length (hex_byte y)" by (simp add: hex_byte_def)
  with Cons.prems b have "hex_byte x = hex_byte y" "hex_str xs = hex_str ys" by (auto simp: hex_str_def)
  with Cons.IH b show ?case by (auto simp: hex_byte_inj)
qed

lemma show_nat_neq_unknown: "show_nat n \<noteq> ''unknown''"
proof
  assume "show_nat n = ''unknown''"
  then have "CHR ''u'' \<in> set (show_nat n)" by simp
  from show_nat_digits [OF this] obtain d where d: "d < 10" "CHR ''u'' = digit_char d" by blast
  then have "(of_char CHR ''u'' :: nat) = of_char (digit_char d)" by simp
  with d(1) show False by (simp add: digit_char_def)
qed

lemma show_millisat_inj: "show_millisat a = show_millisat b \<Longrightarrow> a = b"
proof -
  have n: "show_nat (unat x) = show_nat (unat y) \<Longrightarrow> x = y" for x y :: u64
    using injD [OF inj_show_nat] by (metis unsigned_word_eqI)
  assume "show_millisat a = show_millisat b"
  with show_nat_neq_unknown n show ?thesis
    by (auto simp: show_millisat_def simp del: show_nat.simps split: millisat_amount.splits option.splits)
qed

lemma payment_block_inj:
  "payment_block d (h, p) = payment_block d' (h', p') \<Longrightarrow>
    d = d' \<and> h = h' \<and> amt_msat p = amt_msat p' \<and> status p = status p'"
  by (auto simp: payment_block_def dest: hex_str_inj show_millisat_inj status_name_inj)

lemma length_payment_block: "length (payment_block d x) = 7"
  by (simp add: payment_block_def case_prod_beta)

lemma length_payment_blocks: "length (concat (map (payment_block d) ps)) = 7 * length ps"
  by (induction ps) (simp_all add: length_payment_block)

lemma payment_blocks_inj:
  "concat (map (payment_block d) ps) = concat (map (payment_block d) qs) \<Longrightarrow>
    map (\<lambda>(h, p). (h, amt_msat p, status p)) ps = map (\<lambda>(h, p). (h, amt_msat p, status p)) qs"
proof (induction ps arbitrary: qs)
  case Nil
  then have "7 * length qs = 0" using length_payment_blocks [of d qs] by (metis list.size(3) list.simps(8) concat.simps(1))
  then show ?case by simp
next
  case (Cons x ps)
  then have "7 * length qs = 7 * length (x # ps)" using length_payment_blocks [of d] by metis
  then obtain y qs' where qs: "qs = y # qs'" by (cases qs) auto
  have "length (payment_block d x) = length (payment_block d y)" by (simp add: length_payment_block)
  with Cons.prems qs have "payment_block d x = payment_block d y"
    and "concat (map (payment_block d) ps) = concat (map (payment_block d) qs')" by auto
  with Cons.IH [of qs'] qs payment_block_inj [of d "fst x" "snd x" d "fst y" "snd y"] show ?case
    by (simp add: case_prod_beta)
qed

lemma length_list_payments: "length (list_payments i out) = 2 + 7 * (length i + length out)"
  by (simp add: list_payments_def length_payment_blocks)

text \<open>Tables with as many inbound entries print the same listing only when key, amount and status of
  all their entries agree, in order.\<close>

lemma list_payments_inj:
  assumes "list_payments i out = list_payments i' out'" and "length i = length i'"
  shows "map (\<lambda>(h, p). (h, amt_msat p, status p)) i = map (\<lambda>(h, p). (h, amt_msat p, status p)) i' \<and>
    map (\<lambda>(h, p). (h, amt_msat p, status p)) out = map (\<lambda>(h, p). (h, amt_msat p, status p)) out'"
proof -
  from assms have "concat (map (payment_block ''inbound'') i) = concat (map (payment_block ''inbound'') i') \<and>
      concat (map (payment_block ''outbound'') out) = concat (map (payment_block ''outbound'') out')"
    by (simp add: list_payments_def length_payment_blocks)
  then show ?thesis by (blast dest: payment_blocks_inj)
qed

end
