(* ===== verification/Repl.thy ===== *)
theory Repl
  imports Display Peer_Net
begin

text \<open>
  \<^verbatim>\<open>src/cli/mod.rs\<close>: the command loop. The input is the list of the lines that standard input still
  holds, an element being a line or a read error and the end of the list the end of input. A command
  maps the payment tables and the rest of the input to new tables, a list of actions and whether to go
  on; \<open>None\<close> is a command that waits for a connection forever. LDK's answers, the parsers of invoices,
  offers and names, and the write faults are parameters, one \<open>cli_env\<close> per command. Shown: a session ends
  on every input as soon as its connections do, and keeps the payment tables reachable; what the flags
  of \<^verbatim>\<open>openchannel\<close> do; what a refused offer leaves behind.
\<close>

section \<open>Environment and actions\<close>

datatype offer_amount = OfferBitcoin u64 | OfferCurrency string

datatype ('b, 'sa, 'offer, 'hrn) cli_act =
  CPay "'b pay_act"
| CConnect bytes 'sa
| CDisconnect bytes
| COpen bytes u64 bool bool
| CClose bytes bytes
| CForceClose bytes bytes
| CPayOffer 'offer u64 bytes
| CPayHrn 'hrn u64 bytes "bytes list"
| CBuildOffer "u64 option"
| CShow string
| CSign bytes

text \<open>\<open>Panic\<close>: the process is aborted, as both build profiles ask for.\<close>

datatype flow = Next | Quit | Panic

text \<open>What the printing commands see of LDK.\<close>

record node_view =
  nv_package_name :: string
  nv_package_version :: string
  nv_node_id :: bytes
  nv_channels :: "channel_view list"
  nv_balances :: "balance list"
  nv_peers :: "bytes list"
  nv_graph_nodes :: nat
  nv_graph_channels :: nat
  nv_outputs :: "tracked_output list"

record ('b, 'sa, 'offer, 'hrn) cli_env =
  cx_from_slice :: "bytes \<Rightarrow> bytes option"
  cx_from_str :: "string \<Rightarrow> (bytes, string) result"
  cx_resolve :: "string \<Rightarrow> 'sa list option"
  cx_connected :: "bytes \<Rightarrow> bool"
  cx_conn :: conn_env
  cx_create :: "bytes \<Rightarrow> u64 \<Rightarrow> u64 \<Rightarrow> nat \<Rightarrow> open_config \<Rightarrow> (unit, string) result"
  cx_channels :: "bytes list"
  cx_close :: "bytes \<Rightarrow> bytes \<Rightarrow> (unit, string) result"
  cx_force :: "bytes \<Rightarrow> bytes \<Rightarrow> string \<Rightarrow> (unit, string) result"
  cx_parse_offer :: "string \<Rightarrow> 'offer option"
  cx_offer_amount :: "'offer \<Rightarrow> offer_amount option"
  cx_show_amount :: "offer_amount option \<Rightarrow> string"
  cx_parse_hrn :: "string \<Rightarrow> 'hrn option"
  cx_parse_invoice :: "string \<Rightarrow> (invoice, string) result"
  cx_encode :: "payments \<Rightarrow> 'b"
  cx_pay :: "invoice \<Rightarrow> bytes \<Rightarrow> u64 option \<Rightarrow> (unit, string) result"
  cx_spontaneous :: "bytes \<Rightarrow> bytes \<Rightarrow> bytes \<Rightarrow> u64 \<Rightarrow> (bytes, string) result"
  cx_pay_offer :: "'offer \<Rightarrow> u64 \<Rightarrow> bytes \<Rightarrow> (unit, string) result"
  cx_pay_hrn :: "'hrn \<Rightarrow> u64 \<Rightarrow> bytes \<Rightarrow> bytes list \<Rightarrow> bool"
  cx_sha256 :: "bytes \<Rightarrow> bytes"
  cx_random :: bytes
  cx_fault :: "string option"
  cx_fault2 :: "string option"
  cx_interfere :: "'b pay_state \<Rightarrow> 'b pay_state"
  cx_graph :: "((bool \<times> bool) option \<times> bytes option) list"
  cx_create_invoice :: "u64 \<Rightarrow> u32 \<Rightarrow> (invoice \<times> string, string) result"
  cx_offer_builder :: "(unit, string) result"
  cx_build_offer :: "u64 option \<Rightarrow> (string, string) result"
  cx_sign :: "bytes \<Rightarrow> string"
  cx_view :: node_view

definition c_out :: "outputs \<Rightarrow> ('b, 'sa, 'offer, 'hrn) cli_act list" where
  "c_out os = map (\<lambda>e. CPay (POut e)) os"

definition c_err :: "string \<Rightarrow> ('b, 'sa, 'offer, 'hrn) cli_act list" where
  "c_err msg = c_out (user_err msg)"

type_synonym input = "(string, string) result list"

type_synonym ('b, 'sa, 'offer, 'hrn) cli_res =
  "('b pay_state \<times> ('b, 'sa, 'offer, 'hrn) cli_act list \<times> input \<times> flow) option"

text \<open>A command that changes no table, reads no further line and goes on.\<close>

definition done_with ::
  "('b, 'sa, 'offer, 'hrn) cli_act list \<Rightarrow> input \<Rightarrow> 'b pay_state \<Rightarrow> ('b, 'sa, 'offer, 'hrn) cli_res" where
  "done_with acts input s = Some (s, acts, input, Next)"

section \<open>Channels and peers\<close>

fun parse_flags :: "bool \<times> bool \<Rightarrow> string list \<Rightarrow> (bool \<times> bool) \<times> outputs" where
  "parse_flags flags [] = (flags, [])"
| "parse_flags (announce, anchors) (w # ws) =
     (if w = ''--public'' \<or> w = ''--public=true'' then parse_flags (True, anchors) ws
      else if w = ''--public=false'' then parse_flags (False, anchors) ws
      else if w = ''--with-anchors'' \<or> w = ''--with-anchors=true'' then parse_flags (announce, True) ws
      else if w = ''--with-anchors=false'' then parse_flags (announce, False) ws
      else let (flags, out) = parse_flags (announce, anchors) ws
           in (flags, user_err (''invalid boolean flag format. Valid formats: '' @
                 ''`--option`, `--option=true` `--option=false`'') @ out))"

text \<open>The last part of \<^verbatim>\<open>openchannel\<close>, once the peer is connected.\<close>

definition open_with_flags ::
  "('b, 'sa, 'offer, 'hrn) cli_env \<Rightarrow> bytes \<Rightarrow> string \<Rightarrow> string list \<Rightarrow> ('b, 'sa, 'offer, 'hrn) cli_act list" where
  "open_with_flags env pubkey channel_value_sat words =
     (case parse_u64 channel_value_sat of
        Inl _ \<Rightarrow> c_err ''channel amount must be a number''
      | Inr chan_amt_sat \<Rightarrow>
          let ((announce_channel, with_anchors), out) = parse_flags (False, False) words;
              (res, out') = open_channel hex_str (cx_create env) pubkey chan_amt_sat announce_channel with_anchors
          in c_out out @ COpen pubkey chan_amt_sat announce_channel with_anchors # c_out out' @
             (case res of Inl e \<Rightarrow> c_err (show_cli_error hex_str e) | Inr _ \<Rightarrow> []))"

definition cmd_openchannel ::
  "('b, 'sa, 'offer, 'hrn) cli_env \<Rightarrow> string list \<Rightarrow> input \<Rightarrow> 'b pay_state \<Rightarrow> ('b, 'sa, 'offer, 'hrn) cli_res" where
  "cmd_openchannel env ws input s =
     (case ws of
        peer # amount # words \<Rightarrow>
          (let parts = split_char CHR ''@'' peer
           in case to_compressed_pubkey (cx_from_slice env) (hd parts) of
                None \<Rightarrow> done_with (c_err ''unable to parse given pubkey for node'') input s
              | Some pubkey \<Rightarrow>
                  if length parts = 1
                  then if \<not> cx_connected env pubkey
                       then done_with (c_out [Print ''ERROR: Peer address not provided and peer is not connected'']) input s
                       else done_with (open_with_flags env pubkey amount words) input s
                  else (case parse_peer_info (cx_from_slice env) (cx_resolve env) peer of
                          Inl e \<Rightarrow> done_with (c_err (show_cli_error hex_str e)) input s
                        | Inr (pk, peer_addr) \<Rightarrow>
                            (case connect_peer_if_necessary (cx_conn env) of
                               None \<Rightarrow> None
                             | Some (Inl e) \<Rightarrow>
                                 done_with (CConnect pk peer_addr # c_err (show_cli_error hex_str (cli_error_of e))) input s
                             | Some (Inr _) \<Rightarrow>
                                 done_with (CConnect pk peer_addr # open_with_flags env pubkey amount words) input s)))
      | _ \<Rightarrow> done_with (c_err (''openchannel has 2 required arguments: `openchannel pubkey@host:port channel_amt_satoshis` '' @
               ''[--public] [--with-anchors]'')) input s)"

definition cmd_connectpeer ::
  "('b, 'sa, 'offer, 'hrn) cli_env \<Rightarrow> string list \<Rightarrow> input \<Rightarrow> 'b pay_state \<Rightarrow> ('b, 'sa, 'offer, 'hrn) cli_res" where
  "cmd_connectpeer env ws input s =
     (case ws of
        [] \<Rightarrow> done_with (c_err ''connectpeer requires peer connection info: `connectpeer pubkey@host:port`'') input s
      | peer # _ \<Rightarrow>
          (case parse_peer_info (cx_from_slice env) (cx_resolve env) peer of
             Inl e \<Rightarrow> done_with (c_err (show_cli_error hex_str e)) input s
           | Inr (pk, peer_addr) \<Rightarrow>
               (case connect_peer_if_necessary (cx_conn env) of
                  None \<Rightarrow> None
                | Some (Inl e) \<Rightarrow>
                    done_with (CConnect pk peer_addr # c_err (show_cli_error hex_str (cli_error_of e))) input s
                | Some (Inr _) \<Rightarrow>
                    done_with (CConnect pk peer_addr # c_out [Print (''SUCCESS: connected to peer '' @ hex_str pk)]) input s)))"

definition cmd_disconnectpeer ::
  "('b, 'sa, 'offer, 'hrn) cli_env \<Rightarrow> string list \<Rightarrow> input \<Rightarrow> 'b pay_state \<Rightarrow> ('b, 'sa, 'offer, 'hrn) cli_res" where
  "cmd_disconnectpeer env ws input s =
     (case ws of
        [] \<Rightarrow> done_with (c_err ''disconnectpeer requires peer public key: `disconnectpeer <peer_pubkey>`'') input s
      | w # _ \<Rightarrow>
          (case cx_from_str env w of
             Inl e \<Rightarrow> done_with (c_err e) input s
           | Inr peer_pubkey \<Rightarrow>
               (case do_disconnect_peer (cx_connected env) (cx_channels env) peer_pubkey of
                  (Inr _, d) \<Rightarrow>
                    done_with (map CDisconnect (case d of None \<Rightarrow> [] | Some pk \<Rightarrow> [pk]) @
                      c_out [Print (''SUCCESS: disconnected from peer '' @ hex_str peer_pubkey)]) input s
                | (Inl e, _) \<Rightarrow> done_with (c_err (show_cli_error hex_str e)) input s)))"

text \<open>The arguments that the two closing commands share; \<open>name\<close> is the command.\<close>

definition parse_close_args ::
  "('b, 'sa, 'offer, 'hrn) cli_env \<Rightarrow> string \<Rightarrow> string list \<Rightarrow> (bytes \<times> bytes, string) result" where
  "parse_close_args env name ws =
     (case ws of
        [] \<Rightarrow> Inl (name @ '' requires a channel ID: `'' @ name @ '' <channel_id> <peer_pubkey>`'')
      | channel_id_str # ws' \<Rightarrow>
          (case to_vec channel_id_str of
             None \<Rightarrow> Inl (''couldn'' @ [CHR 0x27] @ ''t parse channel_id'')
           | Some v \<Rightarrow>
               if length v \<noteq> 32 then Inl (''couldn'' @ [CHR 0x27] @ ''t parse channel_id'')
               else (case ws' of
                       [] \<Rightarrow> Inl (name @ '' requires a peer pubkey: `'' @ name @ '' <channel_id> <peer_pubkey>`'')
                     | peer_pubkey_str # _ \<Rightarrow>
                         (case to_vec peer_pubkey_str of
                            None \<Rightarrow> Inl (''couldn'' @ [CHR 0x27] @ ''t parse peer_pubkey'')
                          | Some pv \<Rightarrow>
                              map_sum id (Pair v) (ok_or (''couldn'' @ [CHR 0x27] @ ''t parse peer_pubkey'') (cx_from_slice env pv))))))"

definition cmd_closechannel ::
  "('b, 'sa, 'offer, 'hrn) cli_env \<Rightarrow> string list \<Rightarrow> input \<Rightarrow> 'b pay_state \<Rightarrow> ('b, 'sa, 'offer, 'hrn) cli_res" where
  "cmd_closechannel env ws input s =
     (case parse_close_args env ''closechannel'' ws of
        Inl e \<Rightarrow> done_with (c_err e) input s
      | Inr (channel_id, peer_pubkey) \<Rightarrow>
          done_with (CClose channel_id peer_pubkey # c_out (close_channel (cx_close env) channel_id peer_pubkey)) input s)"

definition cmd_forceclosechannel ::
  "('b, 'sa, 'offer, 'hrn) cli_env \<Rightarrow> string list \<Rightarrow> input \<Rightarrow> 'b pay_state \<Rightarrow> ('b, 'sa, 'offer, 'hrn) cli_res" where
  "cmd_forceclosechannel env ws input s =
     (case parse_close_args env ''forceclosechannel'' ws of
        Inl e \<Rightarrow> done_with (c_err e) input s
      | Inr (channel_id, peer_pubkey) \<Rightarrow>
          done_with (CForceClose channel_id peer_pubkey # c_out (force_close_channel (cx_force env) channel_id peer_pubkey)) input s)"


section \<open>Payments\<close>

datatype confirmation = Confirmed | Declined | InputEnded

fun confirm_offer :: "u64 \<Rightarrow> input \<Rightarrow> outputs \<times> input \<times> confirmation" where
  "confirm_offer amt [] =
     (PrintRaw (''Paying offer for '' @ show_nat (unat amt) @ '' msat. Continue (Y/N)? >'') # user_err ''End of stdin'', [], InputEnded)"
| "confirm_offer amt (Inl e # rest) =
     (PrintRaw (''Paying offer for '' @ show_nat (unat amt) @ '' msat. Continue (Y/N)? >'') # user_err e, rest, InputEnded)"
| "confirm_offer amt (Inr line # rest) =
     (let q = PrintRaw (''Paying offer for '' @ show_nat (unat amt) @ '' msat. Continue (Y/N)? >'')
      in if take 1 line = ''Y'' then ([q], rest, Confirmed)
         else if take 1 line = ''N'' then ([q], rest, Declined)
         else let (out, rest', c) = confirm_offer amt rest in (q # out, rest', c))"

text \<open>The new pending entry of an offer or a name, and its write.\<close>

definition record_pending ::
  "('b, 'sa, 'offer, 'hrn) cli_env \<Rightarrow> bytes \<Rightarrow> u64 \<Rightarrow> 'b pay_state \<Rightarrow> 'b pay_state \<times> ('b, 'sa, 'offer, 'hrn) cli_act list" where
  "record_pending env payment_id msats s =
     (let s1 = s\<lparr>outbound := hm_insert payment_id
            \<lparr>preimage = None, secret = None, status = Pending, amt_msat = MillisatAmount (Some msats)\<rparr> (outbound s)\<rparr>
      in (persist_out (cx_encode env) (cx_fault env) s1,
          CPay (PWrite ''outbound_payments'' (cx_encode env (outbound s1))) #
          (case cx_fault env of None \<Rightarrow> [] | Some e \<Rightarrow> c_err (''failed to persist outbound payments: '' @ e))))"

text \<open>From the confirmation on, which is only asked for when the user gave no amount.\<close>

definition submit_offer ::
  "('b, 'sa, 'offer, 'hrn) cli_env \<Rightarrow> 'offer \<Rightarrow> u64 \<Rightarrow> u64 option \<Rightarrow> input \<Rightarrow> 'b pay_state \<Rightarrow> ('b, 'sa, 'offer, 'hrn) cli_res" where
  "submit_offer env offer msats user_provided_amt input s =
     (let payment_id = cx_random env;
          (out, input', c) = (if user_provided_amt = None then confirm_offer msats input else ([], input, Confirmed))
      in case c of
           InputEnded \<Rightarrow> Some (s, c_out out, input', Quit)
         | Declined \<Rightarrow> done_with (c_out out) input' s
         | Confirmed \<Rightarrow>
             let (s1, acts) = record_pending env payment_id msats s
             in if cx_fault env \<noteq> None then done_with (c_out out @ acts) input' s1
                else done_with (c_out out @ acts @ CPayOffer offer msats payment_id #
                  (case cx_pay_offer env offer msats payment_id of
                     Inr _ \<Rightarrow> c_out [Print ''Payment in flight'']
                   | Inl e \<Rightarrow> c_err (''Failed to pay: '' @ e))) input' s1)"

definition pay_offer ::
  "('b, 'sa, 'offer, 'hrn) cli_env \<Rightarrow> 'offer \<Rightarrow> u64 option \<Rightarrow> input \<Rightarrow> 'b pay_state \<Rightarrow> ('b, 'sa, 'offer, 'hrn) cli_res" where
  "pay_offer env offer user_provided_amt input s =
     (let amount = (case (cx_offer_amount env offer, user_provided_amt) of
                      (Some (OfferBitcoin a), _) \<Rightarrow> Some a
                    | (_, Some amt) \<Rightarrow> Some amt
                    | _ \<Rightarrow> None)
      in case amount of
           None \<Rightarrow> done_with (c_err (''Cannot process non-Bitcoin-denominated offer value '' @
                     cx_show_amount env (cx_offer_amount env offer))) input s
         | Some msats \<Rightarrow>
             if user_provided_amt \<noteq> None \<and> user_provided_amt \<noteq> Some msats
             then done_with (c_out [Print (''Amount didn'' @ [CHR 0x27] @ ''t match offer of '' @ show_nat (unat msats) @ ''msat'')]) input s
             else
               submit_offer env offer msats user_provided_amt input s)"

text \<open>A node of the graph: the two feature bits when it is announced, and its key when it parses. The
  loop ends once more than five resolvers are known.\<close>

fun collect_resolvers :: "((bool \<times> bool) option \<times> bytes option) list \<Rightarrow> bytes list \<Rightarrow> bytes list" where
  "collect_resolvers [] acc = acc"
| "collect_resolvers ((features, pk) # nodes) acc =
     (let acc' = (case (features, pk) of
                    (Some (supports_dns, supports_om), Some pubkey) \<Rightarrow>
                      if supports_dns \<and> supports_om then acc @ [pubkey] else acc
                  | _ \<Rightarrow> acc)
      in if length acc' > 5 then acc' else collect_resolvers nodes acc')"

definition pay_hrn ::
  "('b, 'sa, 'offer, 'hrn) cli_env \<Rightarrow> 'hrn \<Rightarrow> u64 option \<Rightarrow> input \<Rightarrow> 'b pay_state \<Rightarrow> ('b, 'sa, 'offer, 'hrn) cli_res" where
  "pay_hrn env hrn user_provided_amt input s =
     (let payment_id = cx_random env
      in case user_provided_amt of
           None \<Rightarrow> done_with (c_out [Print (''Can'' @ [CHR 0x27] @ ''t pay to a human-readable-name without an amount'')]) input s
         | Some msats \<Rightarrow>
             let dns_resolvers = collect_resolvers (cx_graph env) []
             in if dns_resolvers = []
                then done_with (c_out [Print ''Failed to find any DNS resolving nodes, check your network graph is synced'']) input s
                else
                  let (s1, acts) = record_pending env payment_id msats s
                  in if cx_fault env \<noteq> None then done_with acts input s1
                     else done_with (acts @ CPayHrn hrn msats payment_id dns_resolvers #
                       (if cx_pay_hrn env hrn msats payment_id dns_resolvers then c_out [Print ''Payment in flight'']
                        else c_err ''Failed to pay'')) input s1)"

definition pay_bolt11 ::
  "('b, 'sa, 'offer, 'hrn) cli_env \<Rightarrow> string \<Rightarrow> u64 option \<Rightarrow> input \<Rightarrow> 'b pay_state \<Rightarrow> ('b, 'sa, 'offer, 'hrn) cli_res" where
  "pay_bolt11 env invoice_str user_provided_amt input s =
     (case cx_parse_invoice env invoice_str of
        Inr iv \<Rightarrow>
          let (s1, acts) = send_payment (cx_encode env) (cx_pay env) (cx_fault env) (cx_fault2 env)
                (cx_interfere env) iv user_provided_amt s
          in done_with (map CPay acts) input s1
      | Inl e \<Rightarrow> done_with (c_err (''invalid invoice: '' @ e)) input s)"

definition cmd_sendpayment ::
  "('b, 'sa, 'offer, 'hrn) cli_env \<Rightarrow> string list \<Rightarrow> input \<Rightarrow> 'b pay_state \<Rightarrow> ('b, 'sa, 'offer, 'hrn) cli_res" where
  "cmd_sendpayment env ws input s =
     (case ws of
        [] \<Rightarrow> done_with (c_err ''sendpayment requires an invoice: `sendpayment <invoice> [amount_msat]`'') input s
      | invoice_str # ws' \<Rightarrow>
          (let amt = (case ws' of [] \<Rightarrow> Inr None | a # _ \<Rightarrow> map_sum id Some (parse_u64 a))
           in case amt of
                Inl e \<Rightarrow> done_with (c_err (''couldn'' @ [CHR 0x27] @ ''t parse amount_msat: '' @ show_int_error e)) input s
              | Inr user_provided_amt \<Rightarrow>
                  (case cx_parse_offer env invoice_str of
                     Some offer \<Rightarrow> pay_offer env offer user_provided_amt input s
                   | None \<Rightarrow>
                       (case cx_parse_hrn env invoice_str of
                          Some hrn \<Rightarrow> pay_hrn env hrn user_provided_amt input s
                        | None \<Rightarrow> pay_bolt11 env invoice_str user_provided_amt input s))))"

definition cmd_keysend ::
  "('b, 'sa, 'offer, 'hrn) cli_env \<Rightarrow> string list \<Rightarrow> input \<Rightarrow> 'b pay_state \<Rightarrow> ('b, 'sa, 'offer, 'hrn) cli_res" where
  "cmd_keysend env ws input s =
     (case ws of
        [] \<Rightarrow> done_with (c_err ''keysend requires a destination pubkey: `keysend <dest_pubkey> <amt_msat>`'') input s
      | dest # ws' \<Rightarrow>
          (case to_compressed_pubkey (cx_from_slice env) dest of
             None \<Rightarrow> done_with (c_err (''couldn'' @ [CHR 0x27] @ ''t parse destination pubkey'')) input s
           | Some dest_pubkey \<Rightarrow>
               (case ws' of
                  [] \<Rightarrow> done_with (c_err ''keysend requires an amount in millisatoshis: `keysend <dest_pubkey> <amt_msat>`'') input s
                | amt_msat_str # _ \<Rightarrow>
                    (case parse_u64 amt_msat_str of
                       Inl e \<Rightarrow> done_with (c_err (''couldn'' @ [CHR 0x27] @ ''t parse amount_msat: '' @ show_int_error e)) input s
                     | Inr msats \<Rightarrow>
                         let (s1, acts) = keysend (cx_encode env) (cx_sha256 env) (cx_spontaneous env) (cx_fault env)
                               (cx_fault2 env) (cx_interfere env) (cx_random env) dest_pubkey msats s
                         in done_with (map CPay acts) input s1))))"

definition cmd_getoffer ::
  "('b, 'sa, 'offer, 'hrn) cli_env \<Rightarrow> string list \<Rightarrow> input \<Rightarrow> 'b pay_state \<Rightarrow> ('b, 'sa, 'offer, 'hrn) cli_res" where
  "cmd_getoffer env ws input s =
     (case cx_offer_builder env of
        Inl e \<Rightarrow> done_with (c_err (''Failed to initiate offer building: '' @ e)) input s
      | Inr _ \<Rightarrow>
          (let build = (\<lambda>amt. CBuildOffer amt #
                 (case cx_build_offer env amt of
                    Inl e \<Rightarrow> c_err (''Failed to build offer: '' @ e)
                  | Inr offer \<Rightarrow> c_out [Print offer]))
           in case ws of
                [] \<Rightarrow> done_with (build None) input s
              | a # _ \<Rightarrow>
                  (case parse_u64 a of
                     Inl _ \<Rightarrow> done_with (c_out [Print ''ERROR: getoffer provided payment amount was not a number'']) input s
                   | Inr msats \<Rightarrow> done_with (build (Some msats)) input s)))"

definition cmd_getinvoice ::
  "('b, 'sa, 'offer, 'hrn) cli_env \<Rightarrow> string list \<Rightarrow> input \<Rightarrow> 'b pay_state \<Rightarrow> ('b, 'sa, 'offer, 'hrn) cli_res" where
  "cmd_getinvoice env ws input s =
     (case ws of
        [] \<Rightarrow> done_with (c_err ''getinvoice requires an amount in millisatoshis'') input s
      | amt_str # ws' \<Rightarrow>
          (case parse_u64 amt_str of
             Inl _ \<Rightarrow> done_with (c_err ''getinvoice provided payment amount was not a number'') input s
           | Inr msats \<Rightarrow>
               (case ws' of
                  [] \<Rightarrow> done_with (c_err ''getinvoice requires an expiry in seconds'') input s
                | expiry_secs_str # _ \<Rightarrow>
                    (case parse_u32 expiry_secs_str of
                       Inl _ \<Rightarrow> done_with (c_err ''getinvoice provided expiry was not a number'') input s
                     | Inr expiry_secs \<Rightarrow>
                         let (s1, acts) = get_invoice (cx_create_invoice env) msats expiry_secs s
                         in done_with (map CPay acts @ CPay (PWrite ''inbound_payments'' (cx_encode env (inbound s1))) #
                              (case cx_fault env of None \<Rightarrow> [] | Some e \<Rightarrow> c_err (''failed to persist inbound payments: '' @ e)))
                              input (persist_in (cx_encode env) (cx_fault env) s1)))))"

section \<open>The loop\<close>

definition cmd_signmessage ::
  "('b, 'sa, 'offer, 'hrn) cli_env \<Rightarrow> string \<Rightarrow> input \<Rightarrow> 'b pay_state \<Rightarrow> ('b, 'sa, 'offer, 'hrn) cli_res" where
  "cmd_signmessage env line input s =
     (let msg_startpos = length ''signmessage'' + 1
      in if length (trim line) \<le> msg_startpos then done_with (c_err ''signmsg requires a message'') input s
         else let msg = as_bytes (drop msg_startpos (trim line))
              in done_with (CSign msg # c_out [Print (cx_sign env msg)]) input s)"

text \<open>The commands that only print.\<close>

definition cmd_listpayments ::
  "input \<Rightarrow> 'b pay_state \<Rightarrow> ('b, 'sa, 'offer, 'hrn) cli_res" where
  "cmd_listpayments input s = done_with (CShow ''listpayments'' # c_out (list_payments (inbound s) (outbound s))) input s"

definition cmd_nodeinfo ::
  "('b, 'sa, 'offer, 'hrn) cli_env \<Rightarrow> input \<Rightarrow> 'b pay_state \<Rightarrow> ('b, 'sa, 'offer, 'hrn) cli_res" where
  "cmd_nodeinfo env input s =
     (let V = cx_view env;
          (out, panicked) = node_info (nv_node_id V) (nv_channels V) (nv_balances V) (length (nv_peers V))
            (nv_graph_nodes V) (nv_graph_channels V)
      in Some (s, CShow ''nodeinfo'' # c_out out, input, if panicked then Panic else Next))"

definition show_view :: "node_view \<Rightarrow> string \<Rightarrow> outputs option" where
  "show_view V word =
     (if word = ''help'' then Some (show_help (nv_package_name V) (nv_package_version V))
      else if word = ''listchannels'' then Some (list_channels (nv_channels V))
      else if word = ''listclaimablebalances'' then Some (list_claimable_balances (nv_balances V))
      else if word = ''listsweeperoutputs'' then Some (list_sweeper_outputs (nv_outputs V))
      else if word = ''listpeers'' then Some (list_peers (nv_peers V))
      else None)"

definition run_command ::
  "('b, 'sa, 'offer, 'hrn) cli_env \<Rightarrow> string \<Rightarrow> input \<Rightarrow> 'b pay_state \<Rightarrow> ('b, 'sa, 'offer, 'hrn) cli_res" where
  "run_command env line input s =
     (case split_whitespace line of
        [] \<Rightarrow> done_with [] input s
      | word # ws \<Rightarrow>
          if word = ''openchannel'' then cmd_openchannel env ws input s
          else if word = ''sendpayment'' then cmd_sendpayment env ws input s
          else if word = ''keysend'' then cmd_keysend env ws input s
          else if word = ''getoffer'' then cmd_getoffer env ws input s
          else if word = ''getinvoice'' then cmd_getinvoice env ws input s
          else if word = ''connectpeer'' then cmd_connectpeer env ws input s
          else if word = ''disconnectpeer'' then cmd_disconnectpeer env ws input s
          else if word = ''closechannel'' then cmd_closechannel env ws input s
          else if word = ''forceclosechannel'' then cmd_forceclosechannel env ws input s
          else if word = ''listpayments'' then cmd_listpayments input s
          else if word = ''nodeinfo'' then cmd_nodeinfo env input s
          else if word = ''signmessage'' then cmd_signmessage env line input s
          else if word = ''quit'' \<or> word = ''exit'' then Some (s, [], input, Quit)
          else case show_view (cx_view env) word of
                 Some out \<Rightarrow> done_with (CShow word # c_out out) input s
               | None \<Rightarrow> done_with (c_out [Print (''Unknown command. See `'' @ [CHR 0x22] @ ''help'' @ [CHR 0x22] @
                   '' for available commands.'')]) input s)"


section \<open>What every command keeps\<close>

definition env_ok :: "(payments \<Rightarrow> 'b) \<Rightarrow> ('b \<Rightarrow> payments option) \<Rightarrow> ('b, 'sa, 'offer, 'hrn) cli_env \<Rightarrow> bool" where
  "env_ok encode decode env \<longleftrightarrow>
     cx_encode env = encode \<and> (\<forall>s. pay_reachable encode decode s \<longrightarrow> pay_reachable encode decode (cx_interfere env s))"

text \<open>A command returns unless its connection attempt does not; it reads on in the input; and it keeps
  the tables reachable.\<close>

definition cmd_ok ::
  "(payments \<Rightarrow> 'b) \<Rightarrow> ('b \<Rightarrow> payments option) \<Rightarrow> ('b, 'sa, 'offer, 'hrn) cli_env \<Rightarrow> input \<Rightarrow> 'b pay_state \<Rightarrow>
    ('b, 'sa, 'offer, 'hrn) cli_res \<Rightarrow> bool" where
  "cmd_ok encode decode env input s r \<longleftrightarrow>
     (case r of
        None \<Rightarrow> connect_peer_if_necessary (cx_conn env) = None
      | Some (s', acts, input', fl) \<Rightarrow>
          length input' \<le> length input \<and>
          (env_ok encode decode env \<longrightarrow> pay_reachable encode decode s \<longrightarrow> pay_reachable encode decode s'))"

lemma cmd_ok_done [simp]: "cmd_ok encode decode env input s (done_with acts input s)"
  by (simp add: cmd_ok_def done_with_def)

lemma cmd_ok_done_step:
  "length input' \<le> length input \<Longrightarrow>
    (env_ok encode decode env \<Longrightarrow> pay_reachable encode decode s \<Longrightarrow> pay_reachable encode decode s') \<Longrightarrow>
    cmd_ok encode decode env input s (done_with acts input' s')"
  by (simp add: cmd_ok_def done_with_def)

lemma cmd_ok_hang [simp]:
  "connect_peer_if_necessary (cx_conn env) = None \<Longrightarrow> cmd_ok encode decode env input s None"
  by (simp add: cmd_ok_def)

lemma confirm_offer_input: "confirm_offer amt input = (out, input', c) \<Longrightarrow> length input' \<le> length input"
proof (induction amt input arbitrary: out rule: confirm_offer.induct)
  case (3 amt line rest)
  then show ?case
    by (cases "confirm_offer amt rest") (fastforce simp: Let_def split: if_splits)
qed auto

lemma begin_send_reachable:
  "pay_reachable encode decode s \<Longrightarrow> pay_reachable encode decode (persist_out encode fault (s\<lparr>outbound := hm_insert pid
    \<lparr>preimage = None, secret = sec, status = Pending, amt_msat = amt\<rparr> (outbound s)\<rparr>))"
  by (rule pay_reachable.step [OF _ pay_step.begin_send])

lemma fail_send_reachable:
  "pay_reachable encode decode s \<Longrightarrow> pay_reachable encode decode (fst (mark_failed encode fault pid s))"
  by (rule pay_reachable.step [OF _ pay_step.fail_send])

lemma record_pending_reachable:
  "env_ok encode decode env \<Longrightarrow> pay_reachable encode decode s \<Longrightarrow> pay_reachable encode decode (fst (record_pending env pid amt s))"
  by (simp add: record_pending_def Let_def env_ok_def begin_send_reachable)

lemma send_payment_reachable:
  assumes env: "env_ok encode decode env" and s: "pay_reachable encode decode s"
  shows "pay_reachable encode decode (fst (send_payment (cx_encode env) p w1 w2 (cx_interfere env) iv amt s))"
proof -
  note b = begin_send_reachable [OF s]
  have i: "pay_reachable encode decode (cx_interfere env t)" if "pay_reachable encode decode t" for t
    using env that by (simp add: env_ok_def)
  have e: "cx_encode env = encode" using env by (simp add: env_ok_def)
  show ?thesis
    unfolding send_payment_def e
    by (auto simp: Let_def case_prod_beta s b i fail_send_reachable split: option.split sum.split)
qed

lemma keysend_reachable:
  assumes env: "env_ok encode decode env" and s: "pay_reachable encode decode s"
  shows "pay_reachable encode decode (fst (keysend (cx_encode env) h p w1 w2 (cx_interfere env) rnd pk amt s))"
proof -
  note b = begin_send_reachable [OF s]
  have i: "pay_reachable encode decode (cx_interfere env t)" if "pay_reachable encode decode t" for t
    using env that by (simp add: env_ok_def)
  have e: "cx_encode env = encode" using env by (simp add: env_ok_def)
  show ?thesis
    unfolding keysend_def e
    by (auto simp: Let_def case_prod_beta s b i fail_send_reachable split: option.split sum.split)
qed

lemma submit_offer_ok: "cmd_ok encode decode env input s (submit_offer env offer m amt input s)"
proof -
  obtain out input' c where c: "(if amt = None then confirm_offer m input else ([], input, Confirmed)) = (out, input', c)"
    by (metis prod_cases3)
  then have "length input' \<le> length input" by (auto split: if_splits dest: confirm_offer_input)
  then show ?thesis
    unfolding submit_offer_def c using record_pending_reachable [of encode decode env s "cx_random env" m]
    by (auto simp: Let_def case_prod_beta split: confirmation.split intro!: cmd_ok_done_step) (simp_all add: cmd_ok_def)
qed

lemma pay_offer_ok: "cmd_ok encode decode env input s (pay_offer env offer amt input s)"
  unfolding pay_offer_def Let_def by (simp add: submit_offer_ok split: option.split)

lemma pay_hrn_ok: "cmd_ok encode decode env input s (pay_hrn env hrn amt input s)"
  using record_pending_reachable [of encode decode env s "cx_random env"]
  by (auto simp: pay_hrn_def Let_def case_prod_beta split: option.split intro!: cmd_ok_done_step)

lemma pay_bolt11_ok: "cmd_ok encode decode env input s (pay_bolt11 env w amt input s)"
  unfolding pay_bolt11_def
  by (auto simp: case_prod_beta send_payment_reachable split: sum.split intro!: cmd_ok_done_step)

lemma sendpayment_ok: "cmd_ok encode decode env input s (cmd_sendpayment env ws input s)"
  unfolding cmd_sendpayment_def Let_def
  by (simp add: pay_offer_ok pay_hrn_ok pay_bolt11_ok split: list.split sum.split option.split)

lemma keysend_ok: "cmd_ok encode decode env input s (cmd_keysend env ws input s)"
  unfolding cmd_keysend_def Let_def
  by (auto simp: case_prod_beta keysend_reachable split: list.split sum.split option.split intro!: cmd_ok_done_step)

lemma getinvoice_ok: "cmd_ok encode decode env input s (cmd_getinvoice env ws input s)"
proof -
  have "env_ok encode decode env \<Longrightarrow> pay_reachable encode decode s \<Longrightarrow>
      pay_reachable encode decode (persist_in (cx_encode env) f (fst (get_invoice c a e s)))" for f c a e
    by (auto simp: env_ok_def intro: pay_reachable.step [OF _ pay_step.save_in] pay_reachable.step [OF _ pay_step.invoiced])
  then show ?thesis
    unfolding cmd_getinvoice_def Let_def
    by (auto simp: case_prod_beta split: list.split sum.split intro!: cmd_ok_done_step)
qed

lemma stateless_commands_ok:
  "cmd_ok encode decode env input s (cmd_openchannel env ws input s)"
  "cmd_ok encode decode env input s (cmd_connectpeer env ws input s)"
  "cmd_ok encode decode env input s (cmd_disconnectpeer env ws input s)"
  "cmd_ok encode decode env input s (cmd_closechannel env ws input s)"
  "cmd_ok encode decode env input s (cmd_forceclosechannel env ws input s)"
  "cmd_ok encode decode env input s (cmd_getoffer env ws input s)"
  "cmd_ok encode decode env input s (cmd_signmessage env line input s)"
  by (simp_all add: cmd_openchannel_def cmd_connectpeer_def cmd_disconnectpeer_def cmd_closechannel_def
      cmd_forceclosechannel_def cmd_getoffer_def cmd_signmessage_def Let_def
      split: list.split sum.split option.split prod.split)

lemma printing_commands_ok:
  "cmd_ok encode decode env input s (cmd_listpayments input s)"
  "cmd_ok encode decode env input s (cmd_nodeinfo env input s)"
  by (simp_all add: cmd_listpayments_def cmd_nodeinfo_def cmd_ok_def Let_def case_prod_beta done_with_def)

text \<open>
  The contract that the loop relies on, for a command and for the dispatch itself. \<open>run\<close> takes the
  words or the line, the rest of the input and the tables.
\<close>

locale repl_command =
  fixes encode :: "payments \<Rightarrow> 'b" and decode :: "'b \<Rightarrow> payments option"
    and run :: "('b, 'sa, 'offer, 'hrn) cli_env \<Rightarrow> 'a \<Rightarrow> input \<Rightarrow> 'b pay_state \<Rightarrow> ('b, 'sa, 'offer, 'hrn) cli_res"
  assumes contract: "cmd_ok encode decode env input s (run env arg input s)"
begin

lemma reads_on: "run env arg input s = Some (s', acts, input', fl) \<Longrightarrow> length input' \<le> length input"
  using contract [of env input s arg] by (simp add: cmd_ok_def)

lemma returns:
  "connect_peer_if_necessary (cx_conn env) \<noteq> None \<Longrightarrow> \<exists>s' acts input' fl. run env arg input s = Some (s', acts, input', fl)"
  using contract [of env input s arg] by (cases "run env arg input s") (auto simp: cmd_ok_def)

lemma keeps_reachable:
  "run env arg input s = Some (s', acts, input', fl) \<Longrightarrow> env_ok encode decode env \<Longrightarrow>
    pay_reachable encode decode s \<Longrightarrow> pay_reachable encode decode s'"
  using contract [of env input s arg] by (simp add: cmd_ok_def)

end

interpretation openchannel: repl_command encode decode cmd_openchannel for encode decode
  by unfold_locales (rule stateless_commands_ok)

interpretation connectpeer: repl_command encode decode cmd_connectpeer for encode decode
  by unfold_locales (rule stateless_commands_ok)

interpretation disconnectpeer: repl_command encode decode cmd_disconnectpeer for encode decode
  by unfold_locales (rule stateless_commands_ok)

interpretation closechannel: repl_command encode decode cmd_closechannel for encode decode
  by unfold_locales (rule stateless_commands_ok)

interpretation forceclosechannel: repl_command encode decode cmd_forceclosechannel for encode decode
  by unfold_locales (rule stateless_commands_ok)

interpretation getoffer: repl_command encode decode cmd_getoffer for encode decode
  by unfold_locales (rule stateless_commands_ok)

interpretation signmessage: repl_command encode decode cmd_signmessage for encode decode
  by unfold_locales (rule stateless_commands_ok)

interpretation sendpayment: repl_command encode decode cmd_sendpayment for encode decode
  by unfold_locales (rule sendpayment_ok)

interpretation keysend_cmd: repl_command encode decode cmd_keysend for encode decode
  by unfold_locales (rule keysend_ok)

interpretation getinvoice: repl_command encode decode cmd_getinvoice for encode decode
  by unfold_locales (rule getinvoice_ok)

lemmas command_contracts =
  openchannel.contract connectpeer.contract disconnectpeer.contract closechannel.contract forceclosechannel.contract
  getoffer.contract signmessage.contract sendpayment.contract keysend_cmd.contract getinvoice.contract

interpretation dispatch: repl_command encode decode run_command for encode decode
proof
  show "cmd_ok encode decode env input s (run_command env line input s)" for env input s line
    unfolding run_command_def
    by (simp add: command_contracts printing_commands_ok split: list.split option.split) (simp add: cmd_ok_def)
qed

section \<open>The session\<close>

text \<open>\<open>envs k\<close> is the environment of the k-th line that is run as a command.\<close>

function repl ::
  "(nat \<Rightarrow> ('b, 'sa, 'offer, 'hrn) cli_env) \<Rightarrow> nat \<Rightarrow> input \<Rightarrow> 'b pay_state \<Rightarrow>
    ('b pay_state \<times> ('b, 'sa, 'offer, 'hrn) cli_act list) option" where
  "repl envs k [] s = Some (s, c_out (prompt @ user_err ''End of stdin''))"
| "repl envs k (Inl e # rest) s = Some (s, c_out (prompt @ user_err e))"
| "repl envs k (Inr line # rest) s =
     (case run_command (envs k) line rest s of
        None \<Rightarrow> None
      | Some (s', acts, rest', fl) \<Rightarrow>
          if fl \<noteq> Next then Some (s', c_out prompt @ acts)
          else map_option (\<lambda>(t, acts'). (t, c_out prompt @ acts @ acts')) (repl envs (Suc k) rest' s'))"
  by pat_completeness auto

termination repl
  by (relation "measure (\<lambda>(envs, k, input, s). length input)") (auto dest: dispatch.reads_on)

definition poll_for_user_input ::
  "(nat \<Rightarrow> ('b, 'sa, 'offer, 'hrn) cli_env) \<Rightarrow> bytes \<Rightarrow> input \<Rightarrow> 'b pay_state \<Rightarrow>
    ('b pay_state \<times> ('b, 'sa, 'offer, 'hrn) cli_act list) option" where
  "poll_for_user_input envs our_node_id input s =
     map_option (\<lambda>(t, acts). (t, c_out
       [Print (''LDK startup successful. Enter '' @ [CHR 0x22] @ ''help'' @ [CHR 0x22] @
          '' to view available commands. Press Ctrl-D to quit.''),
        Print ''LDK logs are available at <your-supplied-ldk-data-dir-path>/.ldk/logs'',
        Print (''Local Node ID is '' @ hex_str our_node_id @ ''.'')] @ acts)) (repl envs 0 input s)"

lemma repl_ok:
  assumes "\<forall>k. connect_peer_if_necessary (cx_conn (envs k)) \<noteq> None" and "\<forall>k. env_ok encode decode (envs k)"
    and "pay_reachable encode decode s"
  shows "\<exists>t acts. repl envs k input s = Some (t, acts) \<and> pay_reachable encode decode t"
  using assms
proof (induction envs k input s rule: repl.induct)
  case (3 envs k line rest s)
  from "3.prems"(1) obtain s' acts rest' fl where r: "run_command (envs k) line rest s = Some (s', acts, rest', fl)"
    using dispatch.returns by blast
  have s': "pay_reachable encode decode s'" using dispatch.keeps_reachable [OF r] "3.prems"(2,3) by blast
  show ?case
  proof (cases fl)
    case Next
    with "3.IH" [OF r refl refl refl] "3.prems" s' obtain t acts' where
      "repl envs (Suc k) rest' s' = Some (t, acts')" "pay_reachable encode decode t" by auto
    with r Next show ?thesis by simp
  qed (use r s' in simp_all)
qed simp_all

section \<open>Properties\<close>

text \<open>C15: a session ends on every input. Whatever lines are typed, a session whose connection attempts
  return ends, with an error, the end of the input or a panic at the latest, and the payment tables it leaves
  are reachable by the steps of the payment bookkeeping, so that their invariant holds.\<close>

theorem session_ends:
  assumes "\<forall>k. connect_peer_if_necessary (cx_conn (envs k)) \<noteq> None" and "\<forall>k. env_ok encode decode (envs k)"
    and "pay_reachable encode decode s" and "codec_ok encode decode"
  shows "case poll_for_user_input envs our_node_id input s of
      None \<Rightarrow> False
    | Some (t, acts) \<Rightarrow>
        pay_reachable encode decode t \<and> outbound_ok (outbound t) \<and> inbound_ok (inbound t)"
proof -
  from repl_ok [OF assms(1-3), of 0 input] obtain t acts where
    t: "repl envs 0 input s = Some (t, acts)" "pay_reachable encode decode t" by blast
  with pay_reachable_inv [OF assms(4) t(2)] show ?thesis by (simp add: poll_for_user_input_def pay_inv_def)
qed

definition demo_env :: "(payments, nat, nat, nat) cli_env" where
  "demo_env = \<lparr>cx_from_slice = Some, cx_from_str = (\<lambda>_. Inl ''bad key''), cx_resolve = (\<lambda>_. Some [1]), cx_connected = (\<lambda>_. True),
     cx_conn = \<lparr>ce_already = True, ce_outbound = False, ce_closed = (\<lambda>_. False), ce_known = (\<lambda>_. False)\<rparr>,
     cx_create = (\<lambda>_ _ _ _ _. Inr ()), cx_channels = [], cx_close = (\<lambda>_ _. Inr ()), cx_force = (\<lambda>_ _ _. Inr ()),
     cx_parse_offer = (\<lambda>w. if w = ''lno1'' then Some 1 else None), cx_offer_amount = (\<lambda>_. Some (OfferBitcoin 5)),
     cx_show_amount = (\<lambda>_. []), cx_parse_hrn = (\<lambda>_. None), cx_parse_invoice = (\<lambda>_. Inl ''bad''), cx_encode = id,
     cx_pay = (\<lambda>_ _ _. Inr ()), cx_spontaneous = (\<lambda>_ _ _ _. Inl ''no''), cx_pay_offer = (\<lambda>_ _ _. Inl ''no route''),
     cx_pay_hrn = (\<lambda>_ _ _ _. False), cx_sha256 = id, cx_random = [1, 2], cx_fault = None, cx_fault2 = None,
     cx_interfere = id, cx_graph = [], cx_create_invoice = (\<lambda>_ _. Inl ''no''), cx_offer_builder = Inr (),
     cx_build_offer = (\<lambda>_. Inr ''lno1''), cx_sign = (\<lambda>_. []), 
     cx_view = \<lparr>nv_package_name = ''ldk-sample'', nv_package_version = ''0.1.0'', nv_node_id = [2], nv_channels = [], nv_balances = [],
       nv_peers = [], nv_graph_nodes = 0, nv_graph_channels = 0, nv_outputs = []\<rparr>\<rparr>"

definition fresh_tables :: "payments pay_state" where
  "fresh_tables = \<lparr>inbound = hm_new, outbound = hm_new, disk_in = None, disk_out = None\<rparr>"

theorem session_ends_witness:
  "\<exists>t acts. poll_for_user_input (\<lambda>_. demo_env) [2] [Inr ''sendpayment lno1'', Inr ''maybe'', Inr ''Yes''] fresh_tables = Some (t, acts)"
proof -
  have c: "\<forall>k :: nat. connect_peer_if_necessary (cx_conn ((\<lambda>_. demo_env) k)) \<noteq> None"
    by (simp add: demo_env_def connect_peer_if_necessary_def)
  have e: "\<forall>k :: nat. env_ok id Some ((\<lambda>_. demo_env) k)" by (simp add: env_ok_def demo_env_def)
  have s: "pay_reachable id Some fresh_tables" by (simp add: fresh_tables_def pay_reachable.start)
  have k: "codec_ok id Some" by (simp add: codec_ok_def)
  from session_ends [OF c e s k, of "[2]" "[Inr ''sendpayment lno1'', Inr ''maybe'', Inr ''Yes'']"]
  show ?thesis by (auto split: option.splits)
qed

definition is_flag :: "string \<Rightarrow> bool" where
  "is_flag w = (w \<in> set [''--public'', ''--public=true'', ''--public=false'', ''--with-anchors'', ''--with-anchors=true'',
     ''--with-anchors=false''])"

definition opened :: "('b, 'sa, 'offer, 'hrn) cli_act list \<Rightarrow> (bytes \<times> u64 \<times> bool \<times> bool) list" where
  "opened acts = List.map_filter (\<lambda>a. case a of COpen pk amt p w \<Rightarrow> Some (pk, amt, p, w) | _ \<Rightarrow> None) acts"

lemma parse_flags_filter:
  "fst (parse_flags fl ws) = fst (parse_flags fl (filter is_flag ws)) \<and>
   length (log_records (snd (parse_flags fl ws))) = length (filter (\<lambda>w. \<not> is_flag w) ws)"
  by (induction ws arbitrary: fl) (auto simp: is_flag_def user_err_def Let_def case_prod_beta)

lemma opened_append [simp]: "opened (xs @ ys) = opened xs @ opened ys"
  by (induction xs) (auto simp: opened_def List.map_filter_simps split: option.split)

lemma opened_out [simp]: "opened (c_out os) = []" "opened (c_err m) = []"
  by (induction os) (simp_all add: c_err_def c_out_def opened_def List.map_filter_def)

lemma opened_Cons [simp]: "opened [] = []" "opened (COpen pk amt p w # as) = (pk, amt, p, w) # opened as"
  by (simp_all add: opened_def List.map_filter_simps)

text \<open>An unknown flag does not stop \<^verbatim>\<open>openchannel\<close>. However many words after the amount are not
  flags, the channel is opened all the same, exactly once, with the values that the remaining words
  give; each bad word only prints the complaint.\<close>

theorem openchannel_ignores_bad_flags:
  assumes "parse_u64 amount = Inr amt"
  shows "opened (open_with_flags env pubkey amount words) =
      (let (announce, anchors) = fst (parse_flags (False, False) (filter is_flag words)) in [(pubkey, amt, announce, anchors)]) \<and>
    length (log_records (snd (parse_flags (False, False) words))) = length (filter (\<lambda>w. \<not> is_flag w) words)"
  using parse_flags_filter [of "(False, False)" words] assms
  by (simp add: open_with_flags_def Let_def case_prod_beta split: sum.split)

theorem openchannel_ignores_bad_flags_witness:
  "opened (open_with_flags demo_env [2] (show_nat 100) [''--private'', ''--public'']) = [([2], 100, True, False)]"
proof -
  have p: "parse_u64 (show_nat 100) = Inr 100"
    using parse_uint_show_nat [of 100 "2 ^ 64 - 1"] unfolding parse_u64_def by (simp del: show_nat.simps)
  from openchannel_ignores_bad_flags [OF p, of demo_env "[2]" "[''--private'', ''--public'']"]
  show ?thesis by (simp add: is_flag_def)
qed

text \<open>A refused offer stays pending. When the user names the offer's amount and the channel manager
  refuses to pay it, the entry recorded and written before the attempt is left as a pending payment,
  in memory and in the file, unlike the entry of a refused invoice.\<close>

theorem refused_offer_stays_pending:
  assumes "cx_offer_amount env offer = Some (OfferBitcoin amt)" and "cx_fault env = None"
    and "cx_pay_offer env offer amt (cx_random env) = Inl e"
  shows "case pay_offer env offer (Some amt) input s of
      None \<Rightarrow> False
    | Some (t, acts, input', fl) \<Rightarrow>
        input' = input \<and> fl = Next \<and>
        map_option status (hm_get (outbound t) (cx_random env)) = Some Pending \<and>
        disk_out t = Some (cx_encode env (outbound t))"
  using assms
  by (simp add: pay_offer_def submit_offer_def record_pending_def persist_out_def done_with_def Let_def)

theorem refused_offer_stays_pending_witness:
  "case pay_offer demo_env 1 (Some 5) [] fresh_tables of
     None \<Rightarrow> False | Some (t, acts, input', fl) \<Rightarrow> map_option status (hm_get (outbound t) [1, 2]) = Some Pending"
proof -
  have "cx_offer_amount demo_env 1 = Some (OfferBitcoin 5)" "cx_fault demo_env = None"
    "cx_pay_offer demo_env 1 5 (cx_random demo_env) = Inl ''no route''" and r: "cx_random demo_env = [1, 2]"
    by (simp_all add: demo_env_def)
  from refused_offer_stays_pending [OF this(1-3), of "[]" fresh_tables] show ?thesis
    unfolding r by (simp split: option.splits prod.splits)
qed

end
