(* ===== verification/Config_Schema.thy ===== *)
theory Config_Schema
  imports Node_Config
begin

text \<open>
  A type system for the trees of \<^verbatim>\<open>config.toml\<close>: the declared shape of each struct of
  \<^verbatim>\<open>src/config.rs\<close> and \<^verbatim>\<open>src/dns_bootstrap/config.rs\<close>, field by field, and the relation between a tree
  and a type. Shown: decoding succeeds on exactly the trees of the declared type, so that a file
  that parses is refused by the decoder exactly when it is ill-typed.
\<close>

section \<open>Types\<close>

text \<open>A field is required, or an \<^verbatim>\<open>Option\<close>, which a table may leave out, or has a default, which an array may leave out too.\<close>

datatype presence = Required | Optional | Defaulted

datatype ty = TyString | TyBool | TyUint nat | TyVec ty | TyStruct "field list"
  and field = Key string presence ty

fun field_name :: "field \<Rightarrow> string" where
  "field_name (Key k p t) = k"

text \<open>A value of a struct type is a table of the declared keys, or an array of the values of its first fields.\<close>

fun has_type :: "toml \<Rightarrow> ty \<Rightarrow> bool" and has_field :: "table \<Rightarrow> field \<Rightarrow> bool" and
  has_elements :: "toml list \<Rightarrow> field list \<Rightarrow> bool" where
  "has_type v TyString = (case v of TStr s \<Rightarrow> True | _ \<Rightarrow> False)"
| "has_type v TyBool = (case v of TBool b \<Rightarrow> True | _ \<Rightarrow> False)"
| "has_type v (TyUint w) = (case v of TInt i \<Rightarrow> 0 \<le> i \<and> i < 2 ^ w | _ \<Rightarrow> False)"
| "has_type v (TyVec t) = (case v of TArr vs \<Rightarrow> list_all (\<lambda>x. has_type x t) vs | _ \<Rightarrow> False)"
| "has_type v (TyStruct fs) =
     (case v of
        TTbl tbl \<Rightarrow> list_all (\<lambda>(k, x). k \<in> set (map field_name fs)) tbl \<and> list_all (has_field tbl) fs
      | TArr vs \<Rightarrow> has_elements vs fs
      | _ \<Rightarrow> False)"
| "has_field tbl (Key k p t) = (case map_of tbl k of None \<Rightarrow> p \<noteq> Required | Some v \<Rightarrow> has_type v t)"
| "has_elements vs [] = True"
| "has_elements [] (Key k p t # fs) = (p = Defaulted \<and> has_elements [] fs)"
| "has_elements (v # vs) (Key k p t # fs) = (has_type v t \<and> has_elements vs fs)"

section \<open>The declared structs\<close>

definition bitcoind_ty :: ty where
  "bitcoind_ty = TyStruct
     [Key ''rpc_host'' Required TyString, Key ''rpc_port'' Required (TyUint 16),
      Key ''rpc_username'' Required TyString, Key ''rpc_password'' Required TyString]"

definition ldk_ty :: ty where
  "ldk_ty = TyStruct
     [Key ''peer_listening_port'' Defaulted (TyUint 16), Key ''announced_node_name'' Optional TyString,
      Key ''announced_listen_addr'' Defaulted (TyVec TyString)]"

definition rapid_gossip_sync_ty :: ty where
  "rapid_gossip_sync_ty = TyStruct
     [Key ''enabled'' Defaulted TyBool, Key ''url'' Optional TyString,
      Key ''interval_hours'' Defaulted (TyUint 64)]"

definition probing_ty :: ty where
  "probing_ty = TyStruct
     [Key ''interval_sec'' Required (TyUint 64), Key ''peers'' Required (TyVec TyString),
      Key ''amount_msats'' Required (TyVec (TyUint 64)), Key ''random_min_amount_msat'' Defaulted (TyUint 64),
      Key ''random_nodes_per_interval'' Defaulted (TyUint 64), Key ''timeout_sec'' Defaulted (TyUint 64),
      Key ''probe_delay_sec'' Defaulted (TyUint 64), Key ''peer_delay_sec'' Defaulted (TyUint 64)]"

definition dns_bootstrap_ty :: ty where
  "dns_bootstrap_ty = TyStruct
     [Key ''enabled'' Defaulted TyBool, Key ''seeds'' Defaulted (TyVec TyString),
      Key ''timeout_secs'' Defaulted (TyUint 64), Key ''num_peers'' Defaulted (TyUint 64),
      Key ''interval_secs'' Defaulted (TyUint 64)]"

definition node_config_ty :: ty where
  "node_config_ty = TyStruct
     [Key ''bitcoind'' Required bitcoind_ty, Key ''network'' Defaulted TyString,
      Key ''ldk'' Defaulted ldk_ty, Key ''rapid_gossip_sync'' Defaulted rapid_gossip_sync_ty,
      Key ''probing'' Optional probing_ty, Key ''dns_bootstrap'' Optional dns_bootstrap_ty]"

section \<open>Decoding and typing\<close>

text \<open>A decoder implements a type when it succeeds on exactly the trees of that type.\<close>

definition decodes_ty :: "(toml \<Rightarrow> ('t, de_error) result) \<Rightarrow> ty \<Rightarrow> bool" where
  "decodes_ty f t \<longleftrightarrow> (\<forall>v. is_ok (f v) = has_type v t)"

lemma decodes_tyD: "decodes_ty f t \<Longrightarrow> is_ok (f v) = has_type v t"
  by (simp add: decodes_ty_def)

lemma is_ok_and_then: "is_ok (and_then r f) \<longleftrightarrow> is_ok r \<and> is_ok (f (projr r))"
  by (cases r) simp_all

lemma is_ok_scalars:
  "is_ok (de_string v) = has_type v TyString"
  "is_ok (de_bool v) = has_type v TyBool"
  "is_ok (de_uint v :: ('a::len word, de_error) result) = has_type v (TyUint LENGTH('a))"
  by (cases v; simp)+

lemma decodes_string [simp]: "decodes_ty de_string TyString"
  and decodes_bool [simp]: "decodes_ty de_bool TyBool"
  and decodes_uint: "decodes_ty (de_uint :: toml \<Rightarrow> ('a::len word, de_error) result) (TyUint LENGTH('a))"
  unfolding decodes_ty_def by (rule allI, rule is_ok_scalars)+

lemma decodes_u16 [simp]: "decodes_ty (de_uint :: toml \<Rightarrow> (u16, de_error) result) (TyUint 16)"
  using decodes_uint [where 'a = 16] by simp

lemma decodes_u64 [simp]: "decodes_ty (de_uint :: toml \<Rightarrow> (u64, de_error) result) (TyUint 64)"
  using decodes_uint [where 'a = 64] by simp

lemma decodes_vec [simp]:
  assumes "decodes_ty f t"
  shows "decodes_ty (de_vec f) (TyVec t)"
proof -
  have "is_ok (de_all f vs) = list_all (\<lambda>x. has_type x t) vs" for vs
    by (induction vs) (simp_all add: is_ok_and_then decodes_tyD [OF assms])
  then have "is_ok (de_vec f v) = has_type v (TyVec t)" for v by (cases v) simp_all
  then show ?thesis by (simp add: decodes_ty_def)
qed

lemma is_ok_deny_unknown: "is_ok (deny_unknown ks tbl) \<longleftrightarrow> list_all (\<lambda>(k, x). k \<in> set ks) tbl"
  by (induction tbl) (auto split: if_splits)

text \<open>What a decoder of a struct asks of one field, wherever it reads it from.\<close>

fun field_ok :: "fields \<Rightarrow> field \<Rightarrow> bool" where
  "field_ok (ByKey tbl) fld = has_field tbl fld"
| "field_ok (ByPosition tbl) (Key k p t) = (case map_of tbl k of None \<Rightarrow> p = Defaulted | Some v \<Rightarrow> has_type v t)"

lemma field_ok_later:
  "k \<notin> field_name ` set fs \<Longrightarrow> list_all (field_ok (ByPosition ((k, v) # tbl))) fs = list_all (field_ok (ByPosition tbl)) fs"
proof (induction fs)
  case (Cons fld fs)
  then show ?case by (cases fld) auto
qed simp

lemma elements_ok:
  "distinct (map field_name fs) \<Longrightarrow> list_all (field_ok (ByPosition (zip (map field_name fs) vs))) fs = has_elements vs fs"
proof (induction vs fs rule: has_type_has_field_has_elements.induct(3)
    [where P = "\<lambda>v t. True" and Q = "\<lambda>tbl fld. True"])
  case (8 k p t fs)
  then show ?case by simp
next
  case (9 v vs k p t fs)
  then show ?case by (simp add: field_ok_later)
qed simp_all

lemma decodes_struct:
  assumes "ks = map field_name fs" "distinct (map field_name fs)" and "\<And>src. is_ok (f src) = list_all (field_ok src) fs"
  shows "decodes_ty (de_struct ks f) (TyStruct fs)"
proof -
  have "is_ok (de_struct ks f v) = has_type v (TyStruct fs)" for v
  proof (cases v)
    case (TTbl tbl)
    have "field_ok (ByKey tbl) = has_field tbl" by (rule ext) simp
    with TTbl show ?thesis by (simp add: assms(1,3) is_ok_and_then is_ok_deny_unknown)
  next
    case (TArr vs)
    then show ?thesis using elements_ok [OF assms(2), of vs] by (simp add: assms(1,3))
  qed simp_all
  then show ?thesis by (simp add: decodes_ty_def)
qed

lemma is_ok_fields:
  "decodes_ty f t \<Longrightarrow> is_ok (field_required k f src) = field_ok src (Key k Required t)"
  "decodes_ty f t \<Longrightarrow> is_ok (field_default k d f src) = field_ok src (Key k Defaulted t)"
  "decodes_ty f t \<Longrightarrow> is_ok (field_option k f src) = field_ok src (Key k Optional t)"
  by (cases src; simp add: field_required_def field_default_def field_option_def is_ok_and_then decodes_tyD split: option.split)+

lemma decodes_sections [simp]:
  "decodes_ty de_bitcoind bitcoind_ty" "decodes_ty de_ldk ldk_ty"
  "decodes_ty de_rapid_gossip_sync rapid_gossip_sync_ty" "decodes_ty de_raw_probing probing_ty"
  "decodes_ty de_dns_bootstrap dns_bootstrap_ty"
  unfolding de_bitcoind_def bitcoind_ty_def de_ldk_def ldk_ty_def de_rapid_gossip_sync_def rapid_gossip_sync_ty_def
    de_raw_probing_def probing_ty_def de_dns_bootstrap_def dns_bootstrap_ty_def
  by (rule decodes_struct, simp, simp, simp add: is_ok_and_then del: field_ok.simps, (intro conj_cong is_ok_fields; simp))+

lemma decodes_node_config: "decodes_ty de_node_config node_config_ty"
  unfolding de_node_config_def node_config_ty_def
  by (rule decodes_struct, simp, simp, simp add: is_ok_and_then del: field_ok.simps, (intro conj_cong is_ok_fields; simp))

section \<open>Properties\<close>

text \<open>C26: the files the decoder accepts. A file that can be read and whose text is TOML is refused with
  a parse error exactly when its tree does not have the declared type: a key that is not declared,
  a required key that is missing, or a value of the wrong type or out of its integer range, at any depth. A struct
  may be written as a table or as an array of its fields in order; an array must reach every field without a
  default, and what comes after the last field is not looked at.\<close>

theorem load_refuses_ill_typed:
  assumes "fs_exists env (dir @ ''/config.toml'')" and "fs_read env (dir @ ''/config.toml'') = Inr content"
    and "toml_parse env content = Inr tree"
  shows "(\<exists>msg. load env dir = Inl (ParseError msg)) \<longleftrightarrow> \<not> has_type tree node_config_ty"
proof (cases "de_node_config tree")
  case (Inl e)
  then show ?thesis
    using assms decodes_tyD [OF decodes_node_config, of tree] by (simp add: load_def)
next
  case (Inr c)
  have "validate (addr_from_str env) c \<noteq> Inl (ParseError msg)" for msg
    using validate_error [of "addr_from_str env" c] by auto
  with Inr show ?thesis
    using assms decodes_tyD [OF decodes_node_config, of tree] by (auto simp: load_def and_then_Inl_iff)
qed

theorem load_refuses_ill_typed_witness:
  "(\<exists>msg. load (demo_env\<lparr>toml_parse := \<lambda>_. Inr (TTbl [(''bitcoind'', demo_bitcoind), (''ldk'', TArr [TInt 9735])])\<rparr>)
      ''d/.ldk'' = Inl (ParseError msg)) \<and>
   \<not> (\<exists>msg. load (demo_env\<lparr>toml_parse := \<lambda>_. Inr (TTbl [(''bitcoind'', TArr [TStr ''h'', TInt 8332, TStr ''u'', TStr ''p''])])\<rparr>)
      ''d/.ldk'' = Inl (ParseError msg)) \<and>
   \<not> (\<exists>msg. load demo_env ''d/.ldk'' = Inl (ParseError msg))"
proof -
  let ?bad = "TTbl [(''bitcoind'', demo_bitcoind), (''ldk'', TArr [TInt 9735])]"
  let ?array = "TTbl [(''bitcoind'', TArr [TStr ''h'', TInt 8332, TStr ''u'', TStr ''p''])]"
  have "\<not> has_type ?bad node_config_ty" "has_type ?array node_config_ty" "has_type demo_tree node_config_ty"
    by (simp_all add: node_config_ty_def ldk_ty_def bitcoind_ty_def demo_tree_def)
  then show ?thesis
    using load_refuses_ill_typed [of "demo_env\<lparr>toml_parse := \<lambda>_. Inr ?bad\<rparr>" "''d/.ldk''" "[]" ?bad]
      load_refuses_ill_typed [of "demo_env\<lparr>toml_parse := \<lambda>_. Inr ?array\<rparr>" "''d/.ldk''" "[]" ?array]
      load_refuses_ill_typed [of demo_env "''d/.ldk''" "[]" demo_tree]
    by (simp add: demo_env_def)
qed

end
