(* ===== verification/Node_System.thy ===== *)
theory Node_System
  imports Node_Tasks Repl
begin

text \<open>
  The running node: the tasks that \<^verbatim>\<open>start_ldk\<close> spawns share the payment tables and the probe tracker,
  each behind a mutex, and interleave at their lock operations. One step of \<open>node_step\<close> is an event
  handled by the background processor (\<^verbatim>\<open>events/mod.rs\<close>), a command of the command loop (\<^verbatim>\<open>cli/mod.rs\<close>), a
  move of the probing task between two of its suspension points (\<^verbatim>\<open>run_probe_attempt\<close> of
  \<^verbatim>\<open>probing/runner.rs\<close>), the passing of time, or a restart of the process. Nothing panics while the
  tracker is locked, so its mutex is never poisoned.

  Shown: projected to the tracker, a run of the node is a run of \<open>probe_step\<close>; projected to the tables, it
  is a run of \<open>pay_step\<close>; there is one probe in flight at a time whose wake-up is never lost; a result
  that LDK delivers for it is reported, once; and the moves of the probing task are those of \<^verbatim>\<open>run_probe_attempt\<close>: an
  attempt carried out move by move reports what that function returns under some schedule (\<open>attempt_of_run\<close>).
\<close>

section \<open>The tasks and their steps\<close>

text \<open>Where the probing task stands: between probes; with a probe sent and not yet registered; waiting on its
  channel; given up and about to lock the tracker.\<close>

datatype probe_phase = NoProbe | ProbeSent payment_hash | AwaitingOutcome payment_hash chan | GivingUp payment_hash chan

record ('b, 'sf) node_sys =
  ns_shared :: "'b ev_state"
  ns_phase :: probe_phase
  ns_clock :: instant
  ns_next :: chan
  ns_log :: "chan_event list"
  ns_reports :: "'sf probe_completion list"

datatype ('j, 'b, 'tx, 'outs, 'bump, 'ga, 'sa, 'offer, 'hrn) node_label =
  Tick nat
| HandleEvent "('j, 'b, 'tx, 'outs) event_ctx" "('outs, 'bump, 'ga) ldk_event"
| RunCommand "('b, 'sa, 'offer, 'hrn) cli_env" string input
| SendProbe payment_hash
| RegisterProbe
| ReceiveOutcome
| ProbeElapsed
| MarkTimedOut nat
| Restart string load_io "bytes list"

definition fresh_node :: "'b pay_state \<Rightarrow> ('b, 'sf) node_sys" where
  "fresh_node p = \<lparr>ns_shared = \<lparr>es_pay = p, es_tracker = tracker_new\<rparr>, ns_phase = NoProbe, ns_clock = 0, ns_next = 0,
     ns_log = [], ns_reports = []\<rparr>"

text \<open>What the waiting task reports for what it finds on its channel.\<close>

fun report_of :: "payment_hash \<Rightarrow> chan_event \<Rightarrow> 'sf probe_completion" where
  "report_of h (Sent c OutcomeSuccess) = Success h"
| "report_of h (Sent c OutcomeFailed) = Failed h"
| "report_of h (TxDropped c) = Dropped h"

inductive node_step ::
  "(payments \<Rightarrow> 'b) \<Rightarrow> ('b \<Rightarrow> payments option) \<Rightarrow> ('b, 'sf) node_sys \<Rightarrow>
    ('j, 'b, 'tx, 'outs, 'bump, 'ga, 'sa, 'offer, 'hrn) node_label \<Rightarrow> ('b, 'sf) node_sys \<Rightarrow> bool"
  for encode decode where
  tick: "node_step encode decode s (Tick d) (s\<lparr>ns_clock := ns_clock s + d\<rparr>)"
| event: "ec_encode C = encode \<Longrightarrow> ec_now C = ns_clock s \<Longrightarrow> ec_tracker_ok C \<Longrightarrow>
    handle_ldk_events C event (ns_shared s) = (shared, acts) \<Longrightarrow>
    node_step encode decode s (HandleEvent C event) (s\<lparr>ns_shared := shared, ns_log := ns_log s @ chan_events acts\<rparr>)"
| command: "env_ok encode decode env \<Longrightarrow>
    run_command env line input (es_pay (ns_shared s)) = Some (pay, acts, input', fl) \<Longrightarrow>
    node_step encode decode s (RunCommand env line input) (s\<lparr>ns_shared := (ns_shared s)\<lparr>es_pay := pay\<rparr>\<rparr>)"
| send: "ns_phase s = NoProbe \<Longrightarrow> node_step encode decode s (SendProbe h) (s\<lparr>ns_phase := ProbeSent h\<rparr>)"
| register: "ns_phase s = ProbeSent h \<Longrightarrow>
    register_probe (ns_clock s) (ns_next s) h (es_tracker (ns_shared s)) = (t, evs) \<Longrightarrow>
    node_step encode decode s RegisterProbe
      (s\<lparr>ns_shared := (ns_shared s)\<lparr>es_tracker := t\<rparr>, ns_phase := AwaitingOutcome h (ns_next s), ns_next := Suc (ns_next s),
         ns_log := ns_log s @ evs\<rparr>)"
| receive: "ns_phase s = AwaitingOutcome h c \<Longrightarrow> find (\<lambda>e. chan_of e = c) (ns_log s) = Some e \<Longrightarrow>
    node_step encode decode s ReceiveOutcome (s\<lparr>ns_phase := NoProbe, ns_reports := ns_reports s @ [report_of h e]\<rparr>)"
| elapsed: "ns_phase s = AwaitingOutcome h c \<Longrightarrow> find (\<lambda>e. chan_of e = c) (ns_log s) = None \<Longrightarrow>
    node_step encode decode s ProbeElapsed (s\<lparr>ns_phase := GivingUp h c\<rparr>)"
| mark: "ns_phase s = GivingUp h c \<Longrightarrow>
    mark_timed_out (ns_clock s) (ns_clock s + d) h (es_tracker (ns_shared s)) = (t, evs) \<Longrightarrow>
    node_step encode decode s (MarkTimedOut d)
      (s\<lparr>ns_shared := (ns_shared s)\<lparr>es_tracker := t\<rparr>, ns_phase := NoProbe, ns_clock := ns_clock s + d,
         ns_log := ns_log s @ evs, ns_reports := ns_reports s @ [Timeout h]\<rparr>)"
| restart: "load_payments encode decode dir fault recent (es_pay (ns_shared s)) = (Some p, out) \<Longrightarrow>
    node_step encode decode s (Restart dir fault recent) (fresh_node p)"

inductive node_run ::
  "(payments \<Rightarrow> 'b) \<Rightarrow> ('b \<Rightarrow> payments option) \<Rightarrow> ('b, 'sf) node_sys \<Rightarrow>
    ('j, 'b, 'tx, 'outs, 'bump, 'ga, 'sa, 'offer, 'hrn) node_label list \<Rightarrow> ('b, 'sf) node_sys \<Rightarrow> bool"
  for encode decode where
  nil: "node_run encode decode s [] s"
| snoc: "node_run encode decode s ls t \<Longrightarrow> node_step encode decode t l u \<Longrightarrow> node_run encode decode s (ls @ [l]) u"

definition node_start :: "('b, 'sf) node_sys" where
  "node_start = fresh_node \<lparr>inbound = hm_new, outbound = hm_new, disk_in = None, disk_out = None\<rparr>"

inductive_cases node_stepE: "node_step encode decode s l s'"

section \<open>Projections\<close>

text \<open>What the run looks like to the tracker: the state of \<open>Probe_Tracker\<close>'s interleavings.\<close>

definition probe_view :: "('b, 'sf) node_sys \<Rightarrow> probe_sys" where
  "probe_view s = \<lparr>sys_tracker = es_tracker (ns_shared s), sys_clock = ns_clock s, sys_next = ns_next s, sys_log = ns_log s\<rparr>"

lemma probe_view_sel [simp]:
  "sys_tracker (probe_view s) = es_tracker (ns_shared s)" "sys_clock (probe_view s) = ns_clock s"
  "sys_next (probe_view s) = ns_next s" "sys_log (probe_view s) = ns_log s"
  by (simp_all add: probe_view_def)

lemma fresh_node_sel [simp]:
  "ns_shared (fresh_node p) = \<lparr>es_pay = p, es_tracker = tracker_new\<rparr>" "ns_phase (fresh_node p) = NoProbe"
  "ns_reports (fresh_node p) = []" "ns_log (fresh_node p) = []" "probe_view (fresh_node p) = sys_init"
  by (simp_all add: fresh_node_def probe_view_def sys_init_def)

text \<open>An event is at most one completion of a probe.\<close>

fun outcome_event :: "('outs, 'bump, 'ga) ldk_event \<Rightarrow> (payment_hash \<times> probe_outcome) option" where
  "outcome_event (ProbeSuccessful h) = Some (h, OutcomeSuccess)"
| "outcome_event (ProbeFailed h) = Some (h, OutcomeFailed)"
| "outcome_event _ = None"

lemma tracker_part_outcome:
  "ec_tracker_ok C \<Longrightarrow>
    tracker_part (C, event) = (case outcome_event event of None \<Rightarrow> [] | Some (h, r) \<Rightarrow> [(ec_now C, h, r)])"
  by (cases event) (simp_all add: tracker_part_def)

lemma event_tracker_cases:
  assumes "handle_ldk_events C event s = (s', acts)" "ec_tracker_ok C"
  obtains (other) "es_tracker s' = es_tracker s" "chan_events acts = []"
  | (outcome) h r where "outcome_event event = Some (h, r)"
      "complete_probe (ec_now C) h r (es_tracker s) = (es_tracker s', chan_events acts)"
proof (cases "outcome_event event")
  case None
  then show ?thesis
    using handle_event_parts [of C event s] assms other by (simp add: tracker_part_outcome)
next
  case (Some p)
  obtain h r where "p = (h, r)" by (cases p)
  with Some have "outcome_event event = Some (h, r)" by simp
  with handle_event_parts [of C event s] assms outcome [of h r] show ?thesis
    by (cases "complete_probe (ec_now C) h r (es_tracker s)")
      (simp add: tracker_part_outcome other_calls_single del: other_calls.simps)
qed

lemma event_pay: "handle_ldk_events C event s = (s', acts) \<Longrightarrow> es_pay s' = pay_part (C, event) (es_pay s)"
  using handle_event_parts [of C event s] by simp

lemma step_refines_tracker:
  assumes "node_step encode decode s l s'"
  shows "probe_view s' = probe_view s \<or> probe_step (probe_view s) (probe_view s') \<or> probe_view s' = sys_init"
  using assms
proof (induction rule: node_step.induct)
  case (tick s d)
  then show ?case using probe_step.tick [of "probe_view s" d] by (simp add: probe_view_def)
next
  case (event C s ev shared acts)
  from event(4,3) show ?case
  proof (cases rule: event_tracker_cases)
    case (outcome h r)
    then have "complete_probe (sys_clock (probe_view s)) h r (sys_tracker (probe_view s)) = (es_tracker shared, chan_events acts)"
      using event(2) by simp
    from probe_step.complete [OF this] show ?thesis by (simp add: probe_view_def)
  qed (simp add: probe_view_def)
next
  case (register s h t evs)
  then have "register_probe (sys_clock (probe_view s)) (sys_next (probe_view s)) h (sys_tracker (probe_view s)) = (t, evs)" by simp
  from probe_step.register [OF this] show ?case by (simp add: probe_view_def)
next
  case (mark s h c d t evs)
  then have "mark_timed_out (sys_clock (probe_view s)) (sys_clock (probe_view s) + d) h (sys_tracker (probe_view s)) = (t, evs)" by simp
  from probe_step.timeout [OF this] show ?case by (simp add: probe_view_def)
qed (simp_all add: probe_view_def sys_init_def fresh_node_def)

lemma step_refines_tables:
  assumes "node_step encode decode s l s'" "pay_reachable encode decode (es_pay (ns_shared s))"
  shows "pay_reachable encode decode (es_pay (ns_shared s'))"
  using assms
proof (induction rule: node_step.induct)
  case (event C s ev shared acts)
  then show ?case using pay_part_reachable [of encode decode _ C ev] by (simp add: event_pay)
next
  case (command env line input s pay acts input' fl)
  then show ?case using dispatch.keeps_reachable by (simp, blast)
next
  case (restart dir fault recent s p out)
  then show ?case by (auto intro: pay_reachable.step pay_step.restart)
qed simp_all

section \<open>The invariant\<close>

text \<open>The channel that the probing task owns, under the hash of its probe.\<close>

fun owned :: "probe_phase \<Rightarrow> (payment_hash \<times> chan) option" where
  "owned (AwaitingOutcome h c) = Some (h, c)"
| "owned (GivingUp h c) = Some (h, c)"
| "owned _ = None"

definition wakeable :: "probe_phase \<Rightarrow> probe_tracker \<Rightarrow> chan_event list \<Rightarrow> bool" where
  "wakeable p t evs = (case p of AwaitingOutcome h c \<Rightarrow> slot_of t h = Waiting c \<or> (\<exists>r. Sent c r \<in> set evs) | _ \<Rightarrow> True)"

text \<open>LDK said of the probe with this hash, in this run, that it ended so.\<close>

definition told ::
  "('j, 'b, 'tx, 'outs, 'bump, 'ga, 'sa, 'offer, 'hrn) node_label list \<Rightarrow> payment_hash \<Rightarrow> probe_outcome \<Rightarrow> bool" where
  "told ls h r \<longleftrightarrow> (\<exists>C event. HandleEvent C event \<in> set ls \<and> outcome_event event = Some (h, r))"

fun truthful ::
  "('j, 'b, 'tx, 'outs, 'bump, 'ga, 'sa, 'offer, 'hrn) node_label list \<Rightarrow> 'sf probe_completion \<Rightarrow> bool" where
  "truthful ls (Success h) = told ls h OutcomeSuccess"
| "truthful ls (Failed h) = told ls h OutcomeFailed"
| "truthful ls (Timeout h) = True"
| "truthful ls (Dropped h) = False"
| "truthful ls (SendError e) = True"

definition messages_told ::
  "('j, 'b, 'tx, 'outs, 'bump, 'ga, 'sa, 'offer, 'hrn) node_label list \<Rightarrow> probe_phase \<Rightarrow> chan_event list \<Rightarrow> bool" where
  "messages_told ls p evs =
     (case p of AwaitingOutcome h c \<Rightarrow> (\<forall>r. Sent c r \<in> set evs \<longrightarrow> told ls h r) | _ \<Rightarrow> True)"

definition node_inv ::
  "(payments \<Rightarrow> 'b) \<Rightarrow> ('b \<Rightarrow> payments option) \<Rightarrow>
    ('j, 'b, 'tx, 'outs, 'bump, 'ga, 'sa, 'offer, 'hrn) node_label list \<Rightarrow> ('b, 'sf) node_sys \<Rightarrow> bool" where
  "node_inv encode decode ls s \<longleftrightarrow>
     pay_reachable encode decode (es_pay (ns_shared s)) \<and> probe_reachable (probe_view s) \<and>
     (\<forall>h c. slot_of (es_tracker (ns_shared s)) h = Waiting c \<longrightarrow> owned (ns_phase s) = Some (h, c)) \<and>
     (\<forall>h r. slot_of (es_tracker (ns_shared s)) h = Buffered r \<longrightarrow> told ls h r) \<and>
     wakeable (ns_phase s) (es_tracker (ns_shared s)) (ns_log s) \<and>
     messages_told ls (ns_phase s) (ns_log s) \<and> list_all (truthful ls) (ns_reports s)"

lemma told_mono: "told ls h r \<Longrightarrow> set ls \<subseteq> set ls' \<Longrightarrow> told ls' h r"
  by (auto simp: told_def)

lemma truthful_mono: "truthful ls c \<Longrightarrow> set ls \<subseteq> set ls' \<Longrightarrow> truthful ls' c"
  by (cases c) (auto intro: told_mono)

lemma node_inv_mono: "node_inv encode decode ls s \<Longrightarrow> set ls \<subseteq> set ls' \<Longrightarrow> node_inv encode decode ls' s"
  using told_mono [of ls _ _ ls']
  by (auto simp: node_inv_def messages_told_def list_all_iff dest: truthful_mono [of ls _ ls']
      split: probe_phase.splits)

lemma node_inv_fresh: "pay_reachable encode decode p \<Longrightarrow> node_inv encode decode ls (fresh_node p)"
  by (simp add: node_inv_def wakeable_def messages_told_def probe_reachable.start)

lemma node_inv_tracker:
  assumes "node_inv encode decode ls s"
  shows "probe_inv (probe_view s)" "tracker_wf (es_tracker (ns_shared s))"
  using probe_reachable_inv [of "probe_view s"] assms by (simp_all add: node_inv_def probe_inv_def)

lemma node_invD:
  assumes "node_inv encode decode ls s"
  shows "slot_of (es_tracker (ns_shared s)) h = Waiting c \<Longrightarrow> owned (ns_phase s) = Some (h, c)"
    and "slot_of (es_tracker (ns_shared s)) h = Buffered r \<Longrightarrow> told ls h r"
    and "wakeable (ns_phase s) (es_tracker (ns_shared s)) (ns_log s)" "messages_told ls (ns_phase s) (ns_log s)"
    and "list_all (truthful ls) (ns_reports s)"
  using assms unfolding node_inv_def by blast+

lemma wakeable_append:
  assumes "wakeable p t evs" "\<And>h c. slot_of t h = Waiting c \<Longrightarrow> slot_of t' h = Waiting c \<or> (\<exists>r. Sent c r \<in> set evs')"
  shows "wakeable p t' (evs @ evs')"
  using assms(1) assms(2) by (cases p) (simp_all add: wakeable_def, blast)

lemma messages_told_append:
  "messages_told ls p evs \<Longrightarrow> (\<And>h c r. p = AwaitingOutcome h c \<Longrightarrow> Sent c r \<in> set evs' \<Longrightarrow> told ls h r) \<Longrightarrow>
    messages_told ls p (evs @ evs')"
  by (cases p) (auto simp: messages_told_def)

text \<open>What a call means for the slots that wait or hold a result, and for the messages it sends.\<close>

context rendezvous
begin

lemma buffered_prune_iff: "wf t \<Longrightarrow> slot_at (prune now t) h = Buffered r \<longleftrightarrow> slot_at t h = Buffered r"
  using prune_slot [of t now h] by auto

lemma complete_effect:
  assumes "wf t" "complete now h r t = (t', evs)"
  shows "slot_at t' k = Waiting c \<Longrightarrow> slot_at t k = Waiting c"
    and "slot_at t k = Waiting c \<Longrightarrow> slot_at t' k = Waiting c \<or> Sent c r \<in> set evs"
    and "slot_at t' k = Buffered q \<Longrightarrow> slot_at t k = Buffered q \<or> k = h \<and> q = r"
    and "Sent c q \<in> set evs \<Longrightarrow> q = r \<and> slot_at t h = Waiting c"
proof -
  let ?u = "slot_at (prune now t)"
  have t': "slot_at t' = ?u(h := fst (slot_complete r (?u h)))" and evs: "evs = snd (slot_complete r (?u h))"
    using complete_slot [OF assms(1), of now h r] complete_events [OF assms(1), of now h r] assms(2) by simp_all
  note w = waiting_prune_iff [OF assms(1), of now] and b = buffered_prune_iff [OF assms(1), of now]
  show "slot_at t' k = Waiting c \<Longrightarrow> slot_at t k = Waiting c"
    using w [of k c] by (cases "?u h") (auto simp: t' split: if_splits)
  show "slot_at t k = Waiting c \<Longrightarrow> slot_at t' k = Waiting c \<or> Sent c r \<in> set evs"
    using w [of k c] by (cases "k = h") (auto simp: t' evs)
  show "slot_at t' k = Buffered q \<Longrightarrow> slot_at t k = Buffered q \<or> k = h \<and> q = r"
    using b [of k q] by (cases "?u h") (auto simp: t' split: if_splits)
  show "Sent c q \<in> set evs \<Longrightarrow> q = r \<and> slot_at t h = Waiting c"
    using w [of h c] by (cases "?u h") (auto simp: evs)
qed

lemma complete_buffers:
  assumes "wf t" "complete now h r t = (t', evs)"
  shows "slot_at t h \<in> {Idle} \<union> range Buffered \<Longrightarrow> slot_at t' h = Buffered r"
    and "slot_at t k = Buffered q \<Longrightarrow> \<exists>q'. slot_at t' k = Buffered q'"
    and "slot_at t h = Waiting c \<Longrightarrow> Sent c r \<in> set evs"
proof -
  have t': "slot_at t' = (slot_at (prune now t))(h := fst (slot_complete r (slot_at (prune now t) h)))"
    using complete_slot [OF assms(1), of now h r] assms(2) by simp
  show "slot_at t h \<in> {Idle} \<union> range Buffered \<Longrightarrow> slot_at t' h = Buffered r"
    using prune_keeps [OF assms(1), of h] by (auto simp: t')
  show "slot_at t k = Buffered q \<Longrightarrow> \<exists>q'. slot_at t' k = Buffered q'"
    using prune_keeps(3) [OF assms(1), of k q] by (auto simp: t')
  show "slot_at t h = Waiting c \<Longrightarrow> Sent c r \<in> set evs"
    using complete_events [OF assms(1), of now h r] prune_keeps(2) [OF assms(1), of h c] assms(2) by simp
qed

lemma register_delivers:
  assumes "wf t" "register now ch h t = (t', evs)" "slot_at t h = Buffered r"
  shows "Sent ch r \<in> set evs"
  using register_events [OF assms(1), of now ch h] prune_keeps(3) [OF assms(1,3)] assms(2) by simp

lemma register_effect:
  assumes "wf t" "register now ch h t = (t', evs)" "\<forall>k c. slot_at t k \<noteq> Waiting c"
  shows "slot_at t' k = Waiting c \<Longrightarrow> k = h \<and> c = ch"
    and "slot_at t' h = Waiting ch \<or> (\<exists>r. Sent ch r \<in> set evs)"
    and "slot_at t' k = Buffered q \<Longrightarrow> slot_at t k = Buffered q"
    and "Sent c q \<in> set evs \<Longrightarrow> slot_at t h = Buffered q"
proof -
  let ?u = "slot_at (prune now t)"
  have t': "slot_at t' = ?u(h := fst (slot_register ch (?u h)))" and evs: "evs = snd (slot_register ch (?u h))"
    using register_slot [OF assms(1), of now ch h] register_events [OF assms(1), of now ch h] assms(2) by simp_all
  have no: "?u k \<noteq> Waiting d" for k d using waiting_prune_iff [OF assms(1)] assms(3) by simp
  note b = buffered_prune_iff [OF assms(1), of now]
  show "slot_at t' k = Waiting c \<Longrightarrow> k = h \<and> c = ch"
    using no [of k] by (cases "?u h") (auto simp: t' split: if_splits)
  show "slot_at t' h = Waiting ch \<or> (\<exists>r. Sent ch r \<in> set evs)"
    using no [of h] by (cases "?u h") (auto simp: t' evs)
  show "slot_at t' k = Buffered q \<Longrightarrow> slot_at t k = Buffered q"
    using b [of k q] by (cases "?u h") (auto simp: t' split: if_splits)
  show "Sent c q \<in> set evs \<Longrightarrow> slot_at t h = Buffered q"
    using b [of h q] by (cases "?u h") (auto simp: evs)
qed

lemma time_out_effect:
  assumes "wf t" "time_out now now' h t = (t', evs)"
  shows "slot_at t' k = Waiting c \<Longrightarrow> k \<noteq> h \<and> slot_at t k = Waiting c"
    and "slot_at t' k = Buffered q \<Longrightarrow> slot_at t k = Buffered q"
proof -
  let ?u = "slot_at (prune now t)"
  have t': "slot_at t' = ?u(h := fst (slot_timeout now' (?u h)))"
    using time_out_slot [OF assms(1), of now now' h] assms(2) by simp
  then show "slot_at t' k = Waiting c \<Longrightarrow> k \<noteq> h \<and> slot_at t k = Waiting c"
    using waiting_prune_iff [OF assms(1), of now k c] by (cases "?u h") (auto split: if_splits)
  from t' show "slot_at t' k = Buffered q \<Longrightarrow> slot_at t k = Buffered q"
    using buffered_prune_iff [OF assms(1), of now k q] by (cases "?u h") (auto split: if_splits)
qed

end

lemma logged_channel_unique:
  assumes "probe_inv s" "Sent c r \<in> set (sys_log s)"
  shows "find (\<lambda>e. chan_of e = c) (sys_log s) = Some (Sent c r)"
proof -
  have d: "distinct (map chan_of (sys_log s))" using assms(1) by (simp add: probe_inv_def chans_ok_def)
  show ?thesis
  proof (cases "find (\<lambda>e. chan_of e = c) (sys_log s)")
    case None
    with assms(2) show ?thesis by (force simp: find_None_iff)
  next
    case (Some e)
    then have "e \<in> set (sys_log s)" "chan_of e = chan_of (Sent c r)" by (auto simp: find_Some_iff)
    with d assms(2) have "e = Sent c r" by (meson distinct_map inj_onD)
    with Some show ?thesis by simp
  qed
qed

lemma waiting_not_logged:
  assumes "probe_inv s" "slot_of (sys_tracker s) h = Waiting c"
  shows "find (\<lambda>e. chan_of e = c) (sys_log s) = None"
proof -
  have "c \<notin> chan_of ` set (sys_log s)" using assms unfolding probe_inv_def chans_ok_def by blast
  then show ?thesis by (auto simp: find_None_iff)
qed

lemma next_not_logged: "probe_inv s \<Longrightarrow> Sent (sys_next s) r \<notin> set (sys_log s)"
  by (force simp: probe_inv_def chans_ok_def)

section \<open>Every step keeps the invariant\<close>

lemma inv_event:
  assumes "node_inv encode decode ls s" "ec_tracker_ok C" "ec_now C = ns_clock s"
    and "handle_ldk_events C event (ns_shared s) = (shared, acts)"
    and views: "pay_reachable encode decode (es_pay shared)"
      "probe_reachable (probe_view (s\<lparr>ns_shared := shared, ns_log := ns_log s @ chan_events acts\<rparr>))"
  shows "node_inv encode decode (ls @ [HandleEvent C event]) (s\<lparr>ns_shared := shared, ns_log := ns_log s @ chan_events acts\<rparr>)"
proof -
  let ?ls = "ls @ [HandleEvent C event]"
  have inv: "node_inv encode decode ?ls s" using assms(1) by (rule node_inv_mono) auto
  from assms(4,2) show ?thesis
  proof (cases rule: event_tracker_cases)
    case other
    with inv views show ?thesis by (simp add: node_inv_def)
  next
    case (outcome h r)
    note eff = tr.complete_effect [OF node_inv_tracker(2) [OF inv] outcome(2)]
    have told: "told ?ls h r" using outcome(1) by (auto simp: told_def)
    have own: "owned (ns_phase s) = Some (h, c)" if "Sent c q \<in> set (chan_events acts)" for c q
      using eff(4) [OF that] node_invD(1) [OF inv] by blast
    have "wakeable (ns_phase s) (es_tracker shared) (ns_log s @ chan_events acts)"
      using node_invD(3) [OF inv] eff(2) by (blast intro: wakeable_append)
    moreover have "messages_told ?ls (ns_phase s) (ns_log s @ chan_events acts)"
      using node_invD(4) [OF inv]
    proof (rule messages_told_append)
      fix k c q assume "ns_phase s = AwaitingOutcome k c" "Sent c q \<in> set (chan_events acts)"
      with own [of c q] eff(4) [of c q] told show "told ?ls k q" by simp
    qed
    moreover have "\<forall>k q. slot_of (es_tracker shared) k = Buffered q \<longrightarrow> told ?ls k q"
      using node_invD(2) [OF inv] eff(3) told by blast
    moreover have "\<forall>k c. slot_of (es_tracker shared) k = Waiting c \<longrightarrow> owned (ns_phase s) = Some (k, c)"
      using node_invD(1) [OF inv] eff(1) by blast
    ultimately show ?thesis using inv views by (simp add: node_inv_def)
  qed
qed

lemma inv_register:
  assumes inv: "node_inv encode decode ls s" and phase: "ns_phase s = ProbeSent h"
    and reg: "register_probe (ns_clock s) (ns_next s) h (es_tracker (ns_shared s)) = (t, evs)"
    and s': "s' = s\<lparr>ns_shared := (ns_shared s)\<lparr>es_tracker := t\<rparr>, ns_phase := AwaitingOutcome h (ns_next s),
      ns_next := Suc (ns_next s), ns_log := ns_log s @ evs\<rparr>"
    and view: "probe_reachable (probe_view s')"
  shows "node_inv encode decode ls s'"
proof -
  have none: "\<forall>k c. slot_of (es_tracker (ns_shared s)) k \<noteq> Waiting c"
    using node_invD(1) [OF inv] phase by fastforce
  note eff = tr.register_effect [OF node_inv_tracker(2) [OF inv] reg none]
  have "Sent (ns_next s) r \<notin> set (ns_log s)" for r
    using next_not_logged [OF node_inv_tracker(1) [OF inv]] by simp
  then have "messages_told ls (ns_phase s') (ns_log s')"
    using node_invD(2) [OF inv] eff(4) by (auto simp: s' messages_told_def)
  moreover have "wakeable (ns_phase s') t (ns_log s')"
    using eff(2) by (auto simp: s' wakeable_def)
  ultimately show ?thesis
    using inv view eff(1,3) by (auto simp: s' node_inv_def)
qed

lemma inv_receive:
  assumes inv: "node_inv encode decode ls s" and phase: "ns_phase s = AwaitingOutcome h c"
    and e: "find (\<lambda>e. chan_of e = c) (ns_log s) = Some e"
  shows "slot_of (es_tracker (ns_shared s)) k \<noteq> Waiting d" "truthful ls (report_of h e)"
proof -
  note unique = logged_channel_unique [OF node_inv_tracker(1) [OF inv]] and
    unlogged = waiting_not_logged [OF node_inv_tracker(1) [OF inv]]
  show "slot_of (es_tracker (ns_shared s)) k \<noteq> Waiting d"
    using node_invD(1) [OF inv, of k d] phase e unlogged [of k d] by auto
  from node_invD(3) [OF inv] phase e unlogged [of h c] obtain r where r: "Sent c r \<in> set (ns_log s)"
    by (auto simp: wakeable_def)
  with unique [of c r] e have "e = Sent c r" by simp
  moreover have "told ls h r" using node_invD(4) [OF inv] phase r by (simp add: messages_told_def)
  ultimately show "truthful ls (report_of h e)" by (cases r) simp_all
qed

lemma node_inv_step:
  assumes "node_step encode decode s l s'" "node_inv encode decode ls s"
  shows "node_inv encode decode (ls @ [l]) s'"
proof -
  have inv: "node_inv encode decode (ls @ [l]) s" using assms(2) by (rule node_inv_mono) auto
  have pay: "pay_reachable encode decode (es_pay (ns_shared s'))"
    using step_refines_tables [OF assms(1)] inv by (simp add: node_inv_def)
  have view: "probe_reachable (probe_view s')"
    using step_refines_tracker [OF assms(1)] inv by (auto simp: node_inv_def intro: probe_reachable.intros)
  from assms(1) show ?thesis
  proof (cases rule: node_step.cases)
    case (event C ev shared acts)
    show ?thesis
      using inv_event [OF assms(2) event(5,4,6)] pay view unfolding event(1,2) by simp
  next
    case (register h t evs)
    then show ?thesis using inv_register [OF inv] view by simp
  next
    case (receive h c e)
    from inv_receive [OF inv receive(3,4)] receive(2) show ?thesis
      using inv view by (simp add: node_inv_def wakeable_def messages_told_def)
  next
    case (elapsed h c)
    then show ?thesis using inv view by (simp add: node_inv_def wakeable_def messages_told_def)
  next
    case (mark h c d t evs)
    note eff = tr.time_out_effect [OF node_inv_tracker(2) [OF inv] mark(4)]
    have "slot_of t k \<noteq> Waiting e" for k e using inv mark(3) eff(1) [of k e] by (auto simp: node_inv_def)
    then show ?thesis
      using inv view eff(2) mark by (auto simp: node_inv_def wakeable_def messages_told_def)
  next
    case (restart dir fault recent p out)
    then show ?thesis using node_inv_fresh pay by simp
  qed (use inv view pay in \<open>auto simp: node_inv_def wakeable_def messages_told_def\<close>)
qed

lemma node_run_inv_from:
  "node_run encode decode s ls t \<Longrightarrow> s = fresh_node p \<Longrightarrow> pay_reachable encode decode p \<Longrightarrow> node_inv encode decode ls t"
  by (induction rule: node_run.induct) (simp add: node_inv_fresh, blast intro: node_inv_step)

lemma node_run_inv: "node_run encode decode node_start ls s \<Longrightarrow> node_inv encode decode ls s"
  by (rule node_run_inv_from [OF _ node_start_def pay_reachable.start])

lemma pending_at_most_one:
  assumes "node_inv encode decode ls s"
  shows "length (pending_probes (es_tracker (ns_shared s))) \<le> 1"
proof -
  let ?m = "pending_probes (es_tracker (ns_shared s))"
  have wf: "hm_wf ?m" using node_inv_tracker(2) [OF assms] by (simp add: tracker_wf_def)
  have "owned (ns_phase s) = Some (h, c)" if "hm_get ?m h = Some c" for h c
    using that node_invD(1) [OF assms, of h c] by (simp add: slot_of_def)
  then have "\<exists>h. dom (hm_get ?m) \<subseteq> {h}"
    by (cases "owned (ns_phase s)") fastforce+
  then have "card (dom (hm_get ?m)) \<le> 1" by (metis card.empty card_insert_le_m1 card_mono finite.emptyI finite.insertI is_singletonI is_singleton_altdef)
  with wf show ?thesis by (simp add: hm.size_dom)
qed

lemma awaiting_channel:
  assumes inv: "node_inv encode decode ls s" and phase: "ns_phase s = AwaitingOutcome h c"
  shows "if slot_of (es_tracker (ns_shared s)) h = Waiting c then filter (\<lambda>e. chan_of e = c) (ns_log s) = []
    else \<exists>r. filter (\<lambda>e. chan_of e = c) (ns_log s) = [Sent c r] \<and> told ls h r"
proof (cases "slot_of (es_tracker (ns_shared s)) h = Waiting c")
  case True
  with waiting_not_logged [OF node_inv_tracker(1) [OF inv], of h c] show ?thesis
    by (auto simp: find_None_iff filter_empty_conv)
next
  case False
  with node_invD(3) [OF inv] phase obtain r where r: "Sent c r \<in> set (ns_log s)" by (auto simp: wakeable_def)
  moreover have "distinct (map chan_of (ns_log s))"
    using node_inv_tracker(1) [OF inv] by (simp add: probe_inv_def chans_ok_def)
  ultimately have "filter (\<lambda>e. chan_of e = chan_of (Sent c r)) (ns_log s) = [Sent c r]" by (rule filter_unique_key [rotated])
  with False r node_invD(4) [OF inv] phase show ?thesis by (auto simp: messages_told_def)
qed

section \<open>Attempts and runs\<close>

text \<open>The labels of the other tasks.\<close>

fun others :: "('j, 'b, 'tx, 'outs, 'bump, 'ga, 'sa, 'offer, 'hrn) node_label \<Rightarrow> bool" where
  "others (Tick d) = True"
| "others (HandleEvent C event) = True"
| "others (RunCommand env line input) = True"
| "others _ = False"

text \<open>The moves the probing task makes between sending a probe and reporting on it.\<close>

fun probe_move :: "('j, 'b, 'tx, 'outs, 'bump, 'ga, 'sa, 'offer, 'hrn) node_label \<Rightarrow> bool" where
  "probe_move RegisterProbe = True"
| "probe_move ReceiveOutcome = True"
| "probe_move ProbeElapsed = True"
| "probe_move (MarkTimedOut d) = True"
| "probe_move _ = False"

text \<open>While the other tasks run, the tracker and the channels see calls as in an attempt's schedule.\<close>

definition calls_between :: "tracker_call list \<Rightarrow> ('b, 'sf) node_sys \<Rightarrow> ('b, 'sf) node_sys \<Rightarrow> bool" where
  "calls_between cs s s' \<longleftrightarrow>
     es_tracker (ns_shared s') = fst (other_calls cs (es_tracker (ns_shared s))) \<and>
     ns_log s' = ns_log s @ snd (other_calls cs (es_tracker (ns_shared s))) \<and>
     ns_phase s' = ns_phase s \<and> ns_next s' = ns_next s \<and> ns_reports s' = ns_reports s"

lemma others_step:
  assumes "node_step encode decode s l s'" "others l"
  shows "\<exists>cs. calls_between cs s s'"
  using assms
proof (cases rule: node_step.cases)
  case (event C ev shared acts)
  then show ?thesis
    using handle_event_parts [of C ev "ns_shared s"] by (auto simp: calls_between_def)
qed (auto simp: calls_between_def intro!: exI [of _ "[]"])

lemma others_run:
  "node_run encode decode s ls s' \<Longrightarrow> list_all others ls \<Longrightarrow> \<exists>cs. calls_between cs s s'"
proof (induction rule: node_run.induct)
  case (nil s)
  then show ?case by (auto simp: calls_between_def intro!: exI [of _ "[]"])
next
  case (snoc s ls t l u)
  then obtain cs cs' where "calls_between cs s t" "calls_between cs' t u" by (auto dest: others_step)
  then have "calls_between (cs @ cs') s u" by (simp add: calls_between_def other_calls_append Let_def case_prod_beta)
  then show ?case by blast
qed

lemma probe_reachable_step:
  "node_step encode decode s l s' \<Longrightarrow> probe_reachable (probe_view s) \<Longrightarrow> probe_reachable (probe_view s')"
  using step_refines_tracker [of encode decode s l s'] by (metis probe_reachable.intros)

lemma probe_reachable_run:
  "node_run encode decode s ls s' \<Longrightarrow> probe_reachable (probe_view s) \<Longrightarrow> probe_reachable (probe_view s')"
  by (induction rule: node_run.induct) (auto intro: probe_reachable_step)

lemma report_of_completion: "report_of h (Sent c r) = completion_of h r"
  by (cases r) (simp_all add: completion_of_def)

lemma find_fresh: "\<forall>e \<in> set xs. chan_of e \<noteq> c \<Longrightarrow> find (\<lambda>e. chan_of e = c) (xs @ ys) = find (\<lambda>e. chan_of e = c) ys"
  by (induction xs) simp_all

lemma find_next: "probe_inv (probe_view s) \<Longrightarrow>
    find (\<lambda>e. chan_of e = ns_next s) (ns_log s @ evs) = find (\<lambda>e. chan_of e = ns_next s) evs"
  by (rule find_fresh) (force simp: probe_inv_def chans_ok_def)

text \<open>The steps of an attempt up to its wait.\<close>

lemma attempt_waits:
  assumes "node_step encode decode s (SendProbe h) s0" "calls_between before s0 s1"
    and "node_step encode decode s1 RegisterProbe s2" "calls_between waiting s2 s3"
    and reg: "register_probe (ns_clock s1) (ns_next s) h (es_tracker (ns_shared s1)) = (t, evs)"
  shows "es_tracker (ns_shared s1) = fst (other_calls before (es_tracker (ns_shared s)))" "ns_next s1 = ns_next s"
    and "es_tracker (ns_shared s3) = fst (other_calls waiting t)" "ns_log s3 = ns_log s1 @ evs @ snd (other_calls waiting t)"
    and "ns_phase s3 = AwaitingOutcome h (ns_next s)" "ns_next s3 = Suc (ns_next s)" "ns_reports s3 = ns_reports s"
proof -
  have s0: "s0 = s\<lparr>ns_phase := ProbeSent h\<rparr>" using assms(1) by (auto elim: node_stepE)
  have s1: "ns_phase s1 = ProbeSent h" "ns_next s1 = ns_next s" "ns_reports s1 = ns_reports s"
    "es_tracker (ns_shared s1) = fst (other_calls before (es_tracker (ns_shared s)))"
    using assms(2) by (simp_all add: s0 calls_between_def)
  have s2: "s2 = s1\<lparr>ns_shared := (ns_shared s1)\<lparr>es_tracker := t\<rparr>, ns_phase := AwaitingOutcome h (ns_next s),
      ns_next := Suc (ns_next s), ns_log := ns_log s1 @ evs\<rparr>"
    using assms(3) s1 reg by (auto elim: node_stepE)
  show "es_tracker (ns_shared s1) = fst (other_calls before (es_tracker (ns_shared s)))" "ns_next s1 = ns_next s"
    "es_tracker (ns_shared s3) = fst (other_calls waiting t)" "ns_log s3 = ns_log s1 @ evs @ snd (other_calls waiting t)"
    "ns_phase s3 = AwaitingOutcome h (ns_next s)" "ns_next s3 = Suc (ns_next s)" "ns_reports s3 = ns_reports s"
    using assms(4) s1 by (simp_all add: s2 calls_between_def)
qed

text \<open>The moves of the probing task are those of \<^verbatim>\<open>run_probe_attempt\<close>: an attempt carried out step by step from a reachable state,
  with the other tasks running in between, reports what the function returns under the schedule of their calls, and
  leaves the tracker it leaves.\<close>

lemma attempt_of_run:
  fixes L :: "('pk, 'cd, 'htlcs, 'path, 'sf) ldk_view" and s :: "('b, 'sf) node_sys"
  assumes reach: "probe_reachable (probe_view s)"
    and send: "node_step encode decode s (SendProbe h) s0" and before: "node_run encode decode s0 ls1 s1" "list_all others ls1"
    and register: "node_step encode decode s1 RegisterProbe s2" and waiting: "node_run encode decode s2 ls2 s3" "list_all others ls2"
    and ends: "node_step encode decode s3 ReceiveOutcome s' \<or>
      (\<exists>s4 ls3 s5 d. node_step encode decode s3 ProbeElapsed s4 \<and> node_run encode decode s4 ls3 s5 \<and> list_all others ls3 \<and>
        node_step encode decode s5 (MarkTimedOut d) s')"
  shows "\<exists>env completion st'. env_ldk env = L \<and> env_reg_lock env \<and> env_mark_lock env \<and>
    run_probe_attempt env (Inr h) \<lparr>ps_tracker = es_tracker (ns_shared s), ps_next = ns_next s, ps_attempt = n\<rparr> = (completion, st', []) \<and>
    ns_reports s' = ns_reports s @ [completion] \<and> ps_tracker st' = es_tracker (ns_shared s') \<and> ps_next st' = ns_next s'"
proof -
  obtain cs1 cs2 where cs: "calls_between cs1 s0 s1" "calls_between cs2 s2 s3"
    using others_run [OF before] others_run [OF waiting] by blast
  obtain t evs where reg: "register_probe (ns_clock s1) (ns_next s) h (es_tracker (ns_shared s1)) = (t, evs)" by (metis prod.exhaust)
  note w = attempt_waits [OF send cs(1) register cs(2) reg]
  have "probe_inv (probe_view s1)"
    using probe_reachable_inv probe_reachable_run [OF before(1)] probe_reachable_step [OF send reach] by blast
  from find_next [OF this, of "evs @ snd (other_calls cs2 t)"]
  have found: "find (\<lambda>e. chan_of e = ns_next s) (ns_log s3) = find (\<lambda>e. chan_of e = ns_next s) (evs @ snd (other_calls cs2 t))"
    by (simp add: w)
  let ?st = "\<lparr>ps_tracker = es_tracker (ns_shared s), ps_next = ns_next s, ps_attempt = n\<rparr>"
  let ?env = "\<lambda>cs3 mark. \<lparr>env_ldk = L, env_before = cs1, env_reg_at = ns_clock s1, env_reg_lock = True, env_waiting = cs2,
    env_late = cs3, env_mark_at = mark, env_mark_lock = True\<rparr>"
  note run = run_probe_attempt_registered [of "?env cs3 mark" h ?st for cs3 mark]
  from ends show ?thesis
  proof (elim disjE exE conjE)
    assume "node_step encode decode s3 ReceiveOutcome s'"
    then obtain e where e: "find (\<lambda>e. chan_of e = ns_next s) (ns_log s3) = Some e"
      and s': "s' = s3\<lparr>ns_phase := NoProbe, ns_reports := ns_reports s3 @ [report_of h e]\<rparr>"
      using w(5) by (auto elim: node_stepE)
    have "run_probe_attempt (?env [] (0, 0)) (Inr h) ?st =
        (report_of h e, \<lparr>ps_tracker = fst (other_calls cs2 t), ps_next = Suc (ns_next s), ps_attempt = Suc n\<rparr>, [])"
      using e reg w(1) found run [of "[]" "(0, 0)"]
      by (cases e) (simp_all add: Let_def report_of_completion)
    then show ?thesis by (intro exI [of _ "?env [] (0, 0)"]) (simp add: s' w)
  next
    fix s4 ls3 s5 d
    assume elapsed: "node_step encode decode s3 ProbeElapsed s4" and late: "node_run encode decode s4 ls3 s5" "list_all others ls3"
      and mark: "node_step encode decode s5 (MarkTimedOut d) s'"
    from elapsed w(5) have e: "find (\<lambda>e. chan_of e = ns_next s) (ns_log s3) = None"
      and s4: "s4 = s3\<lparr>ns_phase := GivingUp h (ns_next s)\<rparr>" by (auto elim: node_stepE)
    obtain cs3 where cs3: "calls_between cs3 s4 s5" using others_run [OF late] by blast
    let ?m = "mark_timed_out (ns_clock s5) (ns_clock s5 + d) h (es_tracker (ns_shared s5))"
    have s': "es_tracker (ns_shared s') = fst ?m" "ns_next s' = ns_next s5" "ns_reports s' = ns_reports s5 @ [Timeout h]"
      using mark cs3 by (auto elim!: node_stepE simp: s4 calls_between_def)
    let ?e = "?env cs3 (ns_clock s5, ns_clock s5 + d)"
    have "run_probe_attempt ?e (Inr h) ?st =
        (Timeout h, \<lparr>ps_tracker = fst ?m, ps_next = Suc (ns_next s), ps_attempt = Suc n\<rparr>, [])"
      using e reg w found cs3 run [of cs3 "(ns_clock s5, ns_clock s5 + d)"] by (simp add: Let_def s4 calls_between_def)
    then show ?thesis using cs3 by (intro exI [of _ ?e]) (simp add: s' s4 w calls_between_def)
  qed
qed

section \<open>Progress of the probing task\<close>

fun sends_probe :: "('j, 'b, 'tx, 'outs, 'bump, 'ga, 'sa, 'offer, 'hrn) node_label \<Rightarrow> bool" where
  "sends_probe (SendProbe h) = True"
| "sends_probe _ = False"

fun restarts :: "('j, 'b, 'tx, 'outs, 'bump, 'ga, 'sa, 'offer, 'hrn) node_label \<Rightarrow> bool" where
  "restarts (Restart dir fault recent) = True"
| "restarts _ = False"

lemma probe_move_enabled:
  assumes "ns_phase s \<noteq> NoProbe"
  shows "\<exists>l s'. probe_move l \<and> node_step encode decode s l s'"
proof (cases "ns_phase s")
  case (ProbeSent h)
  then show ?thesis by (metis node_step.register probe_move.simps(1) prod.exhaust)
next
  case (AwaitingOutcome h c)
  then show ?thesis
    by (metis node_step.receive node_step.elapsed probe_move.simps(2,3) option.exhaust)
next
  case (GivingUp h c)
  then show ?thesis by (metis node_step.mark probe_move.simps(4) prod.exhaust)
qed (use assms in simp)

text \<open>The result of the probe in flight has arrived: it is buffered, or sent to the task, or reported.\<close>

definition result_held :: "payment_hash \<Rightarrow> 'sf probe_completion list \<Rightarrow> ('b, 'sf) node_sys \<Rightarrow> bool" where
  "result_held h reported s \<longleftrightarrow> (case ns_phase s of
     NoProbe \<Rightarrow> \<exists>r. ns_reports s = reported @ [completion_of h r]
   | ProbeSent k \<Rightarrow> k = h \<and> ns_reports s = reported \<and> (\<exists>r. slot_of (es_tracker (ns_shared s)) h = Buffered r)
   | AwaitingOutcome k c \<Rightarrow> k = h \<and> ns_reports s = reported \<and> (\<exists>r. Sent c r \<in> set (ns_log s))
   | GivingUp k c \<Rightarrow> False)"

fun result_moves :: "probe_phase \<Rightarrow> nat" where
  "result_moves (ProbeSent h) = 2"
| "result_moves (AwaitingOutcome h c) = 1"
| "result_moves _ = 0"

lemma result_held_calls:
  assumes "tracker_wf (es_tracker (ns_shared s))" "result_held h reported s" "handle_ldk_events C event (ns_shared s) = (shared, acts)" "ec_tracker_ok C"
  shows "result_held h reported (s\<lparr>ns_shared := shared, ns_log := ns_log s @ chan_events acts\<rparr>)"
  using assms(3,4)
proof (cases rule: event_tracker_cases)
  case (outcome k r)
  from tr.complete_buffers(2) [OF assms(1) outcome(2), of h] assms(2) show ?thesis
    by (auto simp: result_held_def split: probe_phase.splits)
qed (use assms(2) in \<open>simp add: result_held_def split: probe_phase.splits\<close>)

lemma result_held_step:
  assumes "node_step encode decode s l s'" "node_inv encode decode ls s" "result_held h reported s"
    and "\<not> restarts l" "\<not> sends_probe l"
  shows "result_held h reported s' \<and> (if probe_move l then 1 else 0) + result_moves (ns_phase s') = result_moves (ns_phase s)"
  using assms(1)
proof (cases rule: node_step.cases)
  case (event C ev shared acts)
  with result_held_calls [OF node_inv_tracker(2) [OF assms(2)] assms(3) event(6,5)] show ?thesis by simp
next
  case (register k t evs)
  with assms(3) obtain r where "k = h" "slot_of (es_tracker (ns_shared s)) h = Buffered r" "ns_reports s = reported"
    by (auto simp: result_held_def)
  with tr.register_delivers [OF node_inv_tracker(2) [OF assms(2)] register(4)] register(1-3) show ?thesis
    by (auto simp: result_held_def)
next
  case (receive k c e)
  with assms(3) obtain r where r: "k = h" "Sent c r \<in> set (ns_log s)" "ns_reports s = reported"
    by (auto simp: result_held_def)
  with logged_channel_unique [OF node_inv_tracker(1) [OF assms(2)], of c r] receive have "e = Sent c r" by simp
  with receive r show ?thesis by (auto simp: result_held_def report_of_completion)
next
  case (elapsed k c)
  with assms(3) show ?thesis by (auto simp: result_held_def find_None_iff)
qed (use assms(3-5) in \<open>auto simp: result_held_def split: probe_phase.splits\<close>)

lemma result_held_run:
  assumes "node_run encode decode s ls' s'" "node_inv encode decode ls s" "result_held h reported s"
    and "\<not> list_ex restarts ls'" "\<not> list_ex sends_probe ls'"
  shows "node_inv encode decode (ls @ ls') s' \<and> result_held h reported s' \<and>
    length (filter probe_move ls') + result_moves (ns_phase s') = result_moves (ns_phase s)"
  using assms
proof (induction rule: node_run.induct)
  case (snoc s ls' t l u)
  then have IH: "node_inv encode decode (ls @ ls') t" "result_held h reported t"
    "length (filter probe_move ls') + result_moves (ns_phase t) = result_moves (ns_phase s)" by auto
  have "\<not> restarts l" "\<not> sends_probe l" using snoc.prems by auto
  from result_held_step [OF snoc.hyps(2) IH(1,2) this] node_inv_step [OF snoc.hyps(2) IH(1)] IH(3) show ?case by auto
qed simp

lemma result_arrives:
  assumes "node_inv encode decode ls s" "ns_phase s = ProbeSent h \<or> (\<exists>c. ns_phase s = AwaitingOutcome h c)"
    and "\<forall>i. slot_of (es_tracker (ns_shared s)) h \<noteq> Expired i"
    and "node_step encode decode s (HandleEvent C event) s'" "outcome_event event = Some (h, r)"
  shows "result_held h (ns_reports s) s' \<and> ns_phase s' = ns_phase s"
proof -
  from assms(4) obtain shared acts where e: "ec_tracker_ok C" "handle_ldk_events C event (ns_shared s) = (shared, acts)"
    and s': "s' = s\<lparr>ns_shared := shared, ns_log := ns_log s @ chan_events acts\<rparr>" by (auto elim: node_stepE)
  have call: "complete_probe (ec_now C) h r (es_tracker (ns_shared s)) = (es_tracker shared, chan_events acts)"
    using handle_event_parts [of C event "ns_shared s"] e assms(5) by (simp add: tracker_part_outcome other_calls_single)
  note wf = node_inv_tracker(2) [OF assms(1)]
  show ?thesis
  proof (cases "ns_phase s")
    case (ProbeSent k)
    with assms(2) node_invD(1) [OF assms(1), of h] have "slot_of (es_tracker (ns_shared s)) h \<noteq> Waiting c" for c by fastforce
    with assms(3) have "slot_of (es_tracker (ns_shared s)) h \<in> {Idle} \<union> range Buffered"
      by (cases "slot_of (es_tracker (ns_shared s)) h") auto
    with tr.complete_buffers(1) [OF wf call] ProbeSent assms(2) show ?thesis by (auto simp: s' result_held_def)
  next
    case (AwaitingOutcome k c)
    with assms(2) node_invD(3) [OF assms(1)] tr.complete_buffers(3) [OF wf call, of c]
    have "\<exists>q. Sent c q \<in> set (ns_log s @ chan_events acts)" by (auto simp: wakeable_def)
    with AwaitingOutcome assms(2) show ?thesis by (auto simp: s' result_held_def)
  qed (use assms(2) in auto)
qed

section \<open>A start of the process is a restart step\<close>

lemma spawn_is_restart:
  assumes "spawn_tasks encode decode fault recent system_conf args nd (es_pay (ns_shared s)) = (Some shared, tasks, out)"
  shows "\<exists>dir. node_step encode decode s (Restart dir fault (recent (bs_manager (n_boot nd)))) (fresh_node (es_pay shared)) \<and>
    shared = ns_shared (fresh_node (es_pay shared))"
  using assms
  by (auto simp: spawn_tasks_def Let_def case_prod_beta split: option.splits intro!: node_step.restart exI prod_eqI)

section \<open>Properties\<close>

text \<open>C4: the node as a whole. In every interleaving of LDK's events, the user's commands, the probing task,
  the passing of time and restarts, the payment tables keep their invariant; at most one probe is registered; no
  wake-up is lost (while the probing task waits, either its channel is registered and silent, or it holds exactly
  one message, an outcome); and what the task reports is true: it reports a success or a failure only when LDK
  delivered that result for that payment hash, and never that its channel was dropped.\<close>

theorem node_invariant:
  assumes "codec_ok encode decode" and "node_run encode decode node_start ls s"
  shows "(let tables = es_pay (ns_shared s); tracker = es_tracker (ns_shared s)
     in outbound_ok (outbound tables) \<and> inbound_ok (inbound tables) \<and>
        tracker_wf tracker \<and> length (pending_probes tracker) \<le> 1 \<and>
        list_all (truthful ls) (ns_reports s) \<and>
        (case ns_phase s of
           AwaitingOutcome h c \<Rightarrow>
             if slot_of tracker h = Waiting c then filter (\<lambda>e. chan_of e = c) (ns_log s) = []
             else \<exists>r. filter (\<lambda>e. chan_of e = c) (ns_log s) = [Sent c r] \<and> told ls h r
         | _ \<Rightarrow> True))"
proof -
  note inv = node_run_inv [OF assms(2)]
  have pay: "pay_inv decode (es_pay (ns_shared s))"
    using inv pay_reachable_inv [OF assms(1)] by (simp add: node_inv_def)
  note rest = node_inv_tracker(2) [OF inv] pending_at_most_one [OF inv] node_invD(5) [OF inv]
  show ?thesis
  proof (cases "ns_phase s")
    case (AwaitingOutcome h c)
    with awaiting_channel [OF inv] rest pay show ?thesis by (simp add: Let_def pay_inv_def)
  qed (use rest pay in \<open>simp_all add: Let_def pay_inv_def\<close>)
qed

text \<open>LDK reports the result of a probe before the probing task has registered it.\<close>

type_synonym demo_label = "(rat, payments, nat, nat, nat, nat, nat, nat, nat) node_label"

definition early_labels :: "demo_label list" where
  "early_labels = [Tick 5, SendProbe [9], HandleEvent demo_ctx (ProbeSuccessful [9]), RegisterProbe, ReceiveOutcome]"

lemmas tracker_eval = register_probe_def complete_success_def complete_probe_def tracker_new_def prune_timed_out_probes_def
  prune_map_def hm_retain_def hm_new_def hm_get_def hm_insert_def hm_remove_def Let_def

lemma early_run:
  obtains s2 s3 s :: "(payments, unit) node_sys" where
    "node_run id Some node_start [Tick 5 :: demo_label, SendProbe [9]] s2" "ns_phase s2 = ProbeSent [9]"
    "es_tracker (ns_shared s2) = tracker_new" "node_step id Some s2 (HandleEvent demo_ctx (ProbeSuccessful [9]) :: demo_label) s3"
    "node_run id Some s3 [RegisterProbe :: demo_label, ReceiveOutcome] s"
    "node_run id Some node_start early_labels s" "ns_reports s = [Success [9]]" "ns_phase s = NoProbe"
proof -
  let ?step = "node_step id Some :: _ \<Rightarrow> demo_label \<Rightarrow> _"
  let ?b = "tracker_new\<lparr>completed_probes := [([9], OutcomeSuccess)]\<rparr>"
  define s0 :: "(payments, unit) node_sys" where "s0 = node_start"
  define s1 where "s1 = s0\<lparr>ns_clock := ns_clock s0 + 5\<rparr>"
  define s2 where "s2 = s1\<lparr>ns_phase := ProbeSent [9]\<rparr>"
  define s3 where "s3 = s2\<lparr>ns_shared := (ns_shared s2)\<lparr>es_tracker := ?b\<rparr>, ns_log := ns_log s2 @ []\<rparr>"
  define s4 where "s4 = s3\<lparr>ns_shared := (ns_shared s3)\<lparr>es_tracker := tracker_new\<rparr>, ns_phase := AwaitingOutcome [9] (ns_next s3),
    ns_next := Suc (ns_next s3), ns_log := ns_log s3 @ [Sent 0 OutcomeSuccess]\<rparr>"
  define s5 where "s5 = s4\<lparr>ns_phase := NoProbe, ns_reports := ns_reports s4 @ [report_of [9] (Sent 0 OutcomeSuccess)]\<rparr>"
  note st = s0_def s1_def s2_def s3_def s4_def s5_def node_start_def fresh_node_def
  have handled: "handle_ldk_events demo_ctx (ProbeSuccessful [9] :: (nat, nat, nat) ldk_event) (ns_shared s2) =
      ((ns_shared s2)\<lparr>es_tracker := ?b\<rparr>, [] :: (payments, nat, nat, nat, nat) ev_act list)"
    by (simp add: st handle_ldk_events_def on_probe_result_def demo_ctx_def tracker_eval)
  have "s3 = s2\<lparr>ns_shared := (ns_shared s2)\<lparr>es_tracker := ?b\<rparr>,
      ns_log := ns_log s2 @ chan_events ([] :: (payments, nat, nat, nat, nat) ev_act list)\<rparr>"
    by (simp add: s3_def)
  then have "?step s2 (HandleEvent demo_ctx (ProbeSuccessful [9])) s3"
    by (simp only:) (rule node_step.event [OF _ _ _ handled], simp_all add: st demo_ctx_def)
  moreover have "?step s3 RegisterProbe s4"
    unfolding s4_def by (rule node_step.register) (simp_all add: st tracker_eval)
  moreover have "?step s4 ReceiveOutcome s5"
    unfolding s5_def by (rule node_step.receive) (simp_all add: st)
  moreover have "?step s0 (Tick 5) s1"
    unfolding s1_def by (rule node_step.tick)
  moreover have "?step s1 (SendProbe [9]) s2"
    unfolding s2_def by (rule node_step.send) (simp add: st)
  ultimately have runs: "node_run id Some s0 (([] @ [Tick 5 :: demo_label]) @ [SendProbe [9]]) s2"
      "node_run id Some s3 (([] @ [RegisterProbe :: demo_label]) @ [ReceiveOutcome]) s5"
      "node_run id Some s0 ((((([] @ [Tick 5 :: demo_label]) @ [SendProbe [9]]) @ [HandleEvent demo_ctx (ProbeSuccessful [9])]) @
        [RegisterProbe]) @ [ReceiveOutcome]) s5" and "?step s2 (HandleEvent demo_ctx (ProbeSuccessful [9])) s3"
    by (blast intro: node_run.intros)+
  then show ?thesis
    by (intro that [of s2 s3 s5]) (simp_all add: early_labels_def s0_def, simp_all add: st)
qed

theorem node_invariant_witness:
  "\<exists>s :: (payments, unit) node_sys. node_run id Some node_start early_labels s \<and> ns_reports s = [Success [9]] \<and>
     list_all (truthful early_labels) (ns_reports s)"
proof -
  obtain s :: "(payments, unit) node_sys" where s: "node_run id Some node_start early_labels s" "ns_reports s = [Success [9]]"
    by (rule early_run)
  have "codec_ok id Some" by (simp add: codec_ok_def)
  from node_invariant [OF this s(1)] s show ?thesis by (auto simp: Let_def)
qed

text \<open>C5: a result that LDK delivers reaches the report. Take any reachable state with a probe in flight that has not given
  up and whose hash has no tombstone, and let the event handler process a success or a failure for its hash. Then, whatever
  the other tasks do and in whatever order, as long as the process does not restart and until the next probe: the task always
  has a move, giving up is not one of them, and with its second move at the latest it has reported, once, a success
  or a failure of this hash, one that LDK delivered.\<close>

theorem delivered_result_reported:
  assumes "node_run encode decode node_start ls s"
    and "ns_phase s = ProbeSent h \<or> (\<exists>c. ns_phase s = AwaitingOutcome h c)"
    and "\<forall>i. slot_of (es_tracker (ns_shared s)) h \<noteq> Expired i"
    and "event = ProbeSuccessful h \<or> event = ProbeFailed h" "l = HandleEvent C event" "node_step encode decode s l s1"
    and "node_run encode decode s1 ls' s'" "\<not> list_ex restarts ls'" "\<not> list_ex sends_probe ls'"
  shows "length (filter probe_move ls') \<le> 2 \<and>
    (if ns_phase s' = NoProbe
     then \<exists>c. ns_reports s' = ns_reports s @ [c] \<and> c \<in> {Success h, Failed h} \<and> truthful (ls @ l # ls') c
     else length (filter probe_move ls') < 2 \<and> ns_reports s' = ns_reports s \<and>
       (\<exists>m s''. probe_move m \<and> node_step encode decode s' m s'') \<and> \<not> (\<exists>s''. node_step encode decode s' ProbeElapsed s''))"
proof -
  note inv = node_run_inv [OF assms(1)]
  obtain r where "outcome_event event = Some (h, r)" using assms(4) by auto
  from result_arrives [OF inv assms(2,3) assms(6) [unfolded assms(5)] this]
  have held: "result_held h (ns_reports s) s1" "ns_phase s1 = ns_phase s" by blast+
  note run = result_held_run [OF assms(7) node_inv_step [OF assms(6) inv] held(1) assms(8,9)]
  have moves: "length (filter probe_move ls') + result_moves (ns_phase s') \<le> 2" using run held(2) assms(2) by auto
  have stay: "\<not> node_step encode decode s' ProbeElapsed s''" for s''
    using run by (fastforce elim!: node_stepE simp: result_held_def find_None_iff)
  show ?thesis
  proof (cases "ns_phase s' = NoProbe")
    case True
    with run obtain c q where q: "ns_reports s' = ns_reports s @ [c]" "c = completion_of h q" by (auto simp: result_held_def)
    have "list_all (truthful (ls @ l # ls')) (ns_reports s')" using node_invD(5) [OF conjunct1 [OF run]] by simp
    with q(1) have "truthful (ls @ l # ls') c" by simp
    with True moves q show ?thesis by (cases q) (auto simp: completion_of_def)
  next
    case False
    with run have "ns_reports s' = ns_reports s" "0 < result_moves (ns_phase s')"
      by (auto simp: result_held_def split: probe_phase.splits)
    with False moves stay probe_move_enabled [OF False] show ?thesis by auto
  qed
qed

text \<open>The result arrives before the registration.\<close>

theorem delivered_result_reported_witness:
  "\<exists>s s1 s' :: (payments, unit) node_sys. node_run id Some node_start [Tick 5 :: demo_label, SendProbe [9]] s \<and>
    node_step id Some s (HandleEvent demo_ctx (ProbeSuccessful [9]) :: demo_label) s1 \<and>
    node_run id Some s1 [RegisterProbe :: demo_label, ReceiveOutcome] s' \<and>
    (\<exists>c. ns_reports s' = ns_reports s @ [c] \<and> truthful early_labels c)"
proof -
  let ?l = "HandleEvent demo_ctx (ProbeSuccessful [9]) :: demo_label"
  obtain s2 s3 s :: "(payments, unit) node_sys" where r:
    "node_run id Some node_start [Tick 5 :: demo_label, SendProbe [9]] s2" "ns_phase s2 = ProbeSent [9]"
    "es_tracker (ns_shared s2) = tracker_new" "node_step id Some s2 ?l s3"
    "node_run id Some s3 [RegisterProbe :: demo_label, ReceiveOutcome] s" "ns_phase s = NoProbe"
    by (rule early_run)
  have idle: "\<forall>i. slot_of (es_tracker (ns_shared s2)) [9] \<noteq> Expired i"
    by (simp add: r(3) slot_of_def tracker_new_def)
  have "ns_phase s2 = ProbeSent [9] \<or> (\<exists>c. ns_phase s2 = AwaitingOutcome [9] c)" using r(2) by simp
  from delivered_result_reported [OF r(1) this idle _ refl r(4,5)] r show ?thesis
    by (auto simp: early_labels_def)
qed

end
