(* ===== verification/Unit_Tests.thy ===== *)
theory Unit_Tests
  imports Config_Schema Probe_Runner Rapid_Sync Peer_Net
begin

text \<open>
  The repository's own unit tests, replayed on the model: each \<^verbatim>\<open>#[test]\<close> function is a predicate with the
  same name that makes the same calls and the same assertions. The clock, the generator and the codecs
  that a test takes from its surroundings are arguments, and the lemmas show that the test passes
  for all of them (for the instants and encoders the test presupposes).
\<close>

section \<open>Hexadecimal\<close>

definition to_vec_rejects_odd_length :: bool where
  "to_vec_rejects_odd_length \<longleftrightarrow> to_vec ''abc'' = None"

definition to_vec_decodes_even_length_hex :: bool where
  "to_vec_decodes_even_length_hex \<longleftrightarrow> to_vec ''0aBc'' = Some [0x0a, 0xbc]"

lemma hex_tests_pass: "to_vec_rejects_odd_length" "to_vec_decodes_even_length_hex"
  by code_simp+

section \<open>Probe tracker\<close>

text \<open>What \<^verbatim>\<open>try_recv\<close> on the receiver of a channel sees of the events so far.\<close>

datatype recv_result = Received probe_outcome | EmptyChan | ClosedChan

fun try_recv :: "chan \<Rightarrow> chan_event list \<Rightarrow> recv_result" where
  "try_recv ch [] = EmptyChan"
| "try_recv ch (e # es) =
     (if chan_of e = ch then (case e of Sent c r \<Rightarrow> Received r | TxDropped c \<Rightarrow> ClosedChan) else try_recv ch es)"

definition complete_before_register_delivers_buffered_success :: "instant \<Rightarrow> instant \<Rightarrow> bool" where
  "complete_before_register_delivers_buffered_success n1 n2 \<longleftrightarrow>
     (let hash = replicate 32 1;
          t = fst (complete_success n1 hash tracker_new);
          evs = snd (register_probe n2 0 hash t)
      in try_recv 0 evs = Received OutcomeSuccess)"

definition complete_before_register_delivers_buffered_failed :: "instant \<Rightarrow> instant \<Rightarrow> bool" where
  "complete_before_register_delivers_buffered_failed n1 n2 \<longleftrightarrow>
     (let hash = replicate 32 2;
          t = fst (complete_failed n1 hash tracker_new);
          evs = snd (register_probe n2 0 hash t)
      in try_recv 0 evs = Received OutcomeFailed)"

definition register_before_complete_still_delivers_over_channel :: "instant \<Rightarrow> instant \<Rightarrow> bool" where
  "register_before_complete_still_delivers_over_channel n1 n2 \<longleftrightarrow>
     (let hash = replicate 32 3;
          (t, evs) = register_probe n1 0 hash tracker_new;
          evs' = snd (complete_success n2 hash t)
      in try_recv 0 evs = EmptyChan \<and> try_recv 0 (evs @ evs') = Received OutcomeSuccess)"

definition late_completion_after_timeout_is_dropped :: "instant \<Rightarrow> instant \<Rightarrow> instant \<Rightarrow> bool" where
  "late_completion_after_timeout_is_dropped n1 n2 n3 \<longleftrightarrow>
     (let hash = replicate 32 4;
          t = fst (complete_success n3 hash (fst (mark_timed_out n1 n2 hash tracker_new)))
      in hm_get (completed_probes t) hash = None \<and> hm_get (timed_out_probes t) hash = None)"

definition prune_removes_entries_older_than_ttl :: "instant \<Rightarrow> instant \<Rightarrow> bool" where
  "prune_removes_entries_older_than_ttl n1 n2 \<longleftrightarrow>
     (let hash = replicate 32 5;
          stale_time = n1 - (TIMED_OUT_PROBE_TTL + 10 ^ 9);
          t = tracker_new\<lparr>timed_out_probes := hm_insert hash stale_time (timed_out_probes tracker_new)\<rparr>
      in hm_get (timed_out_probes (prune_timed_out_probes n2 t)) hash = None)"

definition numbered_hash :: "nat \<Rightarrow> payment_hash" where
  "numbered_hash i =
     [of_nat (i mod 256), of_nat (i div 256 mod 256), of_nat (i div 65536 mod 256)] @ replicate 29 0"

definition numbered_map :: "instant \<Rightarrow> nat \<Rightarrow> (payment_hash, instant) hmap" where
  "numbered_map base n = fold (\<lambda>i. hm_insert (numbered_hash i) (base + i)) [0..<n] hm_new"

definition prune_enforces_max_size_cap :: "instant \<Rightarrow> instant \<Rightarrow> bool" where
  "prune_enforces_max_size_cap base now \<longleftrightarrow>
     (let t = prune_timed_out_probes now (tracker_new\<lparr>timed_out_probes := numbered_map base (MAX_TIMED_OUT_PROBES + 3)\<rparr>)
      in length (timed_out_probes t) \<le> MAX_TIMED_OUT_PROBES \<and> hm_get (timed_out_probes t) (replicate 32 0) = None)"

lemma prune_empty [simp]: "prune_map now hm_new = hm_new" "hm_remove h hm_new = hm_new"
  by (simp_all add: prune_map_def hm_retain_def hm_remove_def hm_new_def)

lemma try_recv_simps [simp]:
  "try_recv ch [Sent ch r] = Received r" "try_recv ch [] = EmptyChan"
  by simp_all

lemma tracker_tests_pass:
  "complete_before_register_delivers_buffered_success n1 n2"
  "complete_before_register_delivers_buffered_failed n1 n2"
  "register_before_complete_still_delivers_over_channel n1 n2"
  by (simp_all add: complete_before_register_delivers_buffered_success_def
      complete_before_register_delivers_buffered_failed_def register_before_complete_still_delivers_over_channel_def
      complete_success_def complete_failed_def complete_probe_def register_probe_def prune_timed_out_probes_def
      tracker_new_def Let_def)

lemma late_completion_test_passes:
  "n3 - n2 \<le> TIMED_OUT_PROBE_TTL \<Longrightarrow> late_completion_after_timeout_is_dropped n1 n2 n3"
proof -
  assume "n3 - n2 \<le> TIMED_OUT_PROBE_TTL"
  then have "prune_map n3 (hm_insert h n2 hm_new) = hm_insert h n2 hm_new" for h
    by (simp add: prune_map_def hm_retain_def hm_insert_def hm_new_def MAX_TIMED_OUT_PROBES_def)
  then show ?thesis
    by (simp add: late_completion_after_timeout_is_dropped_def complete_success_def complete_probe_def mark_timed_out_def
        prune_timed_out_probes_def tracker_new_def Let_def)
qed

lemma prune_test_passes:
  assumes "TIMED_OUT_PROBE_TTL + 10 ^ 9 \<le> n1" "n1 \<le> n2"
  shows "prune_removes_entries_older_than_ttl n1 n2"
  using assms
  by (simp add: prune_removes_entries_older_than_ttl_def prune_timed_out_probes_def prune_map_def hm_retain_def
      hm_insert_def hm_new_def hm_get_def tracker_new_def Let_def)

lemma numbered_hash_inj: "i < 65536 \<Longrightarrow> j < 65536 \<Longrightarrow> numbered_hash i = numbered_hash j \<Longrightarrow> i = j"
proof -
  assume lt: "i < 65536" "j < 65536" and eq: "numbered_hash i = numbered_hash j"
  have low: "unat (of_nat (n mod 256) :: u8) = n mod 256" for n by (simp add: unat_of_nat)
  have bs: "of_nat (i mod 256) = (of_nat (j mod 256) :: u8)" "of_nat (i div 256 mod 256) = (of_nat (j div 256 mod 256) :: u8)"
    using eq by (simp_all only: numbered_hash_def append_Cons list.inject)
  have "i mod 256 = j mod 256" "i div 256 mod 256 = j div 256 mod 256"
    using bs by (metis low)+
  moreover have "n div 256 mod 256 = n div 256" if "n < 65536" for n :: nat using that by simp
  ultimately show "i = j" using lt by (metis div_mult_mod_eq)
qed

lemma numbered_map_Suc: "numbered_map base (Suc n) = hm_insert (numbered_hash n) (base + n) (numbered_map base n)"
  by (simp add: numbered_map_def)

lemma numbered_map_wf: "hm_wf (numbered_map base n)"
  by (induction n) (simp_all add: numbered_map_Suc numbered_map_def)

lemma numbered_map_get:
  "n \<le> 65536 \<Longrightarrow> hm_get (numbered_map base n) h = Some i \<longleftrightarrow> (\<exists>k<n. h = numbered_hash k \<and> i = base + k)"
proof (induction n)
  case (Suc n)
  have "k = n" if "k < n" "numbered_hash k = numbered_hash n" for k
    using numbered_hash_inj [of k n] that Suc.prems by simp
  with Suc show ?case by (auto simp: numbered_map_Suc less_Suc_eq)
qed (simp add: numbered_map_def)

lemma numbered_map_length: "n \<le> 65536 \<Longrightarrow> length (numbered_map base n) = n"
proof (induction n)
  case (Suc n)
  have "hm_get (numbered_map base n) (numbered_hash n) = None"
  proof (rule ccontr)
    assume "hm_get (numbered_map base n) (numbered_hash n) \<noteq> None"
    then obtain k where "k < n" "numbered_hash k = numbered_hash n" using numbered_map_get [of n base] Suc.prems by force
    then show False using numbered_hash_inj [of k n] Suc.prems by simp
  qed
  with Suc show ?case by (simp add: numbered_map_Suc hm.size_insert_new numbered_map_wf)
qed (simp add: numbered_map_def hm_new_def)

lemma cap_test_passes:
  assumes "base \<le> now" "now - base \<le> TIMED_OUT_PROBE_TTL"
  shows "prune_enforces_max_size_cap base now"
proof -
  define N where "N = MAX_TIMED_OUT_PROBES + 3"
  define m where "m = numbered_map base N"
  have N: "N \<le> 65536" "MAX_TIMED_OUT_PROBES < N" by (simp_all add: N_def MAX_TIMED_OUT_PROBES_def)
  have wf: "hm_wf m" "length m = N" by (simp_all add: m_def numbered_map_wf numbered_map_length N)
  have get: "hm_get m h = Some i \<longleftrightarrow> (\<exists>k<N. h = numbered_hash k \<and> i = base + k)" for h i
    unfolding m_def by (rule numbered_map_get [OF N(1)])
  have len: "length (prune_map now m) \<le> MAX_TIMED_OUT_PROBES" by (rule prune_map_length [OF wf(1)])
  then obtain h where h: "hm_get m h \<noteq> None" "hm_get (prune_map now m) h = None"
    using hm.smaller_misses_key [of "prune_map now m" m] wf N(2) by auto
  then obtain k where k: "k < N" "h = numbered_hash k" "hm_get m h = Some (base + k)" using get by force
  have "hm_get (prune_map now m) (numbered_hash 0) = None"
  proof (rule ccontr)
    assume "hm_get (prune_map now m) (numbered_hash 0) \<noteq> None"
    then obtain i where i: "hm_get (prune_map now m) (numbered_hash 0) = Some i" by blast
    obtain j where j: "j < N" "numbered_hash 0 = numbered_hash j" "i = base + j"
      using prune_map_get [OF wf(1) i] get by blast
    have "j = 0" using numbered_hash_inj [of 0 j] j N(1) by simp
    moreover have "base + k \<le> i"
      by (rule prune_map_evicts(2) [OF wf(1) k(3) _ h(2) i]) (use assms(2) in simp)
    ultimately have "k = 0" using j(3) by simp
    with h(2) i k(2) show False by simp
  qed
  moreover have "numbered_hash 0 = replicate (3 + 29) 0"
    by (simp only: numbered_hash_def replicate_add) (simp add: numeral_3_eq_3)
  ultimately show ?thesis
    using len by (simp add: prune_enforces_max_size_cap_def prune_timed_out_probes_def m_def N_def)
qed

section \<open>Probing loop\<close>

definition extract_peer_pubkey_from_pubkey_and_addr :: bool where
  "extract_peer_pubkey_from_pubkey_and_addr \<longleftrightarrow> extract_peer_pubkey ''02abc123@1.2.3.4:9735'' = Some ''02abc123''"

definition extract_peer_pubkey_from_raw_pubkey :: bool where
  "extract_peer_pubkey_from_raw_pubkey \<longleftrightarrow> extract_peer_pubkey ''02abc123'' = Some ''02abc123''"

definition extract_peer_pubkey_rejects_empty_pubkey :: bool where
  "extract_peer_pubkey_rejects_empty_pubkey \<longleftrightarrow>
     extract_peer_pubkey ''@1.2.3.4:9735'' = None \<and> extract_peer_pubkey ''   '' = None"

definition reservoir_sample_is_bounded_and_unique :: "vec_alloc \<Rightarrow> (nat \<Rightarrow> nat) \<Rightarrow> bool" where
  "reservoir_sample_is_bounded_and_unique sz rng \<longleftrightarrow>
     (case reservoir_sample sz [0..<100] 8 rng of
        None \<Rightarrow> False
      | Some sample \<Rightarrow> length sample = 8 \<and> list_all (\<lambda>value. value < 100) sample \<and> card (set sample) = length sample)"

definition reservoir_sample_returns_all_when_k_exceeds_population :: "vec_alloc \<Rightarrow> (nat \<Rightarrow> nat) \<Rightarrow> bool" where
  "reservoir_sample_returns_all_when_k_exceeds_population sz rng \<longleftrightarrow>
     (case reservoir_sample sz [1, 2, 3 :: nat] 10 rng of
        None \<Rightarrow> False | Some sample \<Rightarrow> length sample = 3 \<and> set sample = {1, 2, 3})"

definition reservoir_sample_returns_empty_when_no_candidates :: "vec_alloc \<Rightarrow> (nat \<Rightarrow> nat) \<Rightarrow> bool" where
  "reservoir_sample_returns_empty_when_no_candidates sz rng \<longleftrightarrow> reservoir_sample sz ([] :: nat list) 5 rng = Some []"

lemma pubkey_tests_pass:
  "extract_peer_pubkey_from_pubkey_and_addr" "extract_peer_pubkey_from_raw_pubkey" "extract_peer_pubkey_rejects_empty_pubkey"
  by code_simp+

lemma distinct_sub_mset:
  assumes "mset xs \<subseteq># mset ys" "distinct ys"
  shows "distinct xs"
proof -
  have "count (mset xs) a = (if a \<in> set xs then 1 else 0)" for a
    using mset_subset_eq_count [OF assms(1), of a] assms(2)
    by (auto simp: distinct_count_atmost_1 count_eq_zero_iff order_antisym_conv Suc_le_eq split: if_splits)
  then show ?thesis by (simp add: distinct_count_atmost_1)
qed

lemma reservoir_tests_pass:
  assumes "vec_capacity_ok sz 5" "vec_capacity_ok sz 8" "vec_capacity_ok sz 10"
  shows "reservoir_sample_is_bounded_and_unique sz rng"
  "reservoir_sample_returns_all_when_k_exceeds_population sz rng"
  "reservoir_sample_returns_empty_when_no_candidates sz rng"
proof -
  obtain sample where s: "reservoir_sample sz [0..<100] 8 rng = Some sample"
    using reservoir_sample_None [of sz "[0..<100]" 8 rng] assms(2) by fastforce
  have "length sample = 8" using s by (auto simp: reservoir_sample_def length_reservoir_loop split: if_splits)
  moreover have "set sample \<subseteq> set [0..<100]" using s by (rule reservoir_sample_subset)
  moreover have "distinct sample"
    by (rule distinct_sub_mset [OF reservoir_sample_mset [OF s]]) simp
  ultimately show "reservoir_sample_is_bounded_and_unique sz rng"
    by (auto simp: reservoir_sample_is_bounded_and_unique_def s list_all_iff distinct_card)
  show "reservoir_sample_returns_all_when_k_exceeds_population sz rng" "reservoir_sample_returns_empty_when_no_candidates sz rng"
    using assms by (simp_all add: reservoir_sample_returns_all_when_k_exceeds_population_def
        reservoir_sample_returns_empty_when_no_candidates_def reservoir_sample_def)
qed

section \<open>Peer addresses\<close>

definition parse_peer_info_accepts_valid_pubkey_and_socket :: "(bytes \<Rightarrow> 'pk option) \<Rightarrow> (string \<Rightarrow> 'sa list option) \<Rightarrow> bool" where
  "parse_peer_info_accepts_valid_pubkey_and_socket from_slice to_socket_addrs \<longleftrightarrow>
     is_ok (parse_peer_info from_slice to_socket_addrs
       ''02e89ca9e8da72b33d896bae51d20e7e1f0571cece852d1387b4e2f4ae48c80a85@127.0.0.1:9735'')"

definition parse_peer_info_rejects_missing_separator :: "(bytes \<Rightarrow> 'pk option) \<Rightarrow> (string \<Rightarrow> 'sa list option) \<Rightarrow> bool" where
  "parse_peer_info_rejects_missing_separator from_slice to_socket_addrs \<longleftrightarrow>
     parse_peer_info from_slice to_socket_addrs
       ''02e89ca9e8da72b33d896bae51d20e7e1f0571cece852d1387b4e2f4ae48c80a85'' = Inl InvalidPeerInfoFormat"

definition parse_peer_info_rejects_invalid_pubkey :: "(bytes \<Rightarrow> 'pk option) \<Rightarrow> (string \<Rightarrow> 'sa list option) \<Rightarrow> bool" where
  "parse_peer_info_rejects_invalid_pubkey from_slice to_socket_addrs \<longleftrightarrow>
     parse_peer_info from_slice to_socket_addrs ''zzzz@127.0.0.1:9735'' = Inl InvalidPubkey"

definition test_pubkey :: string where
  "test_pubkey = ''02e89ca9e8da72b33d896bae51d20e7e1f0571cece852d1387b4e2f4ae48c80a85''"

lemma peer_info_tests_pass:
  assumes "to_socket_addrs ''127.0.0.1:9735'' = Some [a]" and "to_vec test_pubkey = Some bs" "from_slice bs = Some pk"
  shows "parse_peer_info_accepts_valid_pubkey_and_socket from_slice to_socket_addrs"
    "parse_peer_info_rejects_missing_separator from_slice to_socket_addrs"
    "parse_peer_info_rejects_invalid_pubkey from_slice to_socket_addrs"
proof -
  have "split_char CHR ''@'' ''02e89ca9e8da72b33d896bae51d20e7e1f0571cece852d1387b4e2f4ae48c80a85@127.0.0.1:9735'' =
      [test_pubkey, ''127.0.0.1:9735'']" by (simp add: test_pubkey_def)
  moreover have "to_compressed_pubkey from_slice test_pubkey = Some pk"
    using assms(2,3) by (simp add: to_compressed_pubkey_def test_pubkey_def)
  ultimately show "parse_peer_info_accepts_valid_pubkey_and_socket from_slice to_socket_addrs"
    using assms(1) by (simp add: parse_peer_info_accepts_valid_pubkey_and_socket_def parse_peer_info_def)
  show "parse_peer_info_rejects_missing_separator from_slice to_socket_addrs"
    by (simp add: parse_peer_info_rejects_missing_separator_def parse_peer_info_def)
  have "to_compressed_pubkey from_slice ''zzzz'' = None" by (simp add: to_compressed_pubkey_def)
  then show "parse_peer_info_rejects_invalid_pubkey from_slice to_socket_addrs"
    using assms(1) by (simp add: parse_peer_info_rejects_invalid_pubkey_def parse_peer_info_def)
qed

lemma test_pubkey_decodes: "map_option length (to_vec test_pubkey) = Some 33"
  by code_simp

section \<open>Configuration\<close>

text \<open>The temporary directory of a test holds the named files; the tree stands for the text written to \<^verbatim>\<open>config.toml\<close>.\<close>

definition tmp_env :: "string list \<Rightarrow> toml \<Rightarrow> string config_env" where
  "tmp_env files tree =
     \<lparr>fs_exists = (\<lambda>p. p \<in> (\<lambda>f. ''tmp/'' @ f) ` set files), fs_read = (\<lambda>_. Inr []), toml_parse = (\<lambda>_. Inr tree),
      show_de_error = (\<lambda>_. []), addr_from_str = Some\<rparr>"

definition test_bitcoind :: "string \<times> toml" where
  "test_bitcoind = (''bitcoind'', TTbl [(''rpc_host'', TStr ''127.0.0.1''), (''rpc_port'', TInt 8332),
     (''rpc_username'', TStr ''user''), (''rpc_password'', TStr ''pass'')])"

fun contains_str :: "string \<Rightarrow> string \<Rightarrow> bool" where
  "contains_str s pat = (take (length pat) s = pat \<or> (case s of [] \<Rightarrow> False | _ # s' \<Rightarrow> contains_str s' pat))"

definition ends_with_str :: "string \<Rightarrow> string \<Rightarrow> bool" where
  "ends_with_str s pat = (drop (length s - length pat) s = pat)"

definition load_reads_toml_config :: bool where
  "load_reads_toml_config \<longleftrightarrow> is_ok (load (tmp_env [''config.toml''] (TTbl [test_bitcoind])) ''tmp'')"

definition load_fails_with_deprecated_json_when_toml_missing :: "toml \<Rightarrow> bool" where
  "load_fails_with_deprecated_json_when_toml_missing tree =
     (case load (tmp_env [''config.json''] tree) ''tmp'' of
        Inl (DeprecatedJsonConfig path) \<Rightarrow> ends_with_str path ''config.json''
      | _ \<Rightarrow> False)"

definition load_fails_when_no_config_files_exist :: "toml \<Rightarrow> bool" where
  "load_fails_when_no_config_files_exist tree =
     (case load (tmp_env [] tree) ''tmp'' of
        Inl (FileNotFound path) \<Rightarrow> ends_with_str path ''config.toml''
      | _ \<Rightarrow> False)"

definition load_fails_when_rapid_sync_interval_is_zero :: bool where
  "load_fails_when_rapid_sync_interval_is_zero =
     (case load (tmp_env [''config.toml''] (TTbl [test_bitcoind,
         (''rapid_gossip_sync'', TTbl [(''enabled'', TBool True), (''interval_hours'', TInt 0)])])) ''tmp'' of
        Inl (ValidationError msg) \<Rightarrow> contains_str msg ''interval_hours''
      | _ \<Rightarrow> False)"

definition load_fails_when_dns_bootstrap_enabled_with_zero_interval :: bool where
  "load_fails_when_dns_bootstrap_enabled_with_zero_interval =
     (case load (tmp_env [''config.toml''] (TTbl [test_bitcoind,
         (''dns_bootstrap'', TTbl [(''enabled'', TBool True), (''seeds'', TArr [TStr ''nodes.lightning.wiki'']),
           (''timeout_secs'', TInt 30), (''num_peers'', TInt 10), (''interval_secs'', TInt 0)])])) ''tmp'' of
        Inl (ValidationError msg) \<Rightarrow> contains_str msg ''dns_bootstrap.interval_secs''
      | _ \<Rightarrow> False)"

lemma config_tests_pass:
  "load_reads_toml_config" "load_fails_when_rapid_sync_interval_is_zero"
  "load_fails_when_dns_bootstrap_enabled_with_zero_interval"
  by code_simp+

lemma missing_config_tests_pass:
  "load_fails_with_deprecated_json_when_toml_missing tree" "load_fails_when_no_config_files_exist tree"
  by (simp_all add: load_fails_with_deprecated_json_when_toml_missing_def load_fails_when_no_config_files_exist_def
      load_def tmp_env_def ends_with_str_def)

section \<open>DNS names\<close>

text \<open>
  \<open>encode_bech32\<close> is the helper of the tests: the library's encoder after its base-32 conversion. The tests
  presuppose that the library decodes what it encodes, and that a label holds no dot.
\<close>

definition bech32_ok :: "('pk, 'ip) dns_params \<Rightarrow> (string \<Rightarrow> bytes \<Rightarrow> string) \<Rightarrow> bool" where
  "bech32_ok P encode_bech32 \<longleftrightarrow>
     (\<forall>hrp data. encode_bech32 hrp data \<noteq> [] \<and> CHR ''.'' \<notin> set (encode_bech32 hrp data) \<and>
        (\<exists>d5. bech32_decode P (encode_bech32 hrp data) = Inr (hrp, d5) \<and> convert_bits P d5 = Inr data))"

definition test_decode_valid_hostname :: "('pk, 'ip) dns_params \<Rightarrow> (string \<Rightarrow> bytes \<Rightarrow> string) \<Rightarrow> bytes \<Rightarrow> 'pk \<Rightarrow> bool" where
  "test_decode_valid_hostname P encode_bech32 pubkey_bytes pubkey \<longleftrightarrow>
     (let hostname = encode_bech32 ''ln'' pubkey_bytes @ ''.nodes.lightning.wiki.''
      in decode_pubkey_from_hostname P hostname = Inr (pubkey, pk_serialize P pubkey))"

definition test_decode_invalid_hrp :: "('pk, 'ip) dns_params \<Rightarrow> (string \<Rightarrow> bytes \<Rightarrow> string) \<Rightarrow> bytes \<Rightarrow> bool" where
  "test_decode_invalid_hrp P encode_bech32 pubkey_bytes =
     (let hostname = encode_bech32 ''bc'' pubkey_bytes @ ''.nodes.lightning.wiki.''
      in case decode_pubkey_from_hostname P hostname of
           Inl (InvalidBech32NodeId h reason) \<Rightarrow> contains_str reason (''expected HRP '' @ [CHR 0x27] @ ''ln'' @ [CHR 0x27])
         | _ \<Rightarrow> False)"

definition test_decode_empty_hostname :: "('pk, 'ip) dns_params \<Rightarrow> bool" where
  "test_decode_empty_hostname P \<longleftrightarrow> \<not> is_ok (decode_pubkey_from_hostname P [])"

definition test_decode_garbage_bech32 :: "('pk, 'ip) dns_params \<Rightarrow> bool" where
  "test_decode_garbage_bech32 P \<longleftrightarrow> \<not> is_ok (decode_pubkey_from_hostname P ''not-valid-bech32.example.com.'')"

definition test_decode_valid_bech32_invalid_pubkey :: "('pk, 'ip) dns_params \<Rightarrow> (string \<Rightarrow> bytes \<Rightarrow> string) \<Rightarrow> bool" where
  "test_decode_valid_bech32_invalid_pubkey P encode_bech32 =
     (let hostname = encode_bech32 ''ln'' [0x01, 0x02, 0x03] @ ''.example.com.''
      in case decode_pubkey_from_hostname P hostname of Inl (InvalidPublicKey m) \<Rightarrow> True | _ \<Rightarrow> False)"

definition test_roundtrip_multiple_pubkeys ::
  "('pk, 'ip) dns_params \<Rightarrow> (string \<Rightarrow> bytes \<Rightarrow> string) \<Rightarrow> (bytes \<times> 'pk) list \<Rightarrow> bool" where
  "test_roundtrip_multiple_pubkeys P encode_bech32 pubkeys \<longleftrightarrow>
     list_all (\<lambda>(bytes, pubkey).
       map_option fst (result_ok (decode_pubkey_from_hostname P (encode_bech32 ''ln'' bytes @ ''.lseed.bitcoinstats.com.''))) =
         Some pubkey) pubkeys"

lemma decode_encoded:
  assumes "bech32_ok P encode_bech32"
  shows "decode_pubkey_from_hostname P (encode_bech32 hrp data @ CHR ''.'' # rest) =
    (if hrp \<noteq> ''ln''
     then Inl (InvalidBech32NodeId (encode_bech32 hrp data @ CHR ''.'' # rest) (''expected HRP '' @ [CHR 0x27] @ ''ln'' @ [CHR 0x27] @
            '', got '' @ [CHR 0x27] @ hrp @ [CHR 0x27]))
     else and_then (map_err (\<lambda>e. InvalidPublicKey (''secp256k1 parse failed: '' @ e)) (pk_from_slice P data))
            (\<lambda>pubkey. Inr (pubkey, pk_serialize P pubkey)))"
proof -
  obtain d5 where d5: "bech32_decode P (encode_bech32 hrp data) = Inr (hrp, d5)" "convert_bits P d5 = Inr data"
    using assms by (meson bech32_ok_def)
  have "CHR ''.'' \<notin> set (encode_bech32 hrp data)" "encode_bech32 hrp data \<noteq> []"
    using assms by (simp_all add: bech32_ok_def)
  then show ?thesis
    by (simp add: decode_pubkey_from_hostname_def split_char_append_sep d5 Let_def)
qed

lemma hostname_tests_pass:
  assumes "bech32_ok P encode_bech32" and "\<And>bs pk. (bs, pk) \<in> set pubkeys \<Longrightarrow> pk_from_slice P bs = Inr pk"
    and "(pubkey_bytes, pubkey) \<in> set pubkeys" and "\<not> is_ok (pk_from_slice P [1, 2, 3])"
    and "\<not> is_ok (bech32_decode P ''not-valid-bech32'')"
  shows "test_decode_valid_hostname P encode_bech32 pubkey_bytes pubkey"
    "test_decode_invalid_hrp P encode_bech32 pubkey_bytes" "test_decode_empty_hostname P"
    "test_decode_garbage_bech32 P" "test_decode_valid_bech32_invalid_pubkey P encode_bech32"
    "test_roundtrip_multiple_pubkeys P encode_bech32 pubkeys"
proof -
  note d = decode_encoded [OF assms(1)]
  show "test_decode_valid_hostname P encode_bech32 pubkey_bytes pubkey"
    using assms(2,3) by (simp add: test_decode_valid_hostname_def d)
  show "test_decode_invalid_hrp P encode_bech32 pubkey_bytes"
    by (simp add: test_decode_invalid_hrp_def d)
  show "test_decode_empty_hostname P"
    by (simp add: test_decode_empty_hostname_def decode_pubkey_from_hostname_def)
  obtain e where "bech32_decode P ''not-valid-bech32'' = Inl e" using assms(5) by (cases "bech32_decode P ''not-valid-bech32''") auto
  then show "test_decode_garbage_bech32 P"
    by (simp add: test_decode_garbage_bech32_def decode_pubkey_from_hostname_def)
  obtain e' where "pk_from_slice P [1, 2, 3] = Inl e'" using assms(4) by (cases "pk_from_slice P [1, 2, 3]") auto
  then show "test_decode_valid_bech32_invalid_pubkey P encode_bech32"
    by (simp add: test_decode_valid_bech32_invalid_pubkey_def d)
  show "test_roundtrip_multiple_pubkeys P encode_bech32 pubkeys"
    using assms(2) by (auto simp: test_roundtrip_multiple_pubkeys_def list_all_iff d)
qed

section \<open>Gossip sync\<close>

definition test_rapid_sync_state_persistence :: bool where
  "test_rapid_sync_state_persistence \<longleftrightarrow>
     (let io = \<lparr>read_fault = None, create_fault = None, short_write = None, sync_fault = None\<rparr>;
          test_timestamp = 1234567890;
          (r, file) = save_last_sync_timestamp io test_timestamp None
      in is_ok r \<and> load_last_sync_timestamp io file = Inr test_timestamp \<and> load_last_sync_timestamp io None = Inr 0)"

definition test_rapid_sync_error_display :: "'ge sync_params \<Rightarrow> bool" where
  "test_rapid_sync_error_display P \<longleftrightarrow>
     show_sync_error P (DownloadFailed ''Connection timeout'') = ''download failed: Connection timeout'' \<and>
     show_sync_error P RetryExhausted = ''retry attempts exhausted''"

lemma rapid_sync_tests_pass: "test_rapid_sync_state_persistence" "test_rapid_sync_error_display P"
  using parse_u32_show [of 1234567890]
  by (simp_all add: test_rapid_sync_state_persistence_def test_rapid_sync_error_display_def show_sync_error_def
      save_last_sync_timestamp_def load_last_sync_timestamp_def del: show_nat.simps)

end
