(* ===== verification/Spec2Isabelle.thy ===== *)
theory Spec2Isabelle
  imports Hex_Utils Probe_Tracker Reservoir Node_Config Logging Probe_Runner Rapid_Sync Sweep_Migration
    Payments Dns_Bootstrap Bitcoind Peer_Net Scorer_Store Events Startup Node_Tasks Repl Display
    Config_Schema Node_System Unit_Tests
begin

text \<open>
  A verification development for \<^verbatim>\<open>scorer\<close>, a Lightning node built on LDK that probes its peers and
  random nodes of the network graph so that its payment scorer learns which channels can forward what.

  \<^bold>\<open>The program.\<close> \<^verbatim>\<open>main.rs\<close> reads the command line and \<^verbatim>\<open>config.toml\<close>, loads or creates the node's
  key, restores channel monitors, channel manager, sweeper, payment tables, network graph and scorer
  from disk, brings them to the tip of bitcoind's chain, and starts the tasks: block polling, fee
  polling, peer reconnection, DNS bootstrap, rapid gossip sync, the probing loop, the command loop and
  LDK's background processor, which calls the event handler. Three pieces of state are shared between
  tasks: the probe tracker (probing loop and event handler), the two payment tables (command loop
  and event handler), and the fee table (written by the polling task, read by everyone).

  \<^bold>\<open>Theories.\<close> Source paths are relative to \<^verbatim>\<open>src/src\<close>.

  \<^item> \<^verbatim>\<open>Rust_Prelude\<close>, \<^verbatim>\<open>Rust_Str\<close>, \<^verbatim>\<open>Float64\<close>: the parts of the language and of its standard library the
    source uses: machine integers as words, results as sums, saturating arithmetic, string functions
    over UTF-8 bytes, and binary64 arithmetic as rational arithmetic followed by rounding.
  \<^item> \<^verbatim>\<open>Hash_Map\<close>: the standard hash map. The locale \<open>hash_map\<close> is its contract, interpreted on
    association lists; the order of the list is the unspecified iteration order.
  \<^item> \<^verbatim>\<open>Hex_Utils\<close> (\<^verbatim>\<open>hex_utils.rs\<close>): the hexadecimal codec; decoding inverts encoding, and the strings
    that decode are characterised.
  \<^item> \<^verbatim>\<open>Probe_Tracker\<close> (\<^verbatim>\<open>probing/tracker.rs\<close>): the rendezvous of a probe with its result. The locale
    \<open>rendezvous\<close> states the contract over one slot per payment hash; its interpretation is the
    refinement. \<open>probe_reachable\<close> is the relation of the states reached in any interleaving.
  \<^item> \<^verbatim>\<open>Reservoir\<close> and \<^verbatim>\<open>Probe_Runner\<close> (\<^verbatim>\<open>probing/runner.rs\<close>, \<^verbatim>\<open>probing/sender.rs\<close>): the random choice of
    nodes with its uniformity, one probe attempt under every schedule of the other tasks, the ladder
    of amounts for a peer, and the periodic loop.
  \<^item> \<^verbatim>\<open>Node_Config\<close> (\<^verbatim>\<open>config.rs\<close>, \<^verbatim>\<open>dns_bootstrap/config.rs\<close>, \<^verbatim>\<open>runtime_config.rs\<close>, \<^verbatim>\<open>args.rs\<close>): from
    the value tree of the file to validated settings, with every default and every error; structs are read from
    tables and from arrays, as the derived decoders do.
  \<^item> \<^verbatim>\<open>Config_Schema\<close>: the types of the configuration structs, as serde reads them, and a typing relation on
    value trees; the decoder accepts exactly the well-typed trees.
  \<^item> \<^verbatim>\<open>Logging\<close> (\<^verbatim>\<open>logging.rs\<close>, the logger of \<^verbatim>\<open>disk.rs\<close>): output macros and the daily log file behind its
    8 KiB buffer, with writes that fail or stop part-way.
  \<^item> \<^verbatim>\<open>Rapid_Sync\<close> (\<^verbatim>\<open>rapid_sync.rs\<close>): download with retries, application, and the saved time stamp.
  \<^item> \<^verbatim>\<open>Sweep_Migration\<close> (\<^verbatim>\<open>sweep.rs\<close>): the one-time migration of spendable outputs over an explicit file
    system, with its sentinel.
  \<^item> \<^verbatim>\<open>Payments\<close> (\<^verbatim>\<open>state.rs\<close>, \<^verbatim>\<open>cli/commands/payment.rs\<close>, the readers of \<^verbatim>\<open>disk.rs\<close>, the payment arms of
    \<^verbatim>\<open>events/mod.rs\<close>): the payment tables and their files, which may be impossible to open or to read; \<open>pay_step\<close> and \<open>pay_reachable\<close> interleave
    commands, events, failing writes and restarts.
  \<^item> \<^verbatim>\<open>Dns_Bootstrap\<close> (\<^verbatim>\<open>dns_bootstrap/\<close>): discovery of peers through SRV records.
  \<^item> \<^verbatim>\<open>Bitcoind\<close> (\<^verbatim>\<open>convert.rs\<close>, \<^verbatim>\<open>bitcoind_client.rs\<close>): decoding of responses and the fee table;
    \<open>poll_reach\<close> is the relation of the tables visible between two stores.
  \<^item> \<^verbatim>\<open>Peer_Net\<close> (\<^verbatim>\<open>net/peer.rs\<close>, \<^verbatim>\<open>cli/commands/peer.rs\<close>, \<^verbatim>\<open>cli/commands/channel.rs\<close>, tasks of
    \<^verbatim>\<open>main.rs\<close>): connecting, and the rounds of the reconnection and bootstrap tasks.
  \<^item> \<^verbatim>\<open>Scorer_Store\<close> (\<^verbatim>\<open>persist.rs\<close>): the store that renames the scorer's key.
  \<^item> \<^verbatim>\<open>Events\<close> (\<^verbatim>\<open>events/mod.rs\<close>, \<^verbatim>\<open>events/funding.rs\<close>): the event handler, one case per arm, and the
    funding of a channel.
  \<^item> \<^verbatim>\<open>Startup\<close> (\<^verbatim>\<open>main.rs\<close>): the steps of a start in order, composed of the models of the logger, the
    bitcoind client, the readers and the gossip sync; the seed file.
  \<^item> \<^verbatim>\<open>Node_Tasks\<close> (\<^verbatim>\<open>main.rs\<close>): the payment tables are loaded and the tasks spawned; the listener, the block
    polling, bootstrap, announcement and gossip tasks tick by tick; the shutdown.
  \<^item> \<^verbatim>\<open>Display\<close> and \<^verbatim>\<open>Repl\<close> (\<^verbatim>\<open>cli/display.rs\<close>, \<^verbatim>\<open>cli/mod.rs\<close>): the printers and the command loop. The
    locale \<open>repl_command\<close> states what every command keeps (the payment tables stay reachable, the
    input is only consumed from the front, and a command returns when its connection attempt does); it
    is interpreted for each command and for their dispatcher, and the loop rests on the latter. The read-only
    commands print what \<^verbatim>\<open>Display\<close> says; a panic of a printer ends the session.
  \<^item> \<^verbatim>\<open>Node_System\<close>: the running node as a labelled transition system over the shared state, with the events, the
    commands, the probing task, the clock and restarts as labels. Its runs project to \<open>probe_step\<close> and \<open>pay_step\<close>;
    no wake-up of the probing task is lost, what the task reports is what LDK said, and a result that LDK delivers
    for the probe in flight is reported, once, with the task's second move at the latest. The moves of the probing task are
    linked to \<open>run_probe_attempt\<close> by \<open>attempt_of_run\<close>.
  \<^item> \<^verbatim>\<open>Unit_Tests\<close>: the repository's unit tests as booleans over the modelled functions, with proofs that they hold.
  \<^item> This theory: what a probe attempt reports in terms of the events LDK delivers, which joins
    \<^verbatim>\<open>Events\<close>, \<^verbatim>\<open>Probe_Tracker\<close> and \<^verbatim>\<open>Probe_Runner\<close>; and for which accepted settings a periodic
    task panics, which joins \<^verbatim>\<open>Node_Config\<close>, \<^verbatim>\<open>Probe_Runner\<close> and \<^verbatim>\<open>Node_Tasks\<close>.

  \<^bold>\<open>Conventions.\<close> State is passed explicitly; what a component prints, logs or hands to LDK is a list
  of actions in order; a raised error is the left injection of a sum; a panic is an explicit value.
  Both Cargo profiles set \<^verbatim>\<open>panic = "abort"\<close>, so the panic of a task ends the process. An allocation fails beyond the
  address space or when the allocator refuses the size (\<open>vec_alloc\<close>); for which periods a timer panics is a
  parameter. Arithmetic on machine integers wraps as in a release build, except where an overflow of a setting can
  panic in the dev profile (\<open>rapid_sync_interval\<close>), where the overflow checks are a parameter.
  The readings of a clock, the draws of a generator and the faults of system calls are arguments. What
  other tasks do while a task is suspended is an arbitrary list of their operations.

  \<^bold>\<open>Parameters.\<close> Code of other packages is an argument of the definitions that call it: LDK (channel
  manager, peer manager, router, sweeper, serialisation), bitcoind's transport and JSON values, the
  curve library, bech32, the DNS resolver, the HTTP client and the TOML grammar. What is relied on is a
  hypothesis of the theorem that needs it, and the theorem's witness instantiates it.

  \<^bold>\<open>Termination.\<close> No definition uses fuel. The loops are structural, or have a measure
  (\<open>retry_loop\<close>: the attempts left; \<open>repl\<close>: the input left, which commands only consume, by lemma \<open>reads_on\<close> of
  \<open>repl_command\<close>). Two loops of the source need not end and are partial functions with the value
  \<^const>\<open>None\<close> for not returning: \<open>connect_loop\<close>, with the exact condition under which it returns, and
  \<open>read_outputs_loop\<close>, shown to return for every decoder that makes progress. The endless tasks are
  modelled by their rounds and by runs over lists of rounds.

  \<^bold>\<open>Not modelled.\<close> \<^verbatim>\<open>types.rs\<close>, \<^verbatim>\<open>probing/mod.rs\<close> and the other re-exports, which only give names; the
  construction of LDK's objects in \<^verbatim>\<open>main.rs\<close> where it passes handles on; the dummy signal
  handler and the timers of the runtime; the exhaustion of memory by other allocations than the sample's; the grammar of TOML; the format of printed times; the TLV format of the payment files, which library
  macros generate.
\<close>

section \<open>Probes and events\<close>

definition probe_event_for :: "payment_hash \<Rightarrow> ('j, 'b, 'tx, 'outs) event_ctx \<times> ('outs, 'bump, 'ga) ldk_event \<Rightarrow> bool" where
  "probe_event_for h = (\<lambda>(C, event). event = ProbeSuccessful h \<or> event = ProbeFailed h)"

definition event_completion ::
  "payment_hash \<Rightarrow> ('j, 'b, 'tx, 'outs) event_ctx \<times> ('outs, 'bump, 'ga) ldk_event \<Rightarrow> 'sf probe_completion" where
  "event_completion h = (\<lambda>(C, event). if event = ProbeSuccessful h then Success h else Failed h)"

text \<open>Calls of other tasks that do to the tracker and to the channels of the waiting tasks, in every state, what the event
  handler does when it handles these events one after the other.\<close>

definition performs :: "tracker_call list \<Rightarrow> (('j, 'b, 'tx, 'outs) event_ctx \<times> ('outs, 'bump, 'ga) ldk_event) list \<Rightarrow> bool" where
  "performs calls es \<longleftrightarrow>
     (\<forall>s. other_calls calls (es_tracker s) = (es_tracker (fst (run_events es s)), chan_events (snd (run_events es s))))"

lemma performs_calls:
  fixes es :: "(('j, 'b, 'tx, 'outs) event_ctx \<times> ('outs, 'bump, 'ga) ldk_event) list"
  assumes "performs calls es"
  shows "other_calls calls = other_calls (concat (map tracker_part es))"
proof
  fix t
  let ?s = "\<lparr>es_pay = undefined, es_tracker = t\<rparr> :: 'b ev_state"
  have "other_calls calls (es_tracker ?s) = other_calls (concat (map tracker_part es)) (es_tracker ?s)"
    using assms [unfolded performs_def, rule_format, of ?s] run_events_parts [of es ?s] by (simp add: prod_eq_iff)
  then show "other_calls calls t = other_calls (concat (map tracker_part es)) t" by simp
qed

text \<open>Every run of the handler is performed by some calls, so the assumption can be met for every list of events.\<close>

lemma performs_handler: "performs (concat (map tracker_part es)) es"
  by (simp add: performs_def run_events_parts prod_eq_iff)

lemma attempt_cong:
  "other_calls (env_before env) = other_calls cs \<Longrightarrow> other_calls (env_waiting env) = other_calls cs' \<Longrightarrow>
    run_probe_attempt env r st = run_probe_attempt (env\<lparr>env_before := cs, env_waiting := cs'\<rparr>) r st"
  by (simp add: run_probe_attempt_def Let_def case_prod_beta cong: sum.case_cong if_cong option.case_cong)

lemma outcomes_of_events:
  assumes "list_all (\<lambda>(C, event). ec_tracker_ok C) es"
  shows "outcomes_for h (concat (map tracker_part es)) =
    map (\<lambda>(C, event). if event = ProbeSuccessful h then OutcomeSuccess else OutcomeFailed) (filter (probe_event_for h) es)"
  using assms
proof (induction es)
  case (Cons e es)
  obtain C event where e: "e = (C, event)" by (cases e)
  with Cons show ?case
    by (cases event) (auto simp: tracker_part_def probe_event_for_def outcomes_for_def)
qed (simp add: outcomes_for_def)

lemma completion_of_events:
  "completion_of h ((\<lambda>(C, event). if event = ProbeSuccessful h then OutcomeSuccess else OutcomeFailed) e) = event_completion h e"
  by (simp add: completion_of_def event_completion_def case_prod_beta)

section \<open>Periods\<close>

lemma seconds_fit:
  fixes hours far :: u64
  assumes "unat hours * 3600 \<le> unat far"
  shows "unat hours * 3600 < 2 ^ 64" "unat (hours * 3600) = unat hours * 3600"
proof -
  have "unat far < 2 ^ 64" using unsigned_less [where ?'a = nat, of far] by simp
  with assms show small: "unat hours * 3600 < 2 ^ 64" by linarith
  then show "unat (hours * 3600) = unat hours * 3600" by (simp add: unat_word_ariths)
qed

text \<open>The gossip task for positive hours: what its period in seconds does.\<close>

lemma gossip_fates:
  assumes "hours \<noteq> 0" "timer_panics 0" "\<And>p. p \<noteq> 0 \<Longrightarrow> p \<le> far \<Longrightarrow> \<not> timer_panics p"
  shows "(unat hours * 3600 \<le> unat far \<longrightarrow> \<not> fst (rapid_sync_task timer_panics checks debug_err url hours ticks st)) \<and>
    (2 ^ 64 \<le> unat hours * 3600 \<longrightarrow> fst (rapid_sync_task timer_panics True debug_err url hours ticks st)) \<and>
    (2 ^ 60 dvd unat hours \<longrightarrow> fst (rapid_sync_task timer_panics False debug_err url hours ticks st))"
proof (intro conjI impI)
  assume fits: "unat hours * 3600 \<le> unat far"
  note exact = seconds_fit [OF fits]
  have "hours * 3600 \<noteq> 0" using exact(2) assms(1) by (metis mult_is_0 unat_0 unat_eq_zero zero_neq_numeral)
  moreover have "rapid_sync_interval checks hours = Some (hours * 3600)" "hours * 3600 \<le> far"
    using exact fits by (simp_all add: rapid_sync_interval_def word_le_nat_alt)
  ultimately show "\<not> fst (rapid_sync_task timer_panics checks debug_err url hours ticks st)"
    using assms(3) by (simp add: rapid_sync_task_def)
next
  assume "2 ^ 64 \<le> unat hours * 3600"
  then show "fst (rapid_sync_task timer_panics True debug_err url hours ticks st)"
    by (simp add: rapid_sync_task_def rapid_sync_interval_def)
next
  assume "2 ^ 60 dvd unat hours"
  then have "rapid_sync_interval False hours = Some 0" by (simp only: rapid_sync_interval_zero_iff)
  then show "fst (rapid_sync_task timer_panics False debug_err url hours ticks st)"
    using assms(2) by (simp add: rapid_sync_task_def)
qed

section \<open>Properties\<close>

text \<open>C2: what a probe reports is what LDK's events say. While the attempt has not registered, the other tasks
  run the event handler on the events \<open>before\<close>, and while it waits, on the events \<open>waiting\<close>: their calls do to the
  tracker and to the waiting tasks what \<open>run_events\<close>, the handler on one event after the other, does. Then the attempt
  reports the last probe event for its payment hash handled before it registered, else the first one handled while it
  waited, else a timeout, with a success for ProbeSuccessful and a failure for ProbeFailed; every other event, for any
  component and any other hash, leaves it alone.\<close>

theorem attempt_reports_events:
  assumes "tracker_wf (ps_tracker st)" "slot_of (ps_tracker st) h = Idle"
    and "\<forall>h'. slot_of (ps_tracker st) h' \<noteq> Waiting (ps_next st)"
    and "env_reg_lock env"
    and "performs (env_before env) before" "performs (env_waiting env) waiting"
    and "list_all (\<lambda>(C, event). ec_tracker_ok C) before" "list_all (\<lambda>(C, event). ec_tracker_ok C) waiting"
    and "run_probe_attempt env (Inr h) st = (completion, st', outs)"
  shows "completion =
    (if filter (probe_event_for h) before \<noteq> []
     then event_completion h (last (filter (probe_event_for h) before))
     else case filter (probe_event_for h) waiting of [] \<Rightarrow> Timeout h | e # _ \<Rightarrow> event_completion h e)"
proof -
  let ?env = "env\<lparr>env_before := concat (map tracker_part before), env_waiting := concat (map tracker_part waiting)\<rparr>"
  have "run_probe_attempt ?env (Inr h) st = (completion, st', outs)"
    using attempt_cong [OF performs_calls [OF assms(5)] performs_calls [OF assms(6)]] assms(9) by metis
  then have "completion = attempt_spec h (env_before ?env) (env_waiting ?env)"
    using attempt_result [OF assms(1-3), of ?env] assms(4) by simp
  then show ?thesis
    unfolding attempt_spec_def
    by (auto simp: outcomes_of_events [OF assms(7)] outcomes_of_events [OF assms(8)] last_map
        completion_of_events [symmetric] split: list.split)
qed

text \<open>The handler gets an event of another component before the registration, and LDK's failure while the task waits.\<close>

theorem attempt_reports_events_witness:
  "fst (run_probe_attempt (demo_attempt\<lparr>env_before := [], env_waiting := [(5, [7], OutcomeFailed)]\<rparr>) (Inr [7]) demo_state) = Failed [7]"
proof -
  let ?env = "demo_attempt\<lparr>env_before := [], env_waiting := [(5, [7], OutcomeFailed)]\<rparr>"
  let ?before = "[(demo_ctx, PaymentClaimed [7] (SpontaneousPayment [8]) 1000)] :: ((rat, payments, nat, nat) event_ctx \<times> (nat, nat, nat) ldk_event) list"
  let ?waiting = "[(demo_ctx, ProbeFailed [7])] :: ((rat, payments, nat, nat) event_ctx \<times> (nat, nat, nat) ldk_event) list"
  obtain c st' outs where run: "run_probe_attempt ?env (Inr [7]) demo_state = (c, st', outs)"
    by (metis prod.exhaust)
  have pre: "tracker_wf (ps_tracker demo_state)" "slot_of (ps_tracker demo_state) [7] = Idle"
    "\<forall>h'. slot_of (ps_tracker demo_state) h' \<noteq> Waiting (ps_next demo_state)" "env_reg_lock ?env"
    by (simp_all add: demo_state_def demo_attempt_def)
  have handled: "performs (env_before ?env) ?before" "performs (env_waiting ?env) ?waiting"
    using performs_handler [of ?before] performs_handler [of ?waiting] by (simp_all add: tracker_part_def demo_ctx_def)
  have unlocked: "list_all (\<lambda>(C, event). ec_tracker_ok C) ?before" "list_all (\<lambda>(C, event). ec_tracker_ok C) ?waiting"
    by (simp_all add: demo_ctx_def)
  from attempt_reports_events [OF pre handled unlocked run] run show ?thesis
    by (simp add: probe_event_for_def event_completion_def)
qed

text \<open>C6: the tasks a validated configuration starts. The runtime's timer panics for a period of zero and not for positive periods up
  to some bound \<open>far\<close>. After a successful parse of the command line and the file, for periods up to \<open>far\<close>: the bootstrap
  task does not die of its timer; the probing task, when no scorer lock is poisoned, dies only in its first tick, and there exactly
  when random probing is enabled and the sample cannot be allocated, by the capacity limit or by the allocator,
  whose answer for a size is taken to be the same in every tick; the gossip task
  does not die. Validation does not exclude the allocation, nor hours whose period in seconds overflows: with overflow checks
  that kills the task, and without them every multiple of 2 to the power 60 does, whose period wraps to zero.\<close>

theorem configured_tasks_run:
  fixes P :: "('pk, 'cd, 'htlcs, 'path, 'sf) probing_params" and far :: u64
  assumes "parse_startup_args env create_dir_all args = Inr info"
    and "\<And>n. \<not> scorer_poisoned (env_ldk (attempt_at P n))"
    and "interval_panics P 0" "\<And>p. 0 < p \<Longrightarrow> p \<le> far \<Longrightarrow> \<not> interval_panics P p"
  shows "pred_option (\<lambda>cfg. interval_sec cfg \<le> far \<longrightarrow>
      (fst (spawn_probing_loop P our_node_id cfg ticks st) \<longleftrightarrow>
        ticks \<noteq> [] \<and> random_min_amount_msat cfg > 0 \<and> random_nodes_per_interval cfg > 0 \<and>
        \<not> vec_capacity_ok (key_alloc P) (unat (random_nodes_per_interval cfg)))) (probing info) \<and>
    pred_option (\<lambda>config. dns_interval_secs config \<le> far \<longrightarrow> \<not> fst (bootstrap_task (interval_panics P) config bticks))
      (fst (start_dns_bootstrap system_conf (dns_bootstrap_info info))) \<and>
    (let hours = rapid_gossip_sync_interval_hours info;
         dies = (\<lambda>checks. fst (rapid_sync_task (interval_panics P) checks debug_err url hours sticks gst))
     in rapid_gossip_sync_enabled info \<longrightarrow>
        (unat hours * 3600 \<le> unat far \<longrightarrow> \<not> dies checks) \<and>
        (2 ^ 64 \<le> unat hours * 3600 \<longrightarrow> dies True) \<and> (2 ^ 60 dvd unat hours \<longrightarrow> dies False))"
proof -
  note ok = parsed_intervals [OF assms(1)]
  have fine: "\<not> interval_panics P p" if "p \<noteq> 0" "p \<le> far" for p using assms(4) that by (simp add: word_gt_0)
  have probing: "pred_option (\<lambda>cfg. interval_sec cfg \<le> far \<longrightarrow> \<not> interval_panics P (interval_sec cfg)) (probing info)"
    using ok(2) fine by (auto simp: option.pred_set)
  have dns: "pred_option (\<lambda>config. dns_interval_secs config \<noteq> 0) (fst (start_dns_bootstrap system_conf (dns_bootstrap_info info)))"
    using ok(3) by (auto simp: start_dns_bootstrap_def DnsBootstrapper_new_def option.pred_set and_then_Inr_iff
        split: option.splits sum.splits if_splits)
  have "pred_option (\<lambda>config. dns_interval_secs config \<le> far \<longrightarrow> \<not> fst (bootstrap_task (interval_panics P) config bticks))
      (fst (start_dns_bootstrap system_conf (dns_bootstrap_info info)))"
    using dns fine by (auto simp: bootstrap_task_def option.pred_set)
  moreover have "pred_option (\<lambda>cfg. interval_sec cfg \<le> far \<longrightarrow>
      (fst (spawn_probing_loop P our_node_id cfg ticks st) \<longleftrightarrow>
        ticks \<noteq> [] \<and> random_min_amount_msat cfg > 0 \<and> random_nodes_per_interval cfg > 0 \<and>
        \<not> vec_capacity_ok (key_alloc P) (unat (random_nodes_per_interval cfg)))) (probing info)"
    using probing probing_loop_panics_iff [of P, OF assms(2)] by (auto simp: option.pred_set compute_modes_def)
  moreover have "rapid_gossip_sync_enabled info \<Longrightarrow> rapid_gossip_sync_interval_hours info \<noteq> 0" using ok(1) by blast
  ultimately show ?thesis
    using gossip_fates [of _ "interval_panics P" far, OF _ assms(3) fine] unfolding Let_def by blast
qed

definition busy_tree :: toml where
  "busy_tree = TTbl [(''bitcoind'', TTbl [(''rpc_host'', TStr ''h''), (''rpc_port'', TInt 8332),
     (''rpc_username'', TStr ''u''), (''rpc_password'', TStr ''p'')]), (''ldk'', TTbl []),
     (''rapid_gossip_sync'', TTbl [(''enabled'', TBool True), (''interval_hours'', TInt 1152921504606846976)]),
     (''probing'', TTbl [(''interval_sec'', TInt 300), (''peers'', TArr []), (''amount_msats'', TArr []),
        (''random_min_amount_msat'', TInt 1000), (''random_nodes_per_interval'', TInt 576460752303423488)]),
     (''dns_bootstrap'', TTbl [])]"

definition busy_probing :: probing_config where
  "busy_probing = \<lparr>interval_sec = 300, peers = [], amount_msats = [], random_min_amount_msat = 1000,
     random_nodes_per_interval = 576460752303423488, timeout_sec = 60, probe_delay_sec = 1, peer_delay_sec = 2\<rparr>"

definition busy_info :: "string ldk_user_info" where
  "busy_info = demo_info\<lparr>rapid_gossip_sync_interval_hours := 1152921504606846976, probing := Some busy_probing,
     dns_bootstrap_info := Some dns_bootstrap_config_default\<rparr>"

lemma busy_start:
  "parse_startup_args (Node_Config.demo_env\<lparr>toml_parse := \<lambda>_. Inr busy_tree\<rparr>) (\<lambda>_. Inr () :: (unit, string) result) [''ldk-sample'', ''d''] =
    Inr busy_info"
  by code_simp

text \<open>A sample of 2 to the power 59 nodes cannot be allocated, and 2 to the power 60 hours overflow; the bootstrap task runs.\<close>

theorem configured_tasks_run_witness:
  "fst (spawn_probing_loop demo_params [2] busy_probing [\<lparr>graph_nodes = [[2], [3]], gen_range = \<lambda>_. 0\<rparr>] demo_state) \<and>
   \<not> fst (bootstrap_task (interval_panics demo_params) dns_bootstrap_config_default ([] :: (nat, nat) bootstrap_tick list)) \<and>
   fst (rapid_sync_task (interval_panics demo_params) False (\<lambda>_ :: nat rapid_sync_error. []) ''u'' 1152921504606846976
     ([] :: (nat, nat) sync_tick list) \<lparr>sync_graph = 0, sync_file = None\<rparr>)"
proof -
  have "\<not> scorer_poisoned (env_ldk (attempt_at demo_params n))" for n
    by (simp add: demo_params_def demo_attempt_def demo_view_def)
  moreover have "interval_panics demo_params 0" "\<And>p. 0 < p \<Longrightarrow> p \<le> 86400 \<Longrightarrow> \<not> interval_panics demo_params p"
    by (simp_all add: demo_params_def)
  ultimately show ?thesis
    using configured_tasks_run [OF busy_start, of demo_params 86400 "[2]" "[\<lparr>graph_nodes = [[2], [3]], gen_range = \<lambda>_. 0\<rparr>]" demo_state
      "[] :: (nat, nat) bootstrap_tick list" "Inr ()" "\<lambda>_ :: nat rapid_sync_error. []" "''u''" "[] :: (nat, nat) sync_tick list"
      "\<lparr>sync_graph = 0, sync_file = None\<rparr>" False]
    by (simp add: busy_info_def busy_probing_def demo_info_def start_dns_bootstrap_def DnsBootstrapper_new_def Let_def
        SrvQueryExecutor_new_def dns_bootstrap_config_default_def default_enabled_def default_interval_secs_def vec_capacity_ok_def)
      (simp add: demo_params_def)
qed

end
